(* ===== verification/Prelude.thy ===== *)
theory Prelude
  imports Main "HOL-Library.AList"
begin

text \<open>
  The shared layer of the development: the Go string operations, string maps and error values
  that every component of the operator uses, and the contract of a list updated by key
  (\<open>keyed_update\<close>), which environment variables, container arguments and pipeline entries all
  follow.

  Go strings are byte strings and are modelled as \<^typ>\<open>string\<close>. A Go \<open>map[string]string\<close> is an
  association list \<open>smap\<close> read by \<^const>\<open>map_of\<close> and written by \<^const>\<open>AList.update\<close>; a nil map
  and an empty map read alike and are both \<open>[]\<close>. An \<open>error\<close> is a value of \<open>go_error\<close>; a function
  returning \<open>(T, error)\<close> returns \<open>T result\<close>, one returning \<open>error\<close> returns \<open>go_error option\<close>,
  with \<^const>\<open>None\<close> for nil.
\<close>

named_theorems go_string \<open>unfolding rules of the Go string operations\<close>
named_theorems api_defs \<open>unfolding rules of the API calls\<close>

section \<open>Strings\<close>

definition HasPrefix :: "string \<Rightarrow> string \<Rightarrow> bool" where
  "HasPrefix s p \<longleftrightarrow> take (length p) s = p"

definition HasSuffix :: "string \<Rightarrow> string \<Rightarrow> bool" where
  "HasSuffix s p \<longleftrightarrow> length p \<le> length s \<and> drop (length s - length p) s = p"

definition TrimSuffix :: "string \<Rightarrow> string \<Rightarrow> string" where
  "TrimSuffix s p = (if HasSuffix s p then take (length s - length p) s else s)"

definition TrimPrefix :: "string \<Rightarrow> string \<Rightarrow> string" where
  "TrimPrefix s p = (if HasPrefix s p then drop (length p) s else s)"

text \<open>\<open>strings.ReplaceAll\<close> at one-byte patterns, the only ones the operator uses.\<close>

definition ReplaceAll :: "string \<Rightarrow> char \<Rightarrow> char \<Rightarrow> string" where
  "ReplaceAll s a b = map (\<lambda>c. if c = a then b else c) s"

fun Join :: "string list \<Rightarrow> string \<Rightarrow> string" where
  "Join [] sep = []"
| "Join [x] sep = x"
| "Join (x # y # ys) sep = x @ sep @ Join (y # ys) sep"

text \<open>\<open>fmt.Sprintf("%d", n)\<close>.\<close>

fun show_nat :: "nat \<Rightarrow> string" where
  "show_nat n = (if n < 10 then [''0123456789'' ! n] else show_nat (n div 10) @ [''0123456789'' ! (n mod 10)])"

declare show_nat.simps [simp del]

definition show_int :: "int \<Rightarrow> string" where
  "show_int i = (if i < 0 then CHR ''-'' # show_nat (nat (- i)) else show_nat (nat i))"

text \<open>\<open>fmt.Sprintf("%v", xs)\<close> for a slice of strings.\<close>

definition show_strings :: "string list \<Rightarrow> string" where
  "show_strings xs = ''['' @ Join xs '' '' @ '']''"

declare HasPrefix_def [go_string] HasSuffix_def [go_string] TrimSuffix_def [go_string]
  TrimPrefix_def [go_string] ReplaceAll_def [go_string]

lemma HasPrefix_iff: "HasPrefix s p \<longleftrightarrow> (\<exists>t. s = p @ t)"
  unfolding HasPrefix_def by (metis append_take_drop_id append_eq_conv_conj)

lemma HasPrefix_append [simp]: "HasPrefix (p @ t) p"
  by (simp add: HasPrefix_def)

lemma HasSuffix_iff: "HasSuffix s p \<longleftrightarrow> (\<exists>t. s = t @ p)"
proof
  assume "HasSuffix s p"
  then have "s = take (length s - length p) s @ p"
    unfolding HasSuffix_def by (metis append_take_drop_id)
  then show "\<exists>t. s = t @ p" ..
next
  assume "\<exists>t. s = t @ p"
  then show "HasSuffix s p" by (auto simp: HasSuffix_def)
qed

lemma set_ReplaceAll: "a \<noteq> b \<Longrightarrow> a \<notin> set (ReplaceAll s a b)"
  by (auto simp: ReplaceAll_def split: if_splits)

text \<open>
  Two names without the separator never clash once the separator is appended: the byte string
  \<open>p @ [c]\<close> is a prefix of \<open>q @ c # t\<close> only if \<open>p = q\<close>.
\<close>

lemma separator_prefix_unique:
  assumes "c \<notin> set p" and "c \<notin> set q" and "p @ [c] = take (length p + 1) (q @ c # t)"
  shows "p = q"
proof -
  from assms(3) obtain u where u: "q @ c # t = p @ c # u"
    by (metis append.assoc append_Cons append_self_conv2 append_take_drop_id)
  have "takeWhile (\<lambda>x. x \<noteq> c) (q @ c # t) = q"
    using assms(2) by (subst takeWhile_append2) auto
  moreover have "takeWhile (\<lambda>x. x \<noteq> c) (p @ c # u) = p"
    using assms(1) by (subst takeWhile_append2) auto
  ultimately show ?thesis using u by simp
qed

lemma HasPrefix_separator:
  assumes "c \<notin> set p" and "c \<notin> set q"
  shows "HasPrefix (q @ c # t) (p @ [c]) \<longleftrightarrow> p = q"
  using separator_prefix_unique [OF assms, of t] by (auto simp: HasPrefix_def)

section \<open>String maps\<close>

type_synonym smap = "(string \<times> string) list"

text \<open>Reading a missing key yields the zero value, the empty string.\<close>

definition go_get :: "smap \<Rightarrow> string \<Rightarrow> string" where
  "go_get m k = (case map_of m k of None \<Rightarrow> [] | Some v \<Rightarrow> v)"

abbreviation sput :: "string \<Rightarrow> string \<Rightarrow> smap \<Rightarrow> smap" where
  "sput \<equiv> AList.update"

lemma map_of_sput [simp]: "map_of (sput k v m) = (map_of m)(k \<mapsto> v)"
  by (rule AList.update_conv')

lemma go_get_sput [simp]: "go_get (sput k v m) k' = (if k' = k then v else go_get m k')"
  by (simp add: go_get_def)

text \<open>\<open>maps.Equal\<close>: the same number of keys, and every entry of the first in the second.\<close>

definition maps_Equal :: "smap \<Rightarrow> smap \<Rightarrow> bool" where
  "maps_Equal m n \<longleftrightarrow> length m = length n \<and> list_all (\<lambda>(k, v). map_of n k = Some v) m"

section \<open>Errors\<close>

text \<open>
  The kinds of API error the operator distinguishes (\<open>apierrors.IsNotFound\<close>,
  \<open>apierrors.IsAlreadyExists\<close>, \<open>meta.NoKindMatchError\<close>, \<open>meta.NoResourceMatchError\<close>).
  \<open>Errorf p e\<close> is \<open>fmt.Errorf("<p>: %w", e)\<close>: it keeps \<open>e\<close> reachable for \<open>errors.As\<close>.
\<close>

datatype error_kind = NotFound | AlreadyExists | NoKindMatch | NoResourceMatch | OtherError

datatype go_error = ApiError error_kind string | Errorf string go_error | NewError string

type_synonym 'a result = "go_error + 'a"

fun error_text :: "go_error \<Rightarrow> string" where
  "error_text (ApiError k m) = m"
| "error_text (Errorf p e) = p @ '': '' @ error_text e"
| "error_text (NewError m) = m"

fun error_kind_of :: "go_error \<Rightarrow> error_kind option" where
  "error_kind_of (ApiError k m) = Some k"
| "error_kind_of (Errorf p e) = error_kind_of e"
| "error_kind_of (NewError m) = None"

definition IsNotFound :: "go_error \<Rightarrow> bool" where
  "IsNotFound e \<longleftrightarrow> error_kind_of e = Some NotFound"

definition IsAlreadyExists :: "go_error \<Rightarrow> bool" where
  "IsAlreadyExists e \<longleftrightarrow> error_kind_of e = Some AlreadyExists"

definition IsNoMatchError :: "go_error \<Rightarrow> bool" where
  "IsNoMatchError e \<longleftrightarrow> error_kind_of e = Some NoKindMatch \<or> error_kind_of e = Some NoResourceMatch"

text \<open>\<open>client.IgnoreNotFound\<close>.\<close>

definition IgnoreNotFound :: "go_error \<Rightarrow> go_error option" where
  "IgnoreNotFound e = (if IsNotFound e then None else Some e)"

lemma IgnoreNotFound_None [simp]: "IgnoreNotFound e = None \<longleftrightarrow> IsNotFound e"
  by (simp add: IgnoreNotFound_def)

section \<open>Lists updated by key\<close>

text \<open>
  Several loops of the operator upsert an entry into a slice by a key: the entry replaces the
  first one with its key (possibly keeping parts of it) and is appended when there is none. The
  contract fixes the key, the step \<open>upd\<close> and how an existing entry and the new one combine
  (\<open>comb\<close>), and states the two laws every such loop has to meet.
\<close>

definition find_key :: "('a \<Rightarrow> 'k) \<Rightarrow> 'k \<Rightarrow> 'a list \<Rightarrow> 'a option" where
  "find_key key k xs = List.find (\<lambda>x. key x = k) xs"

lemma find_key_simps [simp]:
  "find_key key k [] = None"
  "find_key key k (x # xs) = (if key x = k then Some x else find_key key k xs)"
  by (simp_all add: find_key_def)

lemma find_key_append:
  "find_key key k (xs @ ys) = (case find_key key k xs of None \<Rightarrow> find_key key k ys | Some x \<Rightarrow> Some x)"
  by (induction xs) auto

lemma find_key_None_iff: "find_key key k xs = None \<longleftrightarrow> k \<notin> key ` set xs"
  by (induction xs) auto

lemma find_key_Some_key: "find_key key k xs = Some x \<Longrightarrow> key x = k \<and> x \<in> set xs"
  by (induction xs) (auto split: if_splits)

lemma find_key_filter:
  "find_key key k (filter P xs) = find_key key k xs" if "\<And>x. key x = k \<Longrightarrow> P x"
  using that by (induction xs) auto

lemma find_key_filter_out: "find_key key k (filter (\<lambda>x. key x \<noteq> k) xs) = None"
  by (auto simp: find_key_None_iff)

locale keyed_update =
  fixes key :: "'a \<Rightarrow> 'k"
    and upd :: "'a \<Rightarrow> 'a list \<Rightarrow> 'a list"
    and comb :: "'a option \<Rightarrow> 'a \<Rightarrow> 'a"
  assumes upd_find: "find_key key k (upd x xs) =
      (if k = key x then Some (comb (find_key key k xs) x) else find_key key k xs)"
    and upd_keys: "map key (upd x xs) = map key xs @ (if key x \<in> key ` set xs then [] else [key x])"
begin

lemma upd_all_find_other:
  "k \<notin> key ` set us \<Longrightarrow> find_key key k (fold upd us xs) = find_key key k xs"
  by (induction us arbitrary: xs) (auto simp: upd_find)

lemma upd_all_keys: "key ` set (fold upd us xs) = key ` set xs \<union> key ` set us"
proof (induction us arbitrary: xs)
  case (Cons u us)
  have "key ` set (upd u xs) = insert (key u) (key ` set xs)"
    using arg_cong [OF upd_keys [of u xs], of set] by auto
  with Cons show ?case by auto
qed simp

lemma upd_distinct: "distinct (map key xs) \<Longrightarrow> distinct (map key (upd x xs))"
  by (simp add: upd_keys)

lemma upd_all_distinct: "distinct (map key xs) \<Longrightarrow> distinct (map key (fold upd us xs))"
  by (induction us arbitrary: xs) (auto simp: upd_distinct)

text \<open>Existing entries keep their positions: the old key sequence stays a prefix.\<close>

lemma upd_all_keeps_order: "\<exists>ys. map key (fold upd us xs) = map key xs @ ys"
proof (induction us arbitrary: xs)
  case (Cons u us)
  from Cons [of "upd u xs"] show ?case by (auto simp: upd_keys)
qed simp

text \<open>The last entry written under a key wins.\<close>

lemma upd_all_last_wins:
  assumes "key u \<notin> key ` set us'"
  shows "find_key key (key u) (fold upd (us @ u # us') xs) =
    Some (comb (find_key key (key u) (fold upd us xs)) u)"
  using upd_all_find_other [OF assms] by (simp add: upd_find)

end

text \<open>When the new entry replaces the old one as a whole, the result is a lookup in the updates first.\<close>

locale keyed_replace = keyed_update key upd "\<lambda>old x. x"
  for key :: "'a \<Rightarrow> 'k" and upd :: "'a \<Rightarrow> 'a list \<Rightarrow> 'a list"
begin

lemma upd_all_lookup: "find_key key k (fold upd us xs) =
    (case find_key key k (rev us) of None \<Rightarrow> find_key key k xs | Some u \<Rightarrow> Some u)"
  by (induction us arbitrary: xs) (auto simp: find_key_append upd_find split: option.splits)

end

text \<open>
  The loop \<open>for j := range xs \{ if key(xs[j]) == key(x) \{ xs[j] = x; break \} \}\<close> that appends
  \<open>x\<close> when it found no match.
\<close>

fun upsert :: "('a \<Rightarrow> 'k) \<Rightarrow> 'a \<Rightarrow> 'a list \<Rightarrow> 'a list" where
  "upsert key x [] = [x]"
| "upsert key x (y # ys) = (if key y = key x then x # ys else y # upsert key x ys)"

lemma find_key_upsert: "find_key key k (upsert key x xs) = (if k = key x then Some x else find_key key k xs)"
  by (induction xs) auto

lemma map_upsert: "map key (upsert key x xs) = map key xs @ (if key x \<in> key ` set xs then [] else [key x])"
  by (induction xs) auto

lemma set_upsert: "set (upsert key x xs) \<subseteq> insert x (set xs)"
  by (induction xs) auto

lemma set_upsert_all: "set (fold (upsert key) us xs) \<subseteq> set us \<union> set xs"
proof (induction us arbitrary: xs)
  case (Cons u us)
  from Cons [of "upsert key u xs"] set_upsert [of key u xs] show ?case by auto
qed simp

end
