(* ===== verification/Kube_Types.thy ===== *)
theory Kube_Types
  imports Prelude
begin

text \<open>
  The Kubernetes data the operator reads and writes, as far as the operator looks into it:
  group/version/kind triples, status conditions, environment variables, containers, volumes, pod
  templates, Deployments, CronJobs and RBAC subjects. Parts of these structs that the operator
  only carries around (resource requirements, tolerations, probes, ...) are kept as \<open>json\<close>
  values. Numbers of the API (\<open>int32\<close> replica counts, \<open>int64\<close> generations) are only copied and
  compared by the operator and are \<^typ>\<open>int\<close>.
\<close>

datatype json = JNull | JBool bool | JInt int | JString string | JArray "json list"
  | JObject "(string \<times> json) list"

section \<open>Group, version, kind\<close>

record gvk =
  Group :: string
  Version :: string
  Kind :: string

definition mk_gvk :: "string \<Rightarrow> string \<Rightarrow> string \<Rightarrow> gvk" where
  "mk_gvk g v k = \<lparr> Group = g, Version = v, Kind = k \<rparr>"

text \<open>\<open>schema.GroupVersionKind.Empty\<close>: all three fields are the zero value.\<close>

definition gvk_Empty :: "gvk \<Rightarrow> bool" where
  "gvk_Empty g \<longleftrightarrow> g = mk_gvk [] [] []"

section \<open>Status conditions\<close>

text \<open>
  \<open>metav1.Condition\<close>. The timestamp \<open>lastTransitionTime\<close> is left out: no code of the operator
  reads or writes it, only \<open>apimeta.SetStatusCondition\<close> does.
\<close>

datatype condition_status = CTrue | CFalse | CUnknown

record condition =
  ctype :: string
  cstatus :: condition_status
  creason :: string
  cmessage :: string
  observedGeneration :: int

definition show_status :: "condition_status \<Rightarrow> string" where
  "show_status s = (case s of CTrue \<Rightarrow> ''True'' | CFalse \<Rightarrow> ''False'' | CUnknown \<Rightarrow> ''Unknown'')"

section \<open>Containers, pods and workloads\<close>

record env_var =
  ev_name :: string
  ev_value :: string
  ev_valueFrom :: "json option"

definition EnvVar :: "string \<Rightarrow> string \<Rightarrow> env_var" where
  "EnvVar n v = \<lparr> ev_name = n, ev_value = v, ev_valueFrom = None \<rparr>"

record security_context =
  runAsUser :: "int option"
  sc_rest :: json

record container =
  c_name :: string
  c_image :: string
  c_args :: "string list"
  c_env :: "env_var list"
  c_resources :: json
  c_volumeMounts :: "json list"
  c_securityContext :: "security_context option"
  c_rest :: json

definition Container :: container where
  "Container = \<lparr> c_name = [], c_image = [], c_args = [], c_env = [], c_resources = JNull,
     c_volumeMounts = [], c_securityContext = None, c_rest = JNull \<rparr>"

text \<open>A volume names at most one source; the operator looks at config maps and secrets.\<close>

record volume_source =
  vs_name :: string
  vs_rest :: json

record volume =
  vol_name :: string
  vol_configMap :: "volume_source option"
  vol_secret :: "volume_source option"
  vol_rest :: json

record pod_spec =
  ps_containers :: "container list"
  ps_initContainers :: "container list"
  ps_volumes :: "volume list"
  ps_tolerations :: "json list"
  ps_nodeSelector :: smap
  ps_affinity :: "json option"
  ps_serviceAccountName :: string
  ps_securityContext :: "json option"
  ps_priorityClassName :: string
  ps_topologySpreadConstraints :: "json list"
  ps_rest :: json

definition PodSpec :: pod_spec where
  "PodSpec = \<lparr> ps_containers = [], ps_initContainers = [], ps_volumes = [], ps_tolerations = [],
     ps_nodeSelector = [], ps_affinity = None, ps_serviceAccountName = [], ps_securityContext = None,
     ps_priorityClassName = [], ps_topologySpreadConstraints = [], ps_rest = JNull \<rparr>"

record pod_template =
  pt_labels :: smap
  pt_annotations :: smap
  pt_spec :: pod_spec

datatype deployment_condition_type = DeploymentProgressing | DeploymentReplicaFailure
  | OtherDeploymentCondition string

record deployment_condition =
  dc_type :: deployment_condition_type
  dc_status :: condition_status
  dc_reason :: string
  dc_message :: string

record deployment =
  dep_replicas :: "int option"
  dep_template :: pod_template
  dep_spec_rest :: json
  statusReplicas :: int
  readyReplicas :: int
  updatedReplicas :: int
  availableReplicas :: int
  unavailableReplicas :: int
  dep_conditions :: "deployment_condition list"

record cron_job =
  cj_schedule :: string
  cj_template :: pod_template
  cj_rest :: json

section \<open>RBAC, secrets and services\<close>

record subject =
  sub_kind :: string
  sub_name :: string
  sub_namespace :: string

record role_ref =
  rr_apiGroup :: string
  rr_kind :: string
  rr_name :: string

record service_port =
  sp_name :: string
  sp_nodePort :: int
  sp_rest :: json

record secret_key_selector =
  sks_name :: string
  sks_key :: string
  sks_optional :: "bool option"

end
