(* ===== verification/Api_Types.thy ===== *)
theory Api_Types
  imports Kube_Types
begin

text \<open>
  The custom resources of the operator (\<open>api/v1alpha1\<close>) and the Dex parameters they embed
  (\<open>pkg/dex\<close>): one record per spec struct, a pointer field as an \<^typ>\<open>'a option\<close>, and the accessors that
  resolve defaults. An embedded struct is a field holding the embedded record.
\<close>

section \<open>Common parts\<close>

record container_spec =
  cs_resources :: "json option"
  cs_env :: "env_var list"

text \<open>\<open>LogLevel\<close> and \<open>LogEncoder\<close> are string types with enumerated values; empty means unset.\<close>

type_synonym log_level = string

abbreviation LogLevelDebug :: log_level where "LogLevelDebug \<equiv> ''debug''"
abbreviation LogLevelInfo :: log_level where "LogLevelInfo \<equiv> ''info''"
abbreviation LogLevelWarn :: log_level where "LogLevelWarn \<equiv> ''warn''"
abbreviation LogLevelError :: log_level where "LogLevelError \<equiv> ''error''"

type_synonym log_encoder = string

abbreviation LogEncoderJSON :: log_encoder where "LogEncoderJSON \<equiv> ''json''"
abbreviation LogEncoderConsole :: log_encoder where "LogEncoderConsole \<equiv> ''console''"

definition ZapEncoderArg :: string where
  "ZapEncoderArg = ''--zap-encoder''"

record controller_manager_spec =
  cm_replicas :: int
  cm_manager :: "container_spec option"

record component_metrics_config =
  cmc_enabled :: "bool option"

definition IsEnabled :: "component_metrics_config option \<Rightarrow> bool" where
  "IsEnabled c = (case c of None \<Rightarrow> True
     | Some m \<Rightarrow> (case cmc_enabled m of None \<Rightarrow> True | Some b \<Rightarrow> b))"

section \<open>Build service\<close>

record pipeline_spec =
  pl_name :: string
  pl_bundle :: string
  pl_description :: string
  pl_removed :: bool

record pipeline_config_spec =
  removeDefaults :: bool
  pcs_defaultPipelineName :: string
  pcs_pipelines :: "pipeline_spec list"

definition PipelineConfigSpec :: pipeline_config_spec where
  "PipelineConfigSpec = \<lparr> removeDefaults = False, pcs_defaultPipelineName = [], pcs_pipelines = [] \<rparr>"

record pipeline_entry_data =
  pe_name :: string
  pe_bundle :: string
  pe_description :: string

record pipeline_config_data =
  pcd_defaultPipelineName :: string
  pcd_pipelines :: "pipeline_entry_data list"

record build_service_config_spec =
  buildControllerManager :: "controller_manager_spec option"
  pacWebhookInsecureSSL :: "bool option"
  bs_logEncoder :: log_encoder
  webhookURLs :: smap
  pipelineConfig :: "pipeline_config_spec option"

definition BuildServiceConfigSpec :: build_service_config_spec where
  "BuildServiceConfigSpec = \<lparr> buildControllerManager = None, pacWebhookInsecureSSL = None,
     bs_logEncoder = [], webhookURLs = [], pipelineConfig = None \<rparr>"

record build_service_spec =
  bs_config :: build_service_config_spec
  bs_componentMetrics :: "component_metrics_config option"

section \<open>Integration, release and image controller\<close>

record integration_service_config_spec =
  integrationControllerManager :: "controller_manager_spec option"
  pipelineTimeout :: string
  tasksTimeout :: string
  finallyTimeout :: string
  snapshotGarbageCollector :: "container_spec option"
  prSnapshotsToKeep :: string
  nonPRSnapshotsToKeep :: string
  minSnapshotsToKeepPerComponent :: string

definition IntegrationServiceConfigSpec :: integration_service_config_spec where
  "IntegrationServiceConfigSpec = \<lparr> integrationControllerManager = None, pipelineTimeout = [],
     tasksTimeout = [], finallyTimeout = [], snapshotGarbageCollector = None, prSnapshotsToKeep = [],
     nonPRSnapshotsToKeep = [], minSnapshotsToKeepPerComponent = [] \<rparr>"

record integration_service_spec =
  is_config :: integration_service_config_spec
  is_componentMetrics :: "component_metrics_config option"

record empty_dir_override =
  edo_url :: string
  edo_revision :: string
  edo_pathInRepo :: string

record release_service_config_spec =
  rs_debug :: bool
  emptyDirOverrides :: "empty_dir_override list"
  releaseControllerManager :: "controller_manager_spec option"

definition ReleaseServiceConfigSpec :: release_service_config_spec where
  "ReleaseServiceConfigSpec = \<lparr> rs_debug = False, emptyDirOverrides = [],
     releaseControllerManager = None \<rparr>"

record release_service_spec =
  rs_config :: release_service_config_spec
  rs_componentMetrics :: "component_metrics_config option"

record quay_ca_bundle_spec =
  qcb_configMapName :: string
  qcb_key :: string

record image_controller_config_spec =
  imageControllerManager :: "controller_manager_spec option"
  ic_logEncoder :: log_encoder
  imagePruner :: "container_spec option"
  notificationResetter :: "container_spec option"
  quayCABundle :: "quay_ca_bundle_spec option"

definition ImageControllerConfigSpec :: image_controller_config_spec where
  "ImageControllerConfigSpec = \<lparr> imageControllerManager = None, ic_logEncoder = [],
     imagePruner = None, notificationResetter = None, quayCABundle = None \<rparr>"

record image_controller_spec =
  ic_config :: image_controller_config_spec
  ic_componentMetrics :: "component_metrics_config option"

section \<open>Namespace lister, enterprise contract, cert-manager, segment bridge\<close>

record namespace_lister_deployment_spec =
  nld_replicas :: int
  nld_namespaceLister :: "container_spec option"

record namespace_lister_spec =
  nl_namespaceLister :: "namespace_lister_deployment_spec option"
  cacheResyncPeriod :: string
  nl_logLevel :: log_level

definition NamespaceListerSpec :: namespace_lister_spec where
  "NamespaceListerSpec = \<lparr> nl_namespaceLister = None, cacheResyncPeriod = [], nl_logLevel = [] \<rparr>"

record enterprise_contract_spec =
  ec_skipPolicies :: bool

record cert_manager_spec =
  createClusterIssuer :: "bool option"

definition ShouldCreateClusterIssuer :: "cert_manager_spec \<Rightarrow> bool" where
  "ShouldCreateClusterIssuer s = (case createClusterIssuer s of None \<Rightarrow> True | Some b \<Rightarrow> b)"

record segment_bridge_spec =
  segmentKey :: string
  segmentKeySecretRef :: "secret_key_selector option"
  segmentAPIURL :: string
  tektonLimit :: "int option"
  sb_cronJob :: "container_spec option"

definition SegmentBridgeSpec :: segment_bridge_spec where
  "SegmentBridgeSpec = \<lparr> segmentKey = [], segmentKeySecretRef = None, segmentAPIURL = [],
     tektonLimit = None, sb_cronJob = None \<rparr>"

definition DefaultSegmentAPIURL :: string where
  "DefaultSegmentAPIURL = ''https://api.segment.io/v1''"

definition DefaultTektonLimit :: int where
  "DefaultTektonLimit = 1000"

definition GetSegmentKey :: "segment_bridge_spec option \<Rightarrow> string" where
  "GetSegmentKey s = (case s of None \<Rightarrow> [] | Some sp \<Rightarrow> segmentKey sp)"

definition GetSegmentKeySecretRef :: "segment_bridge_spec option \<Rightarrow> secret_key_selector option" where
  "GetSegmentKeySecretRef s = (case s of None \<Rightarrow> None | Some sp \<Rightarrow> segmentKeySecretRef sp)"

definition GetTektonLimit :: "segment_bridge_spec option \<Rightarrow> int" where
  "GetTektonLimit s = (case s of None \<Rightarrow> DefaultTektonLimit
     | Some sp \<Rightarrow> (case tektonLimit sp of None \<Rightarrow> DefaultTektonLimit | Some n \<Rightarrow> n))"

section \<open>User interface and Dex\<close>

record dex_connector_config =
  clientID :: string
  clientSecret :: string
  redirectURI :: string
  dcc_issuer :: string
  rootCA :: string
  dcc_rest :: json

record dex_connector =
  dcon_type :: string
  dcon_id :: string
  dcon_name :: string
  dcon_config :: "dex_connector_config option"

record dex_params =
  dex_hostname :: string
  dex_port :: string
  dex_connectors :: "dex_connector list"
  dex_enablePasswordDB :: "bool option"
  dex_staticPasswords :: "json list"
  dex_passwordConnector :: string
  configureLoginWithOpenShift :: "bool option"

record ingress_spec =
  ing_enabled :: "bool option"
  ingressClassName :: "string option"
  ing_fqdn :: string
  ing_hostname :: string
  ing_annotations :: smap
  tlsSecretName :: string
  nodePortService :: "int option option"

definition IngressSpec :: ingress_spec where
  "IngressSpec = \<lparr> ing_enabled = None, ingressClassName = None, ing_fqdn = [], ing_hostname = [],
     ing_annotations = [], tlsSecretName = [], nodePortService = None \<rparr>"

record endpoint_spec =
  ep_enabled :: bool
  ep_hostname :: string

record watson_endpoint_spec =
  we_enabled :: bool
  we_hostname :: string
  we_secretName :: string

record proxy_endpoints_spec =
  kite :: "endpoint_spec option"
  kubearchive :: "endpoint_spec option"
  watson :: "watson_endpoint_spec option"

record proxy_deployment_spec =
  px_replicas :: int
  reverseProxy :: "container_spec option"
  oauth2Proxy :: "container_spec option"
  px_endpoints :: "proxy_endpoints_spec option"

record dex_deployment_spec =
  dd_replicas :: int
  dd_dex :: "container_spec option"
  dd_config :: "dex_params option"

record monitoring_config =
  mon_enabled :: "bool option"
  mon_dsn :: string
  mon_environment :: string
  mon_cluster :: string
  mon_sampleRateErrors :: string

record runtime_config_spec =
  chatBot :: "bool option option"
  monitoring :: "monitoring_config option"

definition FormatBool :: "bool \<Rightarrow> string" where
  "FormatBool b = (if b then ''true'' else ''false'')"

text \<open>
  The iterators \<open>All\<close> yield key/value pairs in a fixed order, skipping unset fields; the
  iteration runs to its end because every caller consumes all pairs.
\<close>

definition yield_string :: "string \<Rightarrow> string \<Rightarrow> (string \<times> string) list" where
  "yield_string k v = (if v = [] then [] else [(k, v)])"

definition yield_option :: "string \<Rightarrow> string option \<Rightarrow> (string \<times> string) list" where
  "yield_option k v = (case v of None \<Rightarrow> [] | Some x \<Rightarrow> [(k, x)])"

definition RuntimeConfig_All :: "runtime_config_spec \<Rightarrow> (string \<times> string) list" where
  "RuntimeConfig_All r =
     (case chatBot r of None \<Rightarrow> []
      | Some e \<Rightarrow> yield_option ''RUNTIME_CHAT_BOT_ENABLED'' (map_option FormatBool e)) @
     (case monitoring r of None \<Rightarrow> []
      | Some m \<Rightarrow> yield_option ''RUNTIME_MONITORING_ENABLED'' (map_option FormatBool (mon_enabled m)) @
          yield_string ''RUNTIME_MONITORING_DSN'' (mon_dsn m) @
          yield_string ''RUNTIME_MONITORING_ENVIRONMENT'' (mon_environment m) @
          yield_string ''RUNTIME_MONITORING_CLUSTER'' (mon_cluster m) @
          yield_string ''RUNTIME_MONITORING_SAMPLE_RATE_ERRORS'' (mon_sampleRateErrors m))"

record ui_config_spec =
  ui_ingress :: "ingress_spec option"
  ui_proxy :: "proxy_deployment_spec option"
  ui_dex :: "dex_deployment_spec option"
  runtimeConfig :: "runtime_config_spec option"

definition UIConfigSpec :: ui_config_spec where
  "UIConfigSpec = \<lparr> ui_ingress = None, ui_proxy = None, ui_dex = None, runtimeConfig = None \<rparr>"

record ui_spec =
  ui_config :: ui_config_spec
  ui_componentMetrics :: "component_metrics_config option"

record ingress_status =
  ist_enabled :: bool
  ist_hostname :: string
  ist_url :: string

definition GetIngress :: "ui_config_spec \<Rightarrow> ingress_spec" where
  "GetIngress s = (case ui_ingress s of None \<Rightarrow> IngressSpec | Some i \<Rightarrow> i)"

definition GetNodePortService :: "ui_config_spec \<Rightarrow> int option option" where
  "GetNodePortService s = (case ui_ingress s of None \<Rightarrow> None | Some i \<Rightarrow> nodePortService i)"

definition GetProxy :: "ui_config_spec \<Rightarrow> proxy_deployment_spec" where
  "GetProxy s = (case ui_proxy s of
     None \<Rightarrow> \<lparr> px_replicas = 1, reverseProxy = None, oauth2Proxy = None, px_endpoints = None \<rparr>
   | Some p \<Rightarrow> p)"

definition GetDex :: "ui_config_spec \<Rightarrow> dex_deployment_spec" where
  "GetDex s = (case ui_dex s of
     None \<Rightarrow> \<lparr> dd_replicas = 1, dd_dex = None, dd_config = None \<rparr>
   | Some d \<Rightarrow> d)"

definition GetIngressEnabledPreference :: "ui_config_spec \<Rightarrow> bool option" where
  "GetIngressEnabledPreference s = ing_enabled (GetIngress s)"

definition HasDexConfig :: "ui_config_spec \<Rightarrow> bool" where
  "HasDexConfig s \<longleftrightarrow> dd_config (GetDex s) \<noteq> None"

definition GetOpenShiftLoginPreference :: "ui_config_spec \<Rightarrow> bool option" where
  "GetOpenShiftLoginPreference s =
     (case dd_config (GetDex s) of None \<Rightarrow> None | Some c \<Rightarrow> configureLoginWithOpenShift c)"

text \<open>A \<open>url.URL\<close> with the fields the operator sets: scheme and host.\<close>

record url =
  Scheme :: string
  Host :: string

definition ResolveDexEndpoint :: "ui_config_spec \<Rightarrow> url \<Rightarrow> url" where
  "ResolveDexEndpoint s defaultEndpoint =
     (case dd_config (GetDex s) of None \<Rightarrow> defaultEndpoint
      | Some c \<Rightarrow> (if dex_hostname c = [] then defaultEndpoint
          else \<lparr> Scheme = ''https'',
                 Host = (if dex_port c = [] then dex_hostname c
                         else dex_hostname c @ '':'' @ dex_port c) \<rparr>))"

section \<open>Cluster configuration\<close>

record cluster_config_data =
  defaultOIDCIssuer :: string
  enableKeylessSigning :: "bool option"
  fulcioInternalUrl :: string
  fulcioExternalUrl :: string
  rekorInternalUrl :: string
  rekorExternalUrl :: string
  tufInternalUrl :: string
  tufExternalUrl :: string
  trustifyServerInternalUrl :: string
  trustifyServerExternalUrl :: string
  buildIdentityRegexp :: string
  trustifyOIDCIssuerUrl :: string
  tektonChainsIdentity :: string
  allowCacheProxy :: "bool option"
  httpProxy :: string
  noProxy :: "string option"
  allowPackageRegistryProxy :: "bool option"
  packageRegistryProxyNpmURL :: string
  packageRegistryProxyYarnURL :: string
  packageRegistryProxyGomodURL :: string
  packageRegistryProxyPipURL :: string
  packageRegistryProxyPnpmURL :: string

text \<open>The keys of the proxy entries in the cluster-config ConfigMap.\<close>

abbreviation ClusterConfigKeyAllowCacheProxy :: string where
  "ClusterConfigKeyAllowCacheProxy \<equiv> ''allow-cache-proxy''"

abbreviation ClusterConfigKeyHTTPProxy :: string where
  "ClusterConfigKeyHTTPProxy \<equiv> ''http-proxy''"

abbreviation ClusterConfigKeyNoProxy :: string where
  "ClusterConfigKeyNoProxy \<equiv> ''no-proxy''"

abbreviation ClusterConfigKeyAllowPackageRegistryProxy :: string where
  "ClusterConfigKeyAllowPackageRegistryProxy \<equiv> ''allow-package-registry-proxy''"

abbreviation ClusterConfigKeyPackageRegistryProxyNpmURL :: string where
  "ClusterConfigKeyPackageRegistryProxyNpmURL \<equiv> ''package-registry-proxy-npm-url''"

abbreviation ClusterConfigKeyPackageRegistryProxyYarnURL :: string where
  "ClusterConfigKeyPackageRegistryProxyYarnURL \<equiv> ''package-registry-proxy-yarn-url''"

abbreviation ClusterConfigKeyPackageRegistryProxyGomodURL :: string where
  "ClusterConfigKeyPackageRegistryProxyGomodURL \<equiv> ''package-registry-proxy-gomod-url''"

abbreviation ClusterConfigKeyPackageRegistryProxyPipURL :: string where
  "ClusterConfigKeyPackageRegistryProxyPipURL \<equiv> ''package-registry-proxy-pip-url''"

abbreviation ClusterConfigKeyPackageRegistryProxyPnpmURL :: string where
  "ClusterConfigKeyPackageRegistryProxyPnpmURL \<equiv> ''package-registry-proxy-pnpm-url''"

definition ClusterConfigData :: cluster_config_data where
  "ClusterConfigData = \<lparr> defaultOIDCIssuer = [],
     enableKeylessSigning = None,
     fulcioInternalUrl = [],
     fulcioExternalUrl = [],
     rekorInternalUrl = [],
     rekorExternalUrl = [],
     tufInternalUrl = [],
     tufExternalUrl = [],
     trustifyServerInternalUrl = [],
     trustifyServerExternalUrl = [],
     buildIdentityRegexp = [],
     trustifyOIDCIssuerUrl = [],
     tektonChainsIdentity = [],
     allowCacheProxy = None,
     httpProxy = [],
     noProxy = None,
     allowPackageRegistryProxy = None,
     packageRegistryProxyNpmURL = [],
     packageRegistryProxyYarnURL = [],
     packageRegistryProxyGomodURL = [],
     packageRegistryProxyPipURL = [],
     packageRegistryProxyPnpmURL = [] \<rparr>"

definition ClusterConfig_All :: "cluster_config_data \<Rightarrow> (string \<times> string) list" where
  "ClusterConfig_All d =
     yield_string ''defaultOIDCIssuer'' (defaultOIDCIssuer d) @
     yield_option ''enableKeylessSigning'' (map_option FormatBool (enableKeylessSigning d)) @
     yield_string ''fulcioInternalUrl'' (fulcioInternalUrl d) @
     yield_string ''fulcioExternalUrl'' (fulcioExternalUrl d) @
     yield_string ''rekorInternalUrl'' (rekorInternalUrl d) @
     yield_string ''rekorExternalUrl'' (rekorExternalUrl d) @
     yield_string ''tufInternalUrl'' (tufInternalUrl d) @
     yield_string ''tufExternalUrl'' (tufExternalUrl d) @
     yield_string ''trustifyServerInternalUrl'' (trustifyServerInternalUrl d) @
     yield_string ''trustifyServerExternalUrl'' (trustifyServerExternalUrl d) @
     yield_string ''buildIdentityRegexp'' (buildIdentityRegexp d) @
     yield_string ''trustifyOIDCIssuerUrl'' (trustifyOIDCIssuerUrl d) @
     yield_string ''tektonChainsIdentity'' (tektonChainsIdentity d) @
     yield_option ClusterConfigKeyAllowCacheProxy (map_option FormatBool (allowCacheProxy d)) @
     yield_string ClusterConfigKeyHTTPProxy (httpProxy d) @
     yield_option ClusterConfigKeyNoProxy (noProxy d) @
     yield_option ClusterConfigKeyAllowPackageRegistryProxy (map_option FormatBool (allowPackageRegistryProxy d)) @
     yield_string ClusterConfigKeyPackageRegistryProxyNpmURL (packageRegistryProxyNpmURL d) @
     yield_string ClusterConfigKeyPackageRegistryProxyYarnURL (packageRegistryProxyYarnURL d) @
     yield_string ClusterConfigKeyPackageRegistryProxyGomodURL (packageRegistryProxyGomodURL d) @
     yield_string ClusterConfigKeyPackageRegistryProxyPipURL (packageRegistryProxyPipURL d) @
     yield_string ClusterConfigKeyPackageRegistryProxyPnpmURL (packageRegistryProxyPnpmURL d)"

text \<open>\<open>maps.Collect\<close> and \<open>maps.Copy\<close>: later pairs overwrite earlier ones.\<close>

definition maps_Copy :: "smap \<Rightarrow> (string \<times> string) list \<Rightarrow> smap" where
  "maps_Copy dst src = fold (\<lambda>(k, v). sput k v) src dst"

definition maps_Collect :: "(string \<times> string) list \<Rightarrow> smap" where
  "maps_Collect src = maps_Copy [] src"

definition MergeOver :: "cluster_config_data \<Rightarrow> cluster_config_data \<Rightarrow> smap" where
  "MergeOver d base =
     (let baseMap = maps_Collect (ClusterConfig_All base);
          overrideMap = maps_Collect (ClusterConfig_All d)
      in maps_Copy (maps_Copy [] baseMap) overrideMap)"

record rbac_role =
  rb_name :: string
  rb_description :: string
  rb_displayName :: string

text \<open>The integrations of the public information and the banner items are only serialised by the operator and kept as \<open>json\<close>.\<close>

record public_info =
  pi_environment :: string
  pi_visibility :: string
  pi_integrations :: "json option"
  pi_statusPageUrl :: string
  pi_rbac :: "rbac_role list"

record info_spec =
  publicInfo :: "public_info option"
  banner :: "json list option option"
  clusterConfig :: "cluster_config_data option option"

definition InfoSpec :: info_spec where
  "InfoSpec = \<lparr> publicInfo = None, banner = None, clusterConfig = None \<rparr>"

definition GetClusterConfigData :: "info_spec \<Rightarrow> cluster_config_data" where
  "GetClusterConfigData s = (case clusterConfig s of None \<Rightarrow> ClusterConfigData
     | Some c \<Rightarrow> (case c of None \<Rightarrow> ClusterConfigData | Some d \<Rightarrow> d))"

section \<open>The Konflux resource\<close>

record image_controller_config =
  icc_enabled :: "bool option"
  icc_spec :: "image_controller_config_spec option"

record telemetry_config =
  tel_enabled :: "bool option"
  tel_spec :: "segment_bridge_spec option"

text \<open>
  The wrappers \<open>KonfluxUIConfig\<close>, \<open>IntegrationServiceConfig\<close>, ... have the optional spec as
  their only field and are written as that field; likewise the wrappers of a single
  \<open>enabled\<close> flag.
\<close>

record konflux_spec =
  imageController :: "image_controller_config option"
  konfluxUI :: "ui_config_spec option option"
  konfluxIntegrationService :: "integration_service_config_spec option option"
  konfluxReleaseService :: "release_service_config_spec option option"
  konfluxBuildService :: "build_service_config_spec option option"
  namespaceLister :: "namespace_lister_spec option option"
  konfluxInfo :: "info_spec option option"
  enterpriseContract :: "bool option"
  certManager :: "bool option option"
  internalRegistry :: "bool option option"
  defaultTenant :: "bool option option"
  telemetry :: "telemetry_config option"
  componentMetrics :: "component_metrics_config option"

definition KonfluxSpec :: konflux_spec where
  "KonfluxSpec = \<lparr> imageController = None, konfluxUI = None, konfluxIntegrationService = None,
     konfluxReleaseService = None, konfluxBuildService = None, namespaceLister = None,
     konfluxInfo = None, enterpriseContract = None, certManager = None, internalRegistry = None,
     defaultTenant = None, telemetry = None, componentMetrics = None \<rparr>"

definition IsImageControllerEnabled :: "konflux_spec \<Rightarrow> bool" where
  "IsImageControllerEnabled k = (case imageController k of None \<Rightarrow> False
     | Some c \<Rightarrow> (case icc_enabled c of None \<Rightarrow> False | Some b \<Rightarrow> b))"

definition IsInternalRegistryEnabled :: "konflux_spec \<Rightarrow> bool" where
  "IsInternalRegistryEnabled k = (case internalRegistry k of None \<Rightarrow> False
     | Some c \<Rightarrow> (case c of None \<Rightarrow> False | Some b \<Rightarrow> b))"

definition IsDefaultTenantEnabled :: "konflux_spec \<Rightarrow> bool" where
  "IsDefaultTenantEnabled k = (case defaultTenant k of None \<Rightarrow> True
     | Some c \<Rightarrow> (case c of None \<Rightarrow> True | Some b \<Rightarrow> b))"

definition IsTelemetryEnabled :: "konflux_spec \<Rightarrow> bool" where
  "IsTelemetryEnabled k = (case telemetry k of None \<Rightarrow> False
     | Some t \<Rightarrow> (case tel_enabled t of None \<Rightarrow> False | Some b \<Rightarrow> b))"

definition IsComponentMetricsEnabled :: "konflux_spec \<Rightarrow> bool" where
  "IsComponentMetricsEnabled k = IsEnabled (componentMetrics k)"

text \<open>The specs of the component resources the Konflux controller applies.\<close>

datatype cr_spec =
    ApplicationAPISpec | RBACSpec | CLISpec | DefaultTenantSpec | InternalRegistrySpec
  | BuildServiceSpec build_service_spec
  | IntegrationServiceSpec integration_service_spec
  | ReleaseServiceSpec release_service_spec
  | ImageControllerSpec image_controller_spec
  | UISpec ui_spec "ingress_status option"
  | KonfluxInfoSpec info_spec
  | KonfluxNamespaceListerSpec namespace_lister_spec
  | EnterpriseContractSpec enterprise_contract_spec
  | CertManagerSpec cert_manager_spec
  | KonfluxSegmentBridgeSpec segment_bridge_spec

section \<open>Cluster configuration: a set field overrides, an unset one does not\<close>

lemma maps_Copy_lookup: "map_of (maps_Copy dst src) k =
    (case map_of (rev src) k of None \<Rightarrow> map_of dst k | Some v \<Rightarrow> Some v)"
  unfolding maps_Copy_def
  by (induction src arbitrary: dst) (auto simp: map_add_def split: option.splits)

lemma distinct_maps_Copy: "distinct (map fst dst) \<Longrightarrow> distinct (map fst (maps_Copy dst src))"
  unfolding maps_Copy_def
  by (induction src arbitrary: dst) (auto simp: distinct_update)

lemma map_of_rev_distinct: "distinct (map fst xs) \<Longrightarrow> map_of (rev xs) = map_of xs"
  by (rule map_of_inject_set [THEN iffD2]) (auto simp: rev_map [symmetric])

lemma map_of_maps_Collect: "map_of (maps_Collect src) = map_of (rev src)"
  by (rule ext) (simp add: maps_Collect_def maps_Copy_lookup split: option.splits)

lemma MergeOver_lookup: "map_of (MergeOver d base) k =
    (case map_of (rev (ClusterConfig_All d)) k of
       None \<Rightarrow> map_of (rev (ClusterConfig_All base)) k | Some v \<Rightarrow> Some v)"
proof -
  have collect: "map_of (rev (maps_Collect xs)) = map_of (rev xs)" for xs
    using map_of_rev_distinct [OF distinct_maps_Copy [of "[]" xs]]
    by (simp add: maps_Collect_def [symmetric] map_of_maps_Collect)
  show ?thesis
    by (simp add: MergeOver_def Let_def maps_Copy_lookup collect split: option.splits)
qed

end
