(* ===== verification/Kube_Objects.thy ===== *)
theory Kube_Objects
  imports Api_Types
begin

text \<open>
  Objects of the API server and the client the operator talks through.

  A \<open>client.Object\<close> is a \<open>kobj\<close>: its metadata, its status conditions and a \<open>body\<close> that
  stands for its dynamic Go type, so that a type switch is a case distinction on \<open>body\<close>.

  The API client and the apimachinery helpers are code outside the repository. They are the
  parameters \<open>'s api\<close> and \<open>machinery\<close> of the development: every API call takes and returns the
  cluster state \<open>'s\<close>, and may therefore answer anything and change anything, including what other
  writers did in between. What the operator relies on is stated as predicates
  (\<open>condition_laws\<close>, \<open>apply_keeps_identity\<close>, \<open>list_by_label\<close>). The calls the operator makes are
  recorded, with their answers, in the ghost field \<open>events\<close> of the \<open>world\<close>.
\<close>

section \<open>Objects\<close>

datatype body =
    BDeployment deployment
  | BCronJob cron_job
  | BConfigMap smap
  | BSecret string smap
  | BSecretStringData smap
  | BService string "service_port list" json
  | BServiceAccount
  | BClusterRole json
  | BClusterRoleBinding role_ref "subject list"
  | BNamespace
  | BCustomResourceDefinition json
  | BUnstructured json
  | BKonflux konflux_spec string
  | BKonfluxCR cr_spec
  | BOther string json

record kobj =
  o_gvk :: gvk
  o_namespace :: string
  o_name :: string
  o_uid :: string
  o_generation :: int
  o_resourceVersion :: string
  o_labels :: smap
  o_annotations :: smap
  o_ownerRefs :: "json list"
  o_conditions :: "condition list"
  o_body :: body

definition new_object :: "gvk \<Rightarrow> string \<Rightarrow> string \<Rightarrow> body \<Rightarrow> kobj" where
  "new_object g ns n b = \<lparr> o_gvk = g, o_namespace = ns, o_name = n, o_uid = [], o_generation = 0,
     o_resourceVersion = [], o_labels = [], o_annotations = [], o_ownerRefs = [], o_conditions = [],
     o_body = b \<rparr>"

text \<open>
  \<open>GetConditions\<close> and \<open>SetConditions\<close> of every custom resource (\<open>ConditionAccessor\<close>) read and
  write \<open>Status.Conditions\<close>.
\<close>

definition GetConditions :: "kobj \<Rightarrow> condition list" where
  "GetConditions obj = o_conditions obj"

definition SetConditions :: "kobj \<Rightarrow> condition list \<Rightarrow> kobj" where
  "SetConditions obj cs = obj\<lparr> o_conditions := cs \<rparr>"

lemma GetConditions_SetConditions [simp]: "GetConditions (SetConditions obj cs) = cs"
  by (simp add: GetConditions_def SetConditions_def)

lemma SetConditions_SetConditions [simp]:
  "SetConditions (SetConditions obj cs) cs' = SetConditions obj cs'"
  by (simp add: SetConditions_def)

lemma SetConditions_other [simp]:
  "o_generation (SetConditions obj cs) = o_generation obj"
  "o_name (SetConditions obj cs) = o_name obj"
  "o_namespace (SetConditions obj cs) = o_namespace obj"
  "o_gvk (SetConditions obj cs) = o_gvk obj"
  "o_uid (SetConditions obj cs) = o_uid obj"
  "o_body (SetConditions obj cs) = o_body obj"
  by (simp_all add: SetConditions_def)

definition konflux_spec_of :: "kobj \<Rightarrow> konflux_spec" where
  "konflux_spec_of obj = (case o_body obj of BKonflux s u \<Rightarrow> s | _ \<Rightarrow> KonfluxSpec)"

definition konflux_uiURL_of :: "kobj \<Rightarrow> string" where
  "konflux_uiURL_of obj = (case o_body obj of BKonflux s u \<Rightarrow> u | _ \<Rightarrow> [])"

section \<open>apimachinery\<close>

record machinery =
  SetStatusCondition :: "condition list \<Rightarrow> condition \<Rightarrow> condition list"
  FindStatusCondition :: "condition list \<Rightarrow> string \<Rightarrow> condition option"
  gvk_String :: "gvk \<Rightarrow> string"
  IsControlledBy :: "kobj \<Rightarrow> kobj \<Rightarrow> bool"
  SetControllerReference :: "kobj \<Rightarrow> kobj \<Rightarrow> kobj result"
  ObjectKinds :: "kobj \<Rightarrow> gvk list result"

text \<open>
  The documented behaviour of \<open>meta.SetStatusCondition\<close> and \<open>meta.FindStatusCondition\<close>: the
  condition of the given type takes the new fields, or is appended when there is none; all other
  conditions keep their place and content; the lookup returns the first condition of the type.
\<close>

definition condition_laws :: "machinery \<Rightarrow> bool" where
  "condition_laws M \<longleftrightarrow>
     (\<forall>cs t. FindStatusCondition M cs t = find_key ctype t cs) \<and>
     (\<forall>cs c t. find_key ctype t (SetStatusCondition M cs c) =
        (if t = ctype c then Some c else find_key ctype t cs)) \<and>
     (\<forall>cs c. map ctype (SetStatusCondition M cs c) =
        map ctype cs @ (if ctype c \<in> ctype ` set cs then [] else [ctype c]))"

text \<open>
  A reference implementation with this behaviour, used to show that the laws can hold.
\<close>

fun set_condition_ref :: "condition list \<Rightarrow> condition \<Rightarrow> condition list" where
  "set_condition_ref [] c = [c]"
| "set_condition_ref (d # ds) c = (if ctype d = ctype c then c # ds else d # set_condition_ref ds c)"

lemma find_set_condition_ref: "find_key ctype t (set_condition_ref cs c) =
    (if t = ctype c then Some c else find_key ctype t cs)"
  by (induction cs) auto

lemma map_set_condition_ref: "map ctype (set_condition_ref cs c) =
    map ctype cs @ (if ctype c \<in> ctype ` set cs then [] else [ctype c])"
  by (induction cs) auto

section \<open>The API client\<close>

datatype patch = SSAPatch | MergeFrom kobj

record patch_options =
  FieldOwner :: string
  ForceOwnership :: bool

record 's api =
  api_get :: "gvk \<Rightarrow> string \<Rightarrow> string \<Rightarrow> 's \<Rightarrow> kobj result \<times> 's"
  api_list :: "bool \<Rightarrow> gvk \<Rightarrow> smap \<Rightarrow> 's \<Rightarrow> kobj list result \<times> 's"
  api_list_in :: "string \<Rightarrow> gvk \<Rightarrow> smap \<Rightarrow> 's \<Rightarrow> kobj list result \<times> 's"
  api_patch :: "patch \<Rightarrow> patch_options \<Rightarrow> kobj \<Rightarrow> 's \<Rightarrow> kobj result \<times> 's"
  api_create :: "kobj \<Rightarrow> 's \<Rightarrow> kobj result \<times> 's"
  api_update :: "kobj \<Rightarrow> 's \<Rightarrow> kobj result \<times> 's"
  api_delete :: "bool \<Rightarrow> kobj \<Rightarrow> 's \<Rightarrow> go_error option \<times> 's"
  api_status_update :: "kobj \<Rightarrow> 's \<Rightarrow> kobj result \<times> 's"
  api_create_or_update :: "kobj \<Rightarrow> (kobj \<Rightarrow> kobj result) \<Rightarrow> 's \<Rightarrow> kobj result \<times> 's"
  api_create_token :: "string \<Rightarrow> string \<Rightarrow> int \<Rightarrow> 's \<Rightarrow> (string \<times> int option) result \<times> 's"
  api_now :: "'s \<Rightarrow> int \<times> 's"

text \<open>
  The first argument of \<open>api_list\<close> and \<open>api_delete\<close> tells whether the context of the call has
  been cancelled; the other calls run on a live context. \<open>api_list_in\<close> lists one namespace.
  \<open>api_create_token\<close> is the TokenRequest endpoint of a service account: it takes the lifetime in seconds
  and answers with a token and its expiry, if it states one. \<open>api_now\<close> reads the clock.

  The events \<open>EPatch\<close> and \<open>EDelete\<close> are the calls of a tracking client. Patches and deletions that a
  reconciler makes on the plain client, past the tracking client, are the events \<open>EDirectPatch\<close> and
  \<open>EDirectDelete\<close>.
\<close>

datatype event =
    EGet gvk string string "kobj result"
  | EList gvk smap "kobj list result"
  | EPatch patch patch_options kobj "kobj result"
  | ECreate kobj "kobj result"
  | EUpdate kobj "kobj result"
  | EDelete kobj "go_error option"
  | EStatusUpdate kobj "kobj result"
  | ECreateOrUpdate kobj "kobj result"
  | EGauge bool
  | EListIn string gvk smap "kobj list result"
  | EDirectPatch patch patch_options kobj "kobj result"
  | EDirectDelete kobj "go_error option"
  | ETokenRequest string string int "(string \<times> int option) result"
  | ENow int

record 's world =
  cluster :: 's
  events :: "event list"

definition emit :: "event \<Rightarrow> 's \<Rightarrow> 's world \<Rightarrow> 's world" where
  "emit e s w = \<lparr> cluster = s, events = events w @ [e] \<rparr>"

lemma emit_simps [simp]:
  "cluster (emit e s w) = s"
  "events (emit e s w) = events w @ [e]"
  by (simp_all add: emit_def)

definition k_get :: "'s api \<Rightarrow> gvk \<Rightarrow> string \<Rightarrow> string \<Rightarrow> 's world \<Rightarrow> kobj result \<times> 's world" where
  "k_get A g ns n w = (case api_get A g ns n (cluster w) of (r, s) \<Rightarrow> (r, emit (EGet g ns n r) s w))"

definition k_list :: "'s api \<Rightarrow> bool \<Rightarrow> gvk \<Rightarrow> smap \<Rightarrow> 's world \<Rightarrow> kobj list result \<times> 's world" where
  "k_list A cancelled g sel w =
     (case api_list A cancelled g sel (cluster w) of (r, s) \<Rightarrow> (r, emit (EList g sel r) s w))"

definition k_patch :: "'s api \<Rightarrow> patch \<Rightarrow> patch_options \<Rightarrow> kobj \<Rightarrow> 's world \<Rightarrow> kobj result \<times> 's world" where
  "k_patch A p opts obj w =
     (case api_patch A p opts obj (cluster w) of (r, s) \<Rightarrow> (r, emit (EPatch p opts obj r) s w))"

definition k_create :: "'s api \<Rightarrow> kobj \<Rightarrow> 's world \<Rightarrow> kobj result \<times> 's world" where
  "k_create A obj w = (case api_create A obj (cluster w) of (r, s) \<Rightarrow> (r, emit (ECreate obj r) s w))"

definition k_update :: "'s api \<Rightarrow> kobj \<Rightarrow> 's world \<Rightarrow> kobj result \<times> 's world" where
  "k_update A obj w = (case api_update A obj (cluster w) of (r, s) \<Rightarrow> (r, emit (EUpdate obj r) s w))"

definition k_delete :: "'s api \<Rightarrow> bool \<Rightarrow> kobj \<Rightarrow> 's world \<Rightarrow> go_error option \<times> 's world" where
  "k_delete A cancelled obj w =
     (case api_delete A cancelled obj (cluster w) of (r, s) \<Rightarrow> (r, emit (EDelete obj r) s w))"

definition k_status_update :: "'s api \<Rightarrow> kobj \<Rightarrow> 's world \<Rightarrow> kobj result \<times> 's world" where
  "k_status_update A obj w =
     (case api_status_update A obj (cluster w) of (r, s) \<Rightarrow> (r, emit (EStatusUpdate obj r) s w))"

text \<open>
  \<open>controllerutil.CreateOrUpdate\<close>, itself outside the repository: it fetches the object, runs
  the mutate function on it and writes it back.
\<close>

definition k_create_or_update ::
    "'s api \<Rightarrow> kobj \<Rightarrow> (kobj \<Rightarrow> kobj result) \<Rightarrow> 's world \<Rightarrow> kobj result \<times> 's world" where
  "k_create_or_update A obj f w =
     (case api_create_or_update A obj f (cluster w) of (r, s) \<Rightarrow> (r, emit (ECreateOrUpdate obj r) s w))"

definition k_list_in :: "'s api \<Rightarrow> string \<Rightarrow> gvk \<Rightarrow> smap \<Rightarrow> 's world \<Rightarrow> kobj list result \<times> 's world" where
  "k_list_in A ns g sel w =
     (case api_list_in A ns g sel (cluster w) of (r, s) \<Rightarrow> (r, emit (EListIn ns g sel r) s w))"

definition k_direct_patch :: "'s api \<Rightarrow> patch \<Rightarrow> patch_options \<Rightarrow> kobj \<Rightarrow> 's world \<Rightarrow> kobj result \<times> 's world" where
  "k_direct_patch A p opts obj w =
     (case api_patch A p opts obj (cluster w) of (r, s) \<Rightarrow> (r, emit (EDirectPatch p opts obj r) s w))"

definition k_direct_delete :: "'s api \<Rightarrow> kobj \<Rightarrow> 's world \<Rightarrow> go_error option \<times> 's world" where
  "k_direct_delete A obj w =
     (case api_delete A False obj (cluster w) of (r, s) \<Rightarrow> (r, emit (EDirectDelete obj r) s w))"

definition k_create_token :: "'s api \<Rightarrow> string \<Rightarrow> string \<Rightarrow> int \<Rightarrow> 's world \<Rightarrow> (string \<times> int option) result \<times> 's world" where
  "k_create_token A ns n seconds w =
     (case api_create_token A ns n seconds (cluster w) of (r, s) \<Rightarrow> (r, emit (ETokenRequest ns n seconds r) s w))"

definition k_now :: "('s \<Rightarrow> int \<times> 's) \<Rightarrow> 's world \<Rightarrow> int \<times> 's world" where
  "k_now clock w = (case clock (cluster w) of (t, s) \<Rightarrow> (t, emit (ENow t) s w))"

lemmas k_call_defs [api_defs] = k_create_token_def k_now_def k_list_in_def k_direct_patch_def k_direct_delete_def k_get_def k_list_def k_patch_def k_create_def k_update_def
  k_delete_def k_status_update_def k_create_or_update_def

section \<open>What a piece of code does to the trace\<close>

text \<open>
  \<open>emits P w w'\<close>: going from \<open>w\<close> to \<open>w'\<close> only added events satisfying \<open>P\<close>. \<open>added w w'\<close> are
  the added events.
\<close>

definition added :: "'s world \<Rightarrow> 's world \<Rightarrow> event list" where
  "added w w' = drop (length (events w)) (events w')"

definition extends :: "'s world \<Rightarrow> 's world \<Rightarrow> bool" where
  "extends w w' \<longleftrightarrow> take (length (events w)) (events w') = events w"

definition emits :: "(event \<Rightarrow> bool) \<Rightarrow> 's world \<Rightarrow> 's world \<Rightarrow> bool" where
  "emits P w w' \<longleftrightarrow> extends w w' \<and> list_all P (added w w')"

lemma extends_iff: "extends w w' \<longleftrightarrow> events w' = events w @ added w w'"
  unfolding extends_def added_def by (metis append_eq_conv_conj append_take_drop_id)

lemma extendsI: "events w' = events w @ es \<Longrightarrow> extends w w'"
  by (simp add: extends_def)

lemma addedI: "events w' = events w @ es \<Longrightarrow> added w w' = es"
  by (simp add: added_def)

lemma extends_refl [simp]: "extends w w"
  by (simp add: extends_def)

lemma added_refl [simp]: "added w w = []"
  by (simp add: added_def)

lemma extends_trans: "extends w w' \<Longrightarrow> extends w' w'' \<Longrightarrow> extends w w''"
  by (metis append.assoc extendsI extends_iff)

lemma added_trans: "extends w w' \<Longrightarrow> extends w' w'' \<Longrightarrow> added w w'' = added w w' @ added w' w''"
  by (metis addedI append.assoc extends_iff)

lemma emits_refl [simp]: "emits P w w"
  by (simp add: emits_def)

lemma emits_extends: "emits P w w' \<Longrightarrow> extends w w'"
  by (simp add: emits_def)

lemma emits_added: "emits P w w' \<Longrightarrow> e \<in> set (added w w') \<Longrightarrow> P e"
  by (auto simp: emits_def list_all_iff)

lemma emits_trans: "emits P w w' \<Longrightarrow> emits P w' w'' \<Longrightarrow> emits P w w''"
  by (auto simp: emits_def added_trans [of w w' w''] intro: extends_trans)

lemma emits_mono: "emits P w w' \<Longrightarrow> (\<And>e. P e \<Longrightarrow> Q e) \<Longrightarrow> emits Q w w'"
  by (auto simp: emits_def list_all_iff)

lemma emits_one: "events w' = events w @ [e] \<Longrightarrow> emits P w w' \<longleftrightarrow> P e"
  by (simp add: emits_def extendsI addedI)

lemma emits_emit [simp]: "emits P w (emit e s w) \<longleftrightarrow> P e"
  by (simp add: emits_one)

lemma emits_event: "emits P w w' \<Longrightarrow> \<not> P e \<Longrightarrow> e \<in> set (events w') \<longleftrightarrow> e \<in> set (events w)"
  by (metis Un_iff emits_added emits_extends extends_iff set_append)

text \<open>Each API call adds its own event.\<close>

lemma k_call_events:
  "k_get A g ns n w = (r1, w') \<Longrightarrow> events w' = events w @ [EGet g ns n r1]"
  "k_list A c g sel w = (r2, w') \<Longrightarrow> events w' = events w @ [EList g sel r2]"
  "k_patch A p opts obj w = (r3, w') \<Longrightarrow> events w' = events w @ [EPatch p opts obj r3]"
  "k_create A obj w = (r4, w') \<Longrightarrow> events w' = events w @ [ECreate obj r4]"
  "k_update A obj w = (r5, w') \<Longrightarrow> events w' = events w @ [EUpdate obj r5]"
  "k_delete A c obj w = (r6, w') \<Longrightarrow> events w' = events w @ [EDelete obj r6]"
  "k_status_update A obj w = (r7, w') \<Longrightarrow> events w' = events w @ [EStatusUpdate obj r7]"
  "k_create_or_update A obj f w = (r8, w') \<Longrightarrow> events w' = events w @ [ECreateOrUpdate obj r8]"
  "k_list_in A ns g sel w = (r9, w') \<Longrightarrow> events w' = events w @ [EListIn ns g sel r9]"
  "k_direct_patch A p opts obj w = (r10, w') \<Longrightarrow> events w' = events w @ [EDirectPatch p opts obj r10]"
  "k_direct_delete A obj w = (r11, w') \<Longrightarrow> events w' = events w @ [EDirectDelete obj r11]"
  "k_create_token A ns n seconds w = (r12, w') \<Longrightarrow> events w' = events w @ [ETokenRequest ns n seconds r12]"
  "k_now clock w = (t, w') \<Longrightarrow> events w' = events w @ [ENow t]"
  by (auto simp: api_defs split: prod.splits)

lemmas k_call_extends = k_call_events [THEN extendsI]
lemmas k_call_added = k_call_events [THEN addedI]
lemmas k_call_emits = k_call_events [THEN emits_one]

end
