(* ===== verification/Reference_Cluster.thy ===== *)
theory Reference_Cluster
  imports Kube_Objects
begin

text \<open>
  A small in-memory API server and apimachinery. No theorem is about it: it instantiates the
  parameters \<open>'s api\<close> and \<open>machinery\<close> by concrete functions with the documented behaviour, so that
  the hypotheses about those parameters can be shown to hold and the model can be run on concrete
  clusters.
\<close>

definition same_object :: "kobj \<Rightarrow> kobj \<Rightarrow> bool" where
  "same_object a b \<longleftrightarrow> o_gvk a = o_gvk b \<and> o_namespace a = o_namespace b \<and> o_name a = o_name b"

definition controller_ref :: "kobj \<Rightarrow> json" where
  "controller_ref owner = JObject [(''name'', JString (o_name owner)), (''uid'', JString (o_uid owner))]"

definition ref_machinery :: machinery where
  "ref_machinery = \<lparr>
     SetStatusCondition = set_condition_ref,
     FindStatusCondition = (\<lambda>cs t. find_key ctype t cs),
     gvk_String = (\<lambda>g. Group g @ ''/'' @ Version g @ '', Kind='' @ Kind g),
     IsControlledBy = (\<lambda>obj owner. controller_ref owner \<in> set (o_ownerRefs obj)),
     SetControllerReference = (\<lambda>owner obj.
       Inr (obj\<lparr> o_ownerRefs := List.insert (controller_ref owner) (o_ownerRefs obj) \<rparr>)),
     ObjectKinds = (\<lambda>obj. Inl (NewError ''not registered'')) \<rparr>"

lemma ref_machinery_laws: "condition_laws ref_machinery"
  by (simp add: condition_laws_def ref_machinery_def find_set_condition_ref map_set_condition_ref)

definition not_found :: go_error where
  "not_found = ApiError NotFound ''not found''"

definition labels_match :: "smap \<Rightarrow> kobj \<Rightarrow> bool" where
  "labels_match s obj = list_all (\<lambda>(k, v). map_of (o_labels obj) k = Some v) s"

fun upsert_object :: "kobj \<Rightarrow> kobj list \<Rightarrow> kobj list" where
  "upsert_object obj [] = [obj]"
| "upsert_object obj (x # xs) = (if same_object x obj then obj # xs else x # upsert_object obj xs)"

text \<open>
  Applying a custom resource keeps the status conditions of the stored object, which belong to
  its own controller.
\<close>

definition ref_write :: "kobj \<Rightarrow> kobj list \<Rightarrow> kobj" where
  "ref_write obj s = (case List.find (same_object obj) s of
     None \<Rightarrow> obj | Some old \<Rightarrow> obj\<lparr> o_uid := o_uid old, o_conditions := o_conditions old \<rparr>)"

definition ref_api :: "kobj list api" where
  "ref_api = \<lparr>
     api_get = (\<lambda>g ns n s. (case List.find (\<lambda>x. o_gvk x = g \<and> o_namespace x = ns \<and> o_name x = n) s of
        None \<Rightarrow> Inl not_found | Some x \<Rightarrow> Inr x, s)),
     api_list = (\<lambda>cancelled lg sel s.
        (if cancelled then Inl (ApiError OtherError ''context canceled'')
         else Inr (filter (\<lambda>x. (o_gvk x)\<lparr> Kind := Kind (o_gvk x) @ ''List'' \<rparr> = lg \<and> labels_match sel x) s), s)),
     api_list_in = (\<lambda>ns lg sel s. (Inr (filter (\<lambda>x. (o_gvk x)\<lparr> Kind := Kind (o_gvk x) @ ''List'' \<rparr> = lg \<and>
        o_namespace x = ns \<and> labels_match sel x) s), s)),
     api_patch = (\<lambda>p opts obj s. (Inr (ref_write obj s), upsert_object (ref_write obj s) s)),
     api_create = (\<lambda>obj s. if list_ex (same_object obj) s
        then (Inl (ApiError AlreadyExists ''already exists''), s) else (Inr obj, s @ [obj])),
     api_update = (\<lambda>obj s. (Inr obj, upsert_object obj s)),
     api_delete = (\<lambda>cancelled obj s.
        if cancelled then (Some (ApiError OtherError ''context canceled''), s)
        else if list_ex (same_object obj) s then (None, filter (\<lambda>x. \<not> same_object obj x) s)
        else (Some not_found, s)),
     api_status_update = (\<lambda>obj s. (Inr obj, upsert_object obj s)),
     api_create_or_update = (\<lambda>obj f s. (case f obj of Inl e \<Rightarrow> (Inl e, s)
        | Inr obj' \<Rightarrow> (Inr obj', upsert_object obj' s))),
     api_create_token = (\<lambda>ns n seconds s. (Inr (''token of '' @ n, None), s)),
     api_now = (\<lambda>s. (0, s)) \<rparr>"

definition start :: "kobj list \<Rightarrow> kobj list world" where
  "start s = \<lparr> cluster = s, events = [] \<rparr>"

lemmas ref_defs = ref_machinery_def ref_api_def ref_write_def same_object_def controller_ref_def
  labels_match_def not_found_def start_def new_object_def mk_gvk_def

end
