(* ===== verification/Tracking.thy ===== *)
theory Tracking
  imports Reference_Cluster
begin

text \<open>
  The tracking client (\<open>pkg/tracking/tracking.go\<close>): a client that remembers what a reconcile
  applied and afterwards deletes what it did not apply.

  \<open>CleanupOrphans\<close> runs one goroutine per kind. A goroutine is a small machine
  (\<open>goroutine\<close>, \<open>cleanup_item\<close>) that performs one API call per step; \<open>CleanupOrphans\<close> takes the
  interleaving as a schedule, a list of goroutine numbers, and lets every goroutine run to its end
  (\<open>g.Wait\<close>) when the schedule is exhausted. The step relation \<open>cleanup_step\<close> describes the same
  system without fixing the schedule. The theorems hold for every schedule and every answer of the
  API server.
\<close>

section \<open>State\<close>

record resource_key =
  rk_gvk :: gvk
  rk_namespace :: string
  rk_name :: string

definition resource_key_String :: "resource_key \<Rightarrow> string" where
  "resource_key_String k =
     (if rk_namespace k = [] then Kind (rk_gvk k) @ ''/'' @ rk_name k
      else Kind (rk_gvk k) @ ''/'' @ rk_namespace k @ ''/'' @ rk_name k)"

record ownership_config =
  Owner :: kobj
  OwnerLabelKey :: string
  ComponentLabelKey :: string
  Component :: string
  FieldManager :: string

text \<open>The embedded \<open>client.Client\<close> is the parameter \<open>A\<close> of the operations.\<close>

record tracking_client =
  ownership :: "ownership_config option"
  tracked :: "resource_key set"

definition NewClient :: tracking_client where
  "NewClient = \<lparr> ownership = None, tracked = {} \<rparr>"

definition NewClientWithOwnership :: "ownership_config \<Rightarrow> tracking_client" where
  "NewClientWithOwnership cfg = \<lparr> ownership = Some cfg, tracked = {} \<rparr>"

text \<open>\<^const>\<open>None\<close> is the nil map.\<close>

type_synonym allow_list = "(gvk \<times> string list) list option"

definition IsAllowed :: "allow_list \<Rightarrow> gvk \<Rightarrow> string \<Rightarrow> string \<Rightarrow> bool" where
  "IsAllowed a g namespace name =
     (if namespace \<noteq> [] then True
      else (case a of None \<Rightarrow> True
        | Some m \<Rightarrow> (case map_of m g of None \<Rightarrow> True | Some allowedNames \<Rightarrow> name \<in> set allowedNames)))"

record cleanup_options =
  ClusterScopedAllowList :: allow_list

definition WithClusterScopedAllowList :: "allow_list \<Rightarrow> cleanup_options \<Rightarrow> cleanup_options" where
  "WithClusterScopedAllowList a opts = opts\<lparr> ClusterScopedAllowList := a \<rparr>"

section \<open>Applying and tracking\<close>

definition IsCustomResourceDefinition :: "kobj \<Rightarrow> bool" where
  "IsCustomResourceDefinition obj =
     (if \<not> gvk_Empty (o_gvk obj)
      then Group (o_gvk obj) = ''apiextensions.k8s.io'' \<and> Kind (o_gvk obj) = ''CustomResourceDefinition''
      else (case o_body obj of BCustomResourceDefinition j \<Rightarrow> True | _ \<Rightarrow> False))"

definition tracked_gvk :: "machinery \<Rightarrow> kobj \<Rightarrow> gvk" where
  "tracked_gvk M obj =
     (if gvk_Empty (o_gvk obj)
      then (case ObjectKinds M obj of Inr (g # gs) \<Rightarrow> g | _ \<Rightarrow> o_gvk obj)
      else o_gvk obj)"

definition track :: "machinery \<Rightarrow> kobj \<Rightarrow> tracking_client \<Rightarrow> tracking_client" where
  "track M obj tc = tc\<lparr> tracked := insert
     \<lparr> rk_gvk = tracked_gvk M obj, rk_namespace = o_namespace obj, rk_name = o_name obj \<rparr> (tracked tc) \<rparr>"

definition IsTracked :: "tracking_client \<Rightarrow> gvk \<Rightarrow> string \<Rightarrow> string \<Rightarrow> bool" where
  "IsTracked tc g namespace name \<longleftrightarrow>
     \<lparr> rk_gvk = g, rk_namespace = namespace, rk_name = name \<rparr> \<in> tracked tc"

definition SetOwnership :: "machinery \<Rightarrow> tracking_client \<Rightarrow> kobj \<Rightarrow> kobj result" where
  "SetOwnership M tc obj = (case ownership tc of
     None \<Rightarrow> Inl (NewError ''SetOwnership called but client was not created with ownership config; use NewClientWithOwnership'')
   | Some cfg \<Rightarrow>
       let labels = sput (ComponentLabelKey cfg) (Component cfg)
                      (sput (OwnerLabelKey cfg) (o_name (Owner cfg)) (o_labels obj));
           obj = obj\<lparr> o_labels := labels \<rparr>
       in if IsCustomResourceDefinition obj then Inr obj
          else (case SetControllerReference M (Owner cfg) obj of
                  Inl e \<Rightarrow> Inl (Errorf ''failed to set controller reference'' e)
                | Inr obj' \<Rightarrow> Inr obj'))"

text \<open>
  The operations return the object as the API server answered it (\<open>Inr\<close>) or the error.
  No caller passes extra patch options.
\<close>

definition ApplyObject :: "machinery \<Rightarrow> 's api \<Rightarrow> kobj \<Rightarrow> string \<Rightarrow> tracking_client \<Rightarrow> 's world \<Rightarrow>
    kobj result \<times> tracking_client \<times> 's world" where
  "ApplyObject M A obj fieldManager tc w =
     (case k_patch A SSAPatch \<lparr> FieldOwner = fieldManager, ForceOwnership = True \<rparr> obj w of
        (Inl e, w') \<Rightarrow> (Inl e, tc, w')
      | (Inr obj', w') \<Rightarrow> (Inr obj', track M obj' tc, w'))"

definition ApplyOwned :: "machinery \<Rightarrow> 's api \<Rightarrow> kobj \<Rightarrow> tracking_client \<Rightarrow> 's world \<Rightarrow>
    kobj result \<times> tracking_client \<times> 's world" where
  "ApplyOwned M A obj tc w = (case SetOwnership M tc obj of
     Inl e \<Rightarrow> (Inl e, tc, w)
   | Inr owned \<Rightarrow> (case ownership tc of
       None \<Rightarrow> (Inr owned, tc, w)
     | Some cfg \<Rightarrow> ApplyObject M A owned (FieldManager cfg) tc w))"

definition Patch :: "machinery \<Rightarrow> 's api \<Rightarrow> kobj \<Rightarrow> patch \<Rightarrow> patch_options \<Rightarrow> tracking_client \<Rightarrow> 's world \<Rightarrow>
    kobj result \<times> tracking_client \<times> 's world" where
  "Patch M A obj p opts tc w = (case k_patch A p opts obj w of
     (Inl e, w') \<Rightarrow> (Inl e, tc, w')
   | (Inr obj', w') \<Rightarrow> (Inr obj', track M obj' tc, w'))"

definition Create :: "machinery \<Rightarrow> 's api \<Rightarrow> kobj \<Rightarrow> tracking_client \<Rightarrow> 's world \<Rightarrow>
    kobj result \<times> tracking_client \<times> 's world" where
  "Create M A obj tc w = (case k_create A obj w of
     (Inl e, w') \<Rightarrow> (Inl e, if IsAlreadyExists e then track M obj tc else tc, w')
   | (Inr obj', w') \<Rightarrow> (Inr obj', track M obj' tc, w'))"

definition Update :: "machinery \<Rightarrow> 's api \<Rightarrow> kobj \<Rightarrow> tracking_client \<Rightarrow> 's world \<Rightarrow>
    kobj result \<times> tracking_client \<times> 's world" where
  "Update M A obj tc w = (case k_update A obj w of
     (Inl e, w') \<Rightarrow> (Inl e, tc, w')
   | (Inr obj', w') \<Rightarrow> (Inr obj', track M obj' tc, w'))"

definition CreateOrUpdate :: "machinery \<Rightarrow> 's api \<Rightarrow> kobj \<Rightarrow> (kobj \<Rightarrow> kobj result) \<Rightarrow> tracking_client \<Rightarrow> 's world \<Rightarrow>
    kobj result \<times> tracking_client \<times> 's world" where
  "CreateOrUpdate M A obj f tc w = (case k_create_or_update A obj f w of
     (Inl e, w') \<Rightarrow> (Inl e, tc, w')
   | (Inr obj', w') \<Rightarrow> (Inr obj', track M obj' tc, w'))"

definition GetKind :: "kobj \<Rightarrow> string" where
  "GetKind obj = Kind (o_gvk obj)"

section \<open>Orphan cleanup\<close>

definition list_gvk :: "gvk \<Rightarrow> gvk" where
  "list_gvk g = g\<lparr> Kind := Kind g @ ''List'' \<rparr>"

definition item_key :: "gvk \<Rightarrow> kobj \<Rightarrow> resource_key" where
  "item_key g item = \<lparr> rk_gvk = g, rk_namespace = o_namespace item, rk_name = o_name item \<rparr>"

text \<open>The three guards between a listed item and its deletion.\<close>

definition is_orphan :: "machinery \<Rightarrow> tracking_client \<Rightarrow> cleanup_options \<Rightarrow> gvk \<Rightarrow> kobj \<Rightarrow> bool" where
  "is_orphan M tc options g item \<longleftrightarrow>
     item_key g item \<notin> tracked tc \<and>
     (case ownership tc of None \<Rightarrow> True | Some cfg \<Rightarrow> IsControlledBy M item (Owner cfg)) \<and>
     IsAllowed (ClusterScopedAllowList options) g (o_namespace item) (o_name item)"

text \<open>One iteration of the deletion loop; \<open>Some e\<close> leaves the loop with the error.\<close>

definition cleanup_item :: "machinery \<Rightarrow> 's api \<Rightarrow> tracking_client \<Rightarrow> cleanup_options \<Rightarrow> bool \<Rightarrow> gvk \<Rightarrow> kobj \<Rightarrow>
    's world \<Rightarrow> go_error option \<times> 's world" where
  "cleanup_item M A tc options cancelled g item w =
     (if is_orphan M tc options g item
      then (case k_delete A cancelled item w of
              (None, w') \<Rightarrow> (None, w')
            | (Some e, w') \<Rightarrow>
                if IgnoreNotFound e \<noteq> None
                then (Some (Errorf (''failed to delete '' @ resource_key_String (item_key g item)) e), w')
                else (None, w'))
      else (None, w))"

fun cleanup_items :: "machinery \<Rightarrow> 's api \<Rightarrow> tracking_client \<Rightarrow> cleanup_options \<Rightarrow> bool \<Rightarrow> gvk \<Rightarrow> kobj list \<Rightarrow>
    's world \<Rightarrow> go_error option \<times> 's world" where
  "cleanup_items M A tc options cancelled g [] w = (None, w)"
| "cleanup_items M A tc options cancelled g (item # items) w =
     (case cleanup_item M A tc options cancelled g item w of
        (Some e, w') \<Rightarrow> (Some e, w')
      | (None, w') \<Rightarrow> cleanup_items M A tc options cancelled g items w')"

definition cleanupOrphansForGVK :: "machinery \<Rightarrow> 's api \<Rightarrow> tracking_client \<Rightarrow> string \<Rightarrow> string \<Rightarrow> cleanup_options \<Rightarrow> bool \<Rightarrow>
    gvk \<Rightarrow> 's world \<Rightarrow> go_error option \<times> 's world" where
  "cleanupOrphansForGVK M A tc ownerLabelKey ownerLabelValue options cancelled g w =
     (case k_list A cancelled (list_gvk g) [(ownerLabelKey, ownerLabelValue)] w of
        (Inl e, w') \<Rightarrow> if IsNoMatchError e then (None, w')
                       else (Some (Errorf ''failed to list resources'' e), w')
      | (Inr items, w') \<Rightarrow> cleanup_items M A tc options cancelled g items w')"

subsection \<open>The goroutines of CleanupOrphans\<close>

text \<open>
  \<open>cleanup_call\<close> holds what the goroutines share: the variables their closure captures. The context is
  cancelled from the moment the error group has recorded its first error.
\<close>

record 's cleanup_call =
  call_M :: machinery
  call_A :: "'s api"
  call_tc :: tracking_client
  call_key :: string
  call_value :: string
  call_options :: cleanup_options

datatype goroutine = GStart | GItems "kobj list" | GDone "go_error option"

record 's pool =
  goroutines :: "(gvk \<times> goroutine) list"
  firstErr :: "go_error option"
  pool_world :: "'s world"

definition goroutine_step :: "'s cleanup_call \<Rightarrow> bool \<Rightarrow> gvk \<Rightarrow> goroutine \<Rightarrow> 's world \<Rightarrow> goroutine \<times> 's world" where
  "goroutine_step J cancelled g st w = (case st of
     GStart \<Rightarrow>
       (case k_list (call_A J) cancelled (list_gvk g) [(call_key J, call_value J)] w of
          (Inl e, w') \<Rightarrow> (GDone (if IsNoMatchError e then None else Some (Errorf ''failed to list resources'' e)), w')
        | (Inr items, w') \<Rightarrow> (GItems items, w'))
   | GItems [] \<Rightarrow> (GDone None, w)
   | GItems (item # items) \<Rightarrow>
       (case cleanup_item (call_M J) (call_A J) (call_tc J) (call_options J) cancelled g item w of
          (Some e, w') \<Rightarrow> (GDone (Some e), w')
        | (None, w') \<Rightarrow> (GItems items, w'))
   | GDone r \<Rightarrow> (GDone r, w))"

definition group_error :: "'s cleanup_call \<Rightarrow> gvk \<Rightarrow> goroutine \<Rightarrow> go_error option" where
  "group_error J g st = (case st of
     GDone (Some e) \<Rightarrow> Some (Errorf (''failed to cleanup orphans for '' @ gvk_String (call_M J) g) e)
   | _ \<Rightarrow> None)"

definition running :: "'s pool \<Rightarrow> nat \<Rightarrow> bool" where
  "running p i \<longleftrightarrow> i < length (goroutines p) \<and> (case snd (goroutines p ! i) of GDone r \<Rightarrow> False | _ \<Rightarrow> True)"

definition pool_step :: "'s cleanup_call \<Rightarrow> nat \<Rightarrow> 's pool \<Rightarrow> 's pool" where
  "pool_step J i p =
     (if running p i
      then (case goroutines p ! i of (g, st) \<Rightarrow>
             (case goroutine_step J (firstErr p \<noteq> None) g st (pool_world p) of (st', w') \<Rightarrow>
                p\<lparr> goroutines := (goroutines p)[i := (g, st')],
                   firstErr := (case firstErr p of Some e \<Rightarrow> Some e | None \<Rightarrow> group_error J g st'),
                   pool_world := w' \<rparr>))
      else p)"

fun work_left :: "goroutine \<Rightarrow> nat \<times> nat" where
  "work_left GStart = (2, 0)"
| "work_left (GItems items) = (1, length items)"
| "work_left (GDone r) = (0, 0)"

lemma goroutine_step_less:
  "(\<And>r. st \<noteq> GDone r) \<Longrightarrow>
   (work_left (fst (goroutine_step J c g st w)), work_left st) \<in> less_than <*lex*> less_than"
  by (cases st) (auto simp: goroutine_step_def split: list.splits prod.splits sum.splits option.splits)

lemma pool_step_work:
  assumes "running p i"
  shows "(work_left (snd (goroutines (pool_step J i p) ! i)), work_left (snd (goroutines p ! i)))
    \<in> less_than <*lex*> less_than"
proof -
  from assms have "\<And>r. snd (goroutines p ! i) \<noteq> GDone r" and "i < length (goroutines p)"
    by (auto simp: running_def)
  then show ?thesis
    using goroutine_step_less [of "snd (goroutines p ! i)" J "firstErr p \<noteq> None" "fst (goroutines p ! i)" "pool_world p"]
    by (auto simp: pool_step_def assms split: prod.splits)
qed

text \<open>\<open>g.Wait\<close>: goroutine \<open>i\<close> runs to its end.\<close>

function run_to_end :: "'s cleanup_call \<Rightarrow> nat \<Rightarrow> 's pool \<Rightarrow> 's pool" where
  "run_to_end J i p = (if running p i then run_to_end J i (pool_step J i p) else p)"
  by pat_completeness auto

termination
  by (relation "inv_image (less_than <*lex*> less_than) (\<lambda>(J, i, p). work_left (snd (goroutines p ! i)))")
    (auto dest: pool_step_work)

declare run_to_end.simps [simp del]

definition initial_pool :: "gvk list \<Rightarrow> 's world \<Rightarrow> 's pool" where
  "initial_pool gvks w = \<lparr> goroutines = map (\<lambda>g. (g, GStart)) gvks, firstErr = None, pool_world = w \<rparr>"

definition run_pool :: "'s cleanup_call \<Rightarrow> nat list \<Rightarrow> 's pool \<Rightarrow> 's pool" where
  "run_pool J schedule p =
     fold (run_to_end J) [0..<length (goroutines p)] (fold (pool_step J) schedule p)"

definition CleanupOrphans :: "machinery \<Rightarrow> 's api \<Rightarrow> nat list \<Rightarrow> tracking_client \<Rightarrow> string \<Rightarrow> string \<Rightarrow> gvk list \<Rightarrow>
    (cleanup_options \<Rightarrow> cleanup_options) list \<Rightarrow> 's world \<Rightarrow> go_error option \<times> 's world" where
  "CleanupOrphans M A schedule tc ownerLabelKey ownerLabelValue gvks opts w =
     (let options = fold (\<lambda>opt o'. opt o') opts \<lparr> ClusterScopedAllowList = None \<rparr>;
          J = \<lparr> call_M = M, call_A = A, call_tc = tc, call_key = ownerLabelKey,
                call_value = ownerLabelValue, call_options = options \<rparr>;
          p = run_pool J schedule (initial_pool gvks w)
      in (firstErr p, pool_world p))"

text \<open>The same system as a step relation that lets any running goroutine move.\<close>

inductive cleanup_step :: "'s cleanup_call \<Rightarrow> 's pool \<Rightarrow> 's pool \<Rightarrow> bool" for J where
  move: "running p i \<Longrightarrow> cleanup_step J p (pool_step J i p)"

inductive_cases cleanup_stepE: "cleanup_step J p p'"

definition final :: "'s pool \<Rightarrow> bool" where
  "final p \<longleftrightarrow> list_all (\<lambda>(g, st). case st of GDone r \<Rightarrow> True | _ \<Rightarrow> False) (goroutines p)"

section \<open>Properties of applying\<close>

lemma SetOwnership_labels:
  assumes "SetOwnership M tc obj = Inr obj'" and "ownership tc = Some cfg"
    and "IsCustomResourceDefinition obj"
  shows "obj' = obj\<lparr> o_labels := sput (ComponentLabelKey cfg) (Component cfg)
           (sput (OwnerLabelKey cfg) (o_name (Owner cfg)) (o_labels obj)) \<rparr>"
  using assms by (simp add: SetOwnership_def Let_def IsCustomResourceDefinition_def split: if_splits)

lemma tracked_track [simp]: "tracked (track M obj tc) = insert
    \<lparr> rk_gvk = tracked_gvk M obj, rk_namespace = o_namespace obj, rk_name = o_name obj \<rparr> (tracked tc)"
  and ownership_track [simp]: "ownership (track M obj tc) = ownership tc"
  by (simp_all add: track_def)

lemma ApplyOwned_ownership: "ApplyOwned M A obj tc w = (r, tc', w') \<Longrightarrow> ownership tc' = ownership tc"
  by (auto simp: ApplyOwned_def ApplyObject_def split: sum.splits option.splits prod.splits)

lemma ApplyOwned_tracked_mono: "ApplyOwned M A obj tc w = (r, tc', w') \<Longrightarrow> tracked tc \<subseteq> tracked tc'"
  by (auto simp: ApplyOwned_def ApplyObject_def split: sum.splits option.splits prod.splits)

text \<open>Every patch an \<open>ApplyOwned\<close> sends is a forced server-side apply of the owned object.\<close>

definition owned_apply :: "machinery \<Rightarrow> tracking_client \<Rightarrow> event \<Rightarrow> bool" where
  "owned_apply M tc e = (case e of
     EPatch p opts obj r \<Rightarrow> p = SSAPatch \<and> (\<exists>cfg obj0. ownership tc = Some cfg \<and>
        opts = \<lparr> FieldOwner = FieldManager cfg, ForceOwnership = True \<rparr> \<and> SetOwnership M tc obj0 = Inr obj)
   | _ \<Rightarrow> False)"

lemma SetOwnership_None: "ownership tc = None \<Longrightarrow> \<exists>e. SetOwnership M tc obj = Inl e"
  by (simp add: SetOwnership_def)

lemma ApplyOwned_emits: "ApplyOwned M A obj tc w = (r, tc', w') \<Longrightarrow> emits (owned_apply M tc) w w'"
  by (auto simp: ApplyOwned_def ApplyObject_def owned_apply_def k_call_emits
      split: sum.splits option.splits prod.splits)

lemma owned_apply_cong: "ownership tc = ownership tc' \<Longrightarrow> owned_apply M tc = owned_apply M tc'"
  by (rule ext) (simp add: owned_apply_def SetOwnership_def split: event.splits)

lemma ApplyOwned_ok:
  assumes "ApplyOwned M A obj tc w = (Inr obj', tc', w')"
  shows "\<exists>cfg owned. ownership tc = Some cfg \<and> SetOwnership M tc obj = Inr owned \<and>
    added w w' = [EPatch SSAPatch \<lparr> FieldOwner = FieldManager cfg, ForceOwnership = True \<rparr> owned (Inr obj')] \<and>
    tc' = track M obj' tc"
proof (cases "ownership tc")
  case None
  then show ?thesis using assms SetOwnership_None [of tc M obj] by (auto simp: ApplyOwned_def)
next
  case (Some cfg)
  then show ?thesis using assms
    by (auto simp: ApplyOwned_def ApplyObject_def k_call_added split: sum.splits prod.splits)
qed

section \<open>Properties of orphan cleanup\<close>

subsection \<open>What the events and goroutines satisfy\<close>

text \<open>
  \<open>es\<close> are the events of the call so far. A deletion concerns an orphan that a list call of this
  cleanup returned; a goroutine has dealt with every item in front of the remaining ones.
\<close>

definition sel :: "'s cleanup_call \<Rightarrow> smap" where
  "sel J = [(call_key J, call_value J)]"

definition orphan :: "'s cleanup_call \<Rightarrow> gvk \<Rightarrow> kobj \<Rightarrow> bool" where
  "orphan J g item = is_orphan (call_M J) (call_tc J) (call_options J) g item"

definition cleanup_event :: "'s cleanup_call \<Rightarrow> gvk list \<Rightarrow> event list \<Rightarrow> event \<Rightarrow> bool" where
  "cleanup_event J gvks es e = (case e of
     EList lg s r \<Rightarrow> s = sel J \<and> lg \<in> list_gvk ` set gvks
   | EDelete item r \<Rightarrow> \<exists>g \<in> set gvks. orphan J g item \<and>
       (\<exists>items. EList (list_gvk g) (sel J) (Inr items) \<in> set es \<and> item \<in> set items)
   | _ \<Rightarrow> False)"

definition dealt_with :: "'s cleanup_call \<Rightarrow> gvk \<Rightarrow> event list \<Rightarrow> kobj \<Rightarrow> bool" where
  "dealt_with J g es item \<longleftrightarrow> (orphan J g item \<longrightarrow>
     (\<exists>r. EDelete item r \<in> set es \<and> (case r of None \<Rightarrow> True | Some e \<Rightarrow> IsNotFound e)))"

definition cleaned :: "'s cleanup_call \<Rightarrow> gvk \<Rightarrow> event list \<Rightarrow> bool" where
  "cleaned J g es \<longleftrightarrow>
     (\<exists>e. EList (list_gvk g) (sel J) (Inl e) \<in> set es \<and> IsNoMatchError e) \<or>
     (\<exists>items. EList (list_gvk g) (sel J) (Inr items) \<in> set es \<and> (\<forall>item \<in> set items. dealt_with J g es item))"

definition failed :: "'s cleanup_call \<Rightarrow> gvk list \<Rightarrow> event list \<Rightarrow> go_error \<Rightarrow> bool" where
  "failed J gvks es err \<longleftrightarrow> (\<exists>g \<in> set gvks. \<exists>p e.
     err = Errorf (''failed to cleanup orphans for '' @ gvk_String (call_M J) g) (Errorf p e) \<and>
     ((EList (list_gvk g) (sel J) (Inl e) \<in> set es \<and> \<not> IsNoMatchError e) \<or>
      (\<exists>item. EDelete item (Some e) \<in> set es \<and> \<not> IsNotFound e)))"

definition goroutine_inv :: "'s cleanup_call \<Rightarrow> event list \<Rightarrow> go_error option \<Rightarrow> gvk \<Rightarrow> goroutine \<Rightarrow> bool" where
  "goroutine_inv J es err g st = (case st of
     GStart \<Rightarrow> True
   | GItems rest \<Rightarrow> (\<exists>past. EList (list_gvk g) (sel J) (Inr (past @ rest)) \<in> set es \<and>
       (\<forall>item \<in> set past. dealt_with J g es item))
   | GDone None \<Rightarrow> cleaned J g es
   | GDone (Some e) \<Rightarrow> err \<noteq> None)"

definition pool_inv :: "'s cleanup_call \<Rightarrow> gvk list \<Rightarrow> 's world \<Rightarrow> 's pool \<Rightarrow> bool" where
  "pool_inv J gvks w p \<longleftrightarrow>
     map fst (goroutines p) = gvks \<and>
     extends w (pool_world p) \<and>
     (\<forall>e \<in> set (added w (pool_world p)). cleanup_event J gvks (added w (pool_world p)) e) \<and>
     (\<forall>(g, st) \<in> set (goroutines p). goroutine_inv J (added w (pool_world p)) (firstErr p) g st) \<and>
     (\<forall>err. firstErr p = Some err \<longrightarrow> failed J gvks (added w (pool_world p)) err)"

subsection \<open>The invariant is kept\<close>

lemma cleanup_event_mono: "cleanup_event J gvks es e \<Longrightarrow> set es \<subseteq> set es' \<Longrightarrow> cleanup_event J gvks es' e"
  by (cases e) (auto simp: cleanup_event_def)

lemma dealt_with_mono: "dealt_with J g es item \<Longrightarrow> set es \<subseteq> set es' \<Longrightarrow> dealt_with J g es' item"
  by (auto simp: dealt_with_def)

lemma cleaned_mono: "cleaned J g es \<Longrightarrow> set es \<subseteq> set es' \<Longrightarrow> cleaned J g es'"
  unfolding cleaned_def using dealt_with_mono by blast

lemma failed_mono: "failed J gvks es err \<Longrightarrow> set es \<subseteq> set es' \<Longrightarrow> failed J gvks es' err"
  unfolding failed_def by blast

lemma goroutine_inv_mono:
  assumes "goroutine_inv J es err g st" and "set es \<subseteq> set es'" and "err \<noteq> None \<Longrightarrow> err' \<noteq> None"
  shows "goroutine_inv J es' err' g st"
  using assms dealt_with_mono [OF _ assms(2)] cleaned_mono [OF _ assms(2)]
  by (fastforce simp: goroutine_inv_def split: goroutine.splits option.splits)

lemma cleanup_item_cases:
  assumes "cleanup_item M A tc options c g item w = (r, w')"
  obtains
    (skip) "\<not> is_orphan M tc options g item" "r = None" "w' = w"
  | (deleted) d where "is_orphan M tc options g item" "r = None" "events w' = events w @ [EDelete item d]"
      "case d of None \<Rightarrow> True | Some e \<Rightarrow> IsNotFound e"
  | (failed) e where "is_orphan M tc options g item" "events w' = events w @ [EDelete item (Some e)]"
      "\<not> IsNotFound e" "r = Some (Errorf (''failed to delete '' @ resource_key_String (item_key g item)) e)"
  using assms k_call_events(6) [of A c item w]
  by (auto simp: cleanup_item_def split: if_splits prod.splits option.splits)

text \<open>
  One step of one goroutine: \<open>es\<close> before, \<open>es @ new\<close> after.
\<close>

lemma goroutine_step_inv:
  assumes inv: "goroutine_inv J es err g st" and g: "g \<in> set gvks"
    and step: "goroutine_step J c g st w = (st', w')" and running: "\<And>r. st \<noteq> GDone r"
  obtains new where "events w' = events w @ new"
    and "\<forall>e \<in> set new. cleanup_event J gvks (es @ new) e"
    and "goroutine_inv J (es @ new) (case err of Some e \<Rightarrow> Some e | None \<Rightarrow> group_error J g st') g st'"
    and "\<And>e. group_error J g st' = Some e \<Longrightarrow> failed J gvks (es @ new) e"
proof (cases st)
  case GStart
  obtain r w1 where call: "k_list (call_A J) c (list_gvk g) (sel J) w = (r, w1)" by fastforce
  let ?e = "EList (list_gvk g) (sel J) r"
  have ev: "events w' = events w @ [?e]" and
    st': "st' = (case r of Inr items \<Rightarrow> GItems items
      | Inl e \<Rightarrow> GDone (if IsNoMatchError e then None else Some (Errorf ''failed to list resources'' e)))"
    using call step k_call_events(2) [OF call]
    by (auto simp: goroutine_step_def GStart sel_def split: sum.splits)
  have ok: "\<forall>e \<in> set [?e]. cleanup_event J gvks (es @ [?e]) e"
    using g by (simp add: cleanup_event_def)
  show ?thesis
  proof (cases r)
    case (Inl e)
    have "failed J gvks (es @ [?e]) (Errorf (''failed to cleanup orphans for '' @ gvk_String (call_M J) g)
        (Errorf ''failed to list resources'' e))" if "\<not> IsNoMatchError e"
      using that g Inl by (auto simp: failed_def)
    then show ?thesis
      using that [OF ev ok] Inl st'
      by (auto simp: goroutine_inv_def cleaned_def group_error_def split: option.splits if_splits)
  next
    case (Inr items)
    have "goroutine_inv J (es @ [?e]) x g (GItems items)" for x
      using Inr by (auto simp: goroutine_inv_def intro!: exI [of _ "[]"])
    then show ?thesis using that [OF ev ok] Inr st' by (simp add: group_error_def)
  qed
next
  case (GItems items)
  show ?thesis
  proof (cases items)
    case Nil
    have "cleaned J g es" using inv GItems Nil unfolding cleaned_def goroutine_inv_def by auto
    with step GItems Nil that [of "[]"] show ?thesis
      by (auto simp: goroutine_step_def goroutine_inv_def group_error_def)
  next
    case (Cons item rest)
    with inv GItems obtain past where
      past: "EList (list_gvk g) (sel J) (Inr (past @ item # rest)) \<in> set es"
        "\<forall>i \<in> set past. dealt_with J g es i"
      by (auto simp: goroutine_inv_def)
    obtain r w1 where call: "cleanup_item (call_M J) (call_A J) (call_tc J) (call_options J) c g item w = (r, w1)"
      by fastforce
    have w': "w' = w1" and st': "st' = (case r of Some e \<Rightarrow> GDone (Some e) | None \<Rightarrow> GItems rest)"
      using step call GItems Cons by (auto simp: goroutine_step_def split: option.splits)
    have next_inv: "goroutine_inv J es' err' g (GItems rest)"
      if "set es \<subseteq> set es'" and "dealt_with J g es' item" for es' err'
    proof -
      have "\<forall>i \<in> set (past @ [item]). dealt_with J g es' i"
        using past(2) that dealt_with_mono by fastforce
      then show ?thesis using past(1) that(1)
        by (force simp: goroutine_inv_def intro: exI [of _ "past @ [item]"])
    qed
    have listed: "\<exists>items. EList (list_gvk g) (sel J) (Inr items) \<in> set es \<and> item \<in> set items"
      using past(1) by force
    from call show ?thesis
    proof (cases rule: cleanup_item_cases)
      case skip
      with w' st' next_inv [of es] that [of "[]"] show ?thesis
        by (simp add: dealt_with_def orphan_def group_error_def)
    next
      case (deleted d)
      have "cleanup_event J gvks (es @ [EDelete item d]) (EDelete item d)"
        using listed g deleted(1) by (auto simp: cleanup_event_def orphan_def)
      moreover have "dealt_with J g (es @ [EDelete item d]) item"
        using deleted(4) by (auto simp: dealt_with_def)
      ultimately show ?thesis
        using deleted(2,3) w' st' next_inv [of "es @ [EDelete item d]"] that [of "[EDelete item d]"]
        by (auto simp: group_error_def)
    next
      case (failed e)
      let ?new = "[EDelete item (Some e)]"
      have ev: "cleanup_event J gvks (es @ ?new) (EDelete item (Some e))"
        using listed g failed(1) by (auto simp: cleanup_event_def orphan_def)
      have fd: "failed J gvks (es @ ?new) (Errorf (''failed to cleanup orphans for '' @ gvk_String (call_M J) g)
          (Errorf (''failed to delete '' @ resource_key_String (item_key g item)) e))"
        using g failed(3) unfolding failed_def by force
      show ?thesis
        by (rule that [of ?new])
          (use failed(2,4) w' st' ev fd in
            \<open>simp_all add: group_error_def goroutine_inv_def del: append.simps split: option.splits\<close>)
    qed
  qed
next
  case (GDone r)
  with running show ?thesis by blast
qed

lemma pool_step_inv:
  assumes inv: "pool_inv J gvks w p" and run: "running p i"
  shows "pool_inv J gvks w (pool_step J i p)"
proof -
  let ?es = "added w (pool_world p)"
  obtain g st where gst: "goroutines p ! i = (g, st)" by fastforce
  obtain st' w' where step: "goroutine_step J (firstErr p \<noteq> None) g st (pool_world p) = (st', w')" by fastforce
  from run have i: "i < length (goroutines p)" and not_done: "\<And>r. st \<noteq> GDone r"
    using gst by (auto simp: running_def)
  have in_set: "(g, st) \<in> set (goroutines p)" using i gst by (metis nth_mem)
  with inv have g: "g \<in> set gvks" and ginv: "goroutine_inv J ?es (firstErr p) g st"
    by (force simp: pool_inv_def)+
  define err' where "err' = (case firstErr p of Some e \<Rightarrow> Some e | None \<Rightarrow> group_error J g st')"
  obtain new where new: "events w' = events (pool_world p) @ new"
      "\<forall>e \<in> set new. cleanup_event J gvks (?es @ new) e"
      "goroutine_inv J (?es @ new) err' g st'"
      "\<And>e. group_error J g st' = Some e \<Longrightarrow> failed J gvks (?es @ new) e"
    using goroutine_step_inv [OF ginv g step not_done] unfolding err'_def by metis
  have ext: "extends (pool_world p) w'" "extends w (pool_world p)"
    using new(1) extendsI inv by (auto simp: pool_inv_def)
  then have es': "added w w' = ?es @ new" "extends w w'"
    using added_trans [OF ext(2,1)] extends_trans [OF ext(2,1)] addedI [OF new(1)] by simp_all
  have others: "goroutine_inv J (?es @ new) err' g' st''" if "(g', st'') \<in> set (goroutines p)" for g' st''
  proof (rule goroutine_inv_mono)
    show "goroutine_inv J ?es (firstErr p) g' st''" using that inv by (auto simp: pool_inv_def)
  qed (auto simp: err'_def)
  have "failed J gvks (?es @ new) e" if "err' = Some e" for e
    using that new(4) inv failed_mono [of J gvks ?es e "?es @ new"]
    by (auto simp: err'_def pool_inv_def split: option.splits)
  moreover have "\<forall>e \<in> set (?es @ new). cleanup_event J gvks (?es @ new) e"
    using new(2) inv cleanup_event_mono [of J gvks ?es _ "?es @ new"] by (auto simp: pool_inv_def)
  moreover have "\<forall>(g', st'') \<in> set ((goroutines p)[i := (g, st')]). goroutine_inv J (?es @ new) err' g' st''"
    using others new(3) set_update_subset_insert [of "goroutines p" i "(g, st')"] by blast
  moreover have "map fst ((goroutines p)[i := (g, st')]) = gvks"
    using inv gst i by (auto simp: pool_inv_def map_update list_update_same_conv)
  moreover have "pool_step J i p = p\<lparr> goroutines := (goroutines p)[i := (g, st')], firstErr := err', pool_world := w' \<rparr>"
    using run by (simp add: pool_step_def gst step err'_def del: not_None_eq)
  ultimately show ?thesis
    using es' by (simp add: pool_inv_def)
qed

lemma pool_step_inv_any: "pool_inv J gvks w p \<Longrightarrow> pool_inv J gvks w (pool_step J i p)"
  using pool_step_inv [of J gvks w p i] by (cases "running p i") (simp_all add: pool_step_def)

lemma initial_pool_inv: "pool_inv J gvks w (initial_pool gvks w)"
  by (auto simp: pool_inv_def initial_pool_def goroutine_inv_def comp_def)

theorem cleanup_reachable_inv:
  "(cleanup_step J)\<^sup>*\<^sup>* p p' \<Longrightarrow> pool_inv J gvks w p \<Longrightarrow> pool_inv J gvks w p'"
  by (induction rule: rtranclp_induct) (auto elim!: cleanup_stepE intro: pool_step_inv)

subsection \<open>The scheduled run is a run of the step relation\<close>

lemma pool_step_reach: "(cleanup_step J)\<^sup>*\<^sup>* p (pool_step J i p)"
  using cleanup_step.move [of p i J] by (cases "running p i") (auto simp: pool_step_def)

lemma run_to_end_reach: "(cleanup_step J)\<^sup>*\<^sup>* p (run_to_end J i p)"
  by (induction J i p rule: run_to_end.induct)
    (subst run_to_end.simps, auto intro: rtranclp_trans [OF pool_step_reach])

lemma fold_reach: "(\<And>x p. (cleanup_step J)\<^sup>*\<^sup>* p (f x p)) \<Longrightarrow> (cleanup_step J)\<^sup>*\<^sup>* p (fold f xs p)"
  by (induction xs arbitrary: p) (auto intro: rtranclp_trans)

lemma run_pool_reach: "(cleanup_step J)\<^sup>*\<^sup>* p (run_pool J schedule p)"
  unfolding run_pool_def by (rule rtranclp_trans; rule fold_reach; rule pool_step_reach run_to_end_reach)

lemma length_pool_step [simp]: "length (goroutines (pool_step J i p)) = length (goroutines p)"
  by (auto simp: pool_step_def split: prod.splits)

lemma running_pool_step_other: "i \<noteq> j \<Longrightarrow> running (pool_step J i p) j = running p j"
  by (auto simp: pool_step_def running_def split: prod.splits)

lemma length_run_to_end [simp]: "length (goroutines (run_to_end J i p)) = length (goroutines p)"
  by (induction J i p rule: run_to_end.induct) (subst run_to_end.simps, simp)

lemma run_to_end_done: "\<not> running (run_to_end J i p) i"
  by (induction J i p rule: run_to_end.induct) (subst run_to_end.simps, simp)

lemma running_run_to_end_other: "i \<noteq> j \<Longrightarrow> running (run_to_end J i p) j = running p j"
  by (induction J i p rule: run_to_end.induct)
    (subst run_to_end.simps, simp add: running_pool_step_other)

lemma length_fold_run_to_end [simp]:
  "length (goroutines (fold (run_to_end J) xs p)) = length (goroutines p)"
  by (induction xs arbitrary: p) auto

lemma fold_run_to_end_running:
  "running (fold (run_to_end J) xs p) i \<Longrightarrow> running p i \<and> i \<notin> set xs"
proof (induction xs arbitrary: p)
  case (Cons x xs)
  then have "running (run_to_end J x p) i" and "i \<notin> set xs" by auto
  then show ?case
    using run_to_end_done [of J x p] running_run_to_end_other [of x i J p] by (cases "x = i") auto
qed simp

lemma final_iff: "final p \<longleftrightarrow> (\<forall>i. \<not> running p i)"
  by (auto simp: final_def running_def list_all_length case_prod_beta split: goroutine.splits)

lemma run_pool_final: "final (run_pool J schedule p)"
proof -
  have "length (goroutines (fold (pool_step J) schedule p)) = length (goroutines p)"
    by (induction schedule arbitrary: p) auto
  then show ?thesis
    using fold_run_to_end_running [of J "[0..<length (goroutines p)]" "fold (pool_step J) schedule p"]
    unfolding final_iff run_pool_def running_def by fastforce
qed

lemma run_to_end_step: "run_to_end J i (pool_step J i p) = run_to_end J i p"
  by (cases "running p i") (simp_all add: run_to_end.simps [of J i p] pool_step_def)

lemma run_to_end_idle: "\<not> running p i \<Longrightarrow> run_to_end J i p = p"
  by (simp add: run_to_end.simps)

lemma fold_run_to_end_final: "final p \<Longrightarrow> fold (run_to_end J) xs p = p"
  by (induction xs) (simp_all add: final_iff run_to_end_idle)

lemma reachable_schedule:
  "(cleanup_step J)\<^sup>*\<^sup>* p p' \<Longrightarrow> \<exists>schedule. p' = fold (pool_step J) schedule p"
proof (induction rule: rtranclp_induct)
  case base
  show ?case by (rule exI [of _ "[]"]) simp
next
  case (step y z)
  then obtain schedule i where "y = fold (pool_step J) schedule p" "z = pool_step J i y"
    by (auto elim: cleanup_stepE)
  then have "z = fold (pool_step J) (schedule @ [i]) p" by simp
  then show ?case ..
qed

definition cleanup_frame :: "machinery \<Rightarrow> 's api \<Rightarrow> tracking_client \<Rightarrow> string \<Rightarrow> string \<Rightarrow>
    (cleanup_options \<Rightarrow> cleanup_options) list \<Rightarrow> 's cleanup_call" where
  "cleanup_frame M A tc ownerLabelKey ownerLabelValue opts =
     \<lparr> call_M = M, call_A = A, call_tc = tc, call_key = ownerLabelKey, call_value = ownerLabelValue,
       call_options = fold (\<lambda>opt o'. opt o') opts \<lparr> ClusterScopedAllowList = None \<rparr> \<rparr>"

lemma CleanupOrphans_run: "CleanupOrphans M A schedule tc k v gvks opts w =
    (let p = run_pool (cleanup_frame M A tc k v opts) schedule (initial_pool gvks w) in (firstErr p, pool_world p))"
  by (simp add: CleanupOrphans_def cleanup_frame_def Let_def)

lemma CleanupOrphans_outcome:
  assumes "CleanupOrphans M A schedule tc k v gvks opts w = (r, w')"
  obtains p where "pool_inv (cleanup_frame M A tc k v opts) gvks w p" "final p" "firstErr p = r" "pool_world p = w'"
proof -
  let ?J = "cleanup_frame M A tc k v opts" and ?p = "run_pool (cleanup_frame M A tc k v opts) schedule (initial_pool gvks w)"
  have "pool_inv ?J gvks w ?p"
    by (rule cleanup_reachable_inv [OF run_pool_reach initial_pool_inv])
  moreover have "firstErr ?p = r" "pool_world ?p = w'"
    using assms by (simp_all add: CleanupOrphans_run Let_def)
  ultimately show ?thesis using that run_pool_final by blast
qed

lemma CleanupOrphans_emits:
  assumes "CleanupOrphans M A schedule tc k v gvks opts w = (r, w')"
  shows "emits (cleanup_event (cleanup_frame M A tc k v opts) gvks (added w w')) w w'"
proof -
  from assms obtain p where "pool_inv (cleanup_frame M A tc k v opts) gvks w p" "pool_world p = w'"
    by (rule CleanupOrphans_outcome)
  then show ?thesis by (auto simp: emits_def list_all_iff pool_inv_def)
qed

lemma CleanupOrphans_nil: "CleanupOrphans M A schedule tc k v [] opts w = (None, w)"
proof -
  have "\<not> running p i" if "goroutines p = []" for p :: "'a pool" and i
    using that by (simp add: running_def)
  then have "fold (pool_step J) schedule p = p" if "goroutines p = []" for p :: "'a pool" and J
    using that by (induction schedule) (simp_all add: pool_step_def)
  then show ?thesis
    by (simp add: CleanupOrphans_run run_pool_def initial_pool_def)
qed

subsection \<open>Goroutines in turn: the sequential reference\<close>

text \<open>
  Without preemption the goroutines run one after the other; a goroutine that starts after an error
  has been recorded runs on a cancelled context.
\<close>

fun cleanup_in_turn :: "machinery \<Rightarrow> 's api \<Rightarrow> tracking_client \<Rightarrow> string \<Rightarrow> string \<Rightarrow> cleanup_options \<Rightarrow> gvk list \<Rightarrow>
    go_error option \<Rightarrow> 's world \<Rightarrow> go_error option \<times> 's world" where
  "cleanup_in_turn M A tc key val options [] err w = (err, w)"
| "cleanup_in_turn M A tc key val options (g # gvks) err w =
     (case cleanupOrphansForGVK M A tc key val options (err \<noteq> None) g w of
        (r, w') \<Rightarrow> cleanup_in_turn M A tc key val options gvks
          (case err of Some e \<Rightarrow> Some e
           | None \<Rightarrow> map_option (Errorf (''failed to cleanup orphans for '' @ gvk_String M g)) r) w')"

definition finish_goroutine :: "'s cleanup_call \<Rightarrow> nat \<Rightarrow> gvk \<Rightarrow> go_error option \<times> 's world \<Rightarrow> 's pool \<Rightarrow> 's pool" where
  "finish_goroutine J i g rw p = p\<lparr> goroutines := (goroutines p)[i := (g, GDone (fst rw))],
     firstErr := (case firstErr p of Some e \<Rightarrow> Some e | None \<Rightarrow> group_error J g (GDone (fst rw))), pool_world := snd rw \<rparr>"

lemma run_to_end_items_at:
  "i < length (goroutines p) \<Longrightarrow> goroutines p ! i = (g, GItems items) \<Longrightarrow>
     run_to_end J i p = finish_goroutine J i g (cleanup_items (call_M J) (call_A J) (call_tc J) (call_options J)
       (firstErr p \<noteq> None) g items (pool_world p)) p"
proof (induction items arbitrary: p)
  case Nil
  then show ?case
    by (simp add: run_to_end.simps [of J i p] run_to_end_idle running_def pool_step_def goroutine_step_def finish_goroutine_def
        split: option.split)
next
  case (Cons item items)
  obtain r w' where one: "cleanup_item (call_M J) (call_A J) (call_tc J) (call_options J) (firstErr p \<noteq> None) g item (pool_world p) = (r, w')"
    by fastforce
  show ?case
  proof (cases r)
    case None
    let ?p = "p\<lparr> goroutines := (goroutines p)[i := (g, GItems items)], pool_world := w' \<rparr>"
    have "pool_step J i p = ?p"
      using Cons.prems one None by (simp add: pool_step_def running_def goroutine_step_def group_error_def split: option.split)
    then have "run_to_end J i p = run_to_end J i ?p"
      using Cons.prems by (simp add: run_to_end.simps [of J i p] running_def)
    also have "\<dots> = finish_goroutine J i g (cleanup_items (call_M J) (call_A J) (call_tc J) (call_options J)
       (firstErr p \<noteq> None) g items w') ?p"
      using Cons.IH [of ?p] Cons.prems by simp
    finally show ?thesis using one None by (simp add: finish_goroutine_def)
  next
    case (Some e)
    with Cons.prems one show ?thesis
      by (simp add: run_to_end.simps [of J i p] run_to_end_idle running_def pool_step_def goroutine_step_def finish_goroutine_def
          split: option.split)
  qed
qed

lemma run_to_end_start_at:
  assumes "i < length (goroutines p)" and "goroutines p ! i = (g, GStart)"
  shows "run_to_end J i p = finish_goroutine J i g (cleanupOrphansForGVK (call_M J) (call_A J) (call_tc J) (call_key J) (call_value J)
       (call_options J) (firstErr p \<noteq> None) g (pool_world p)) p"
proof -
  obtain r w' where list: "k_list (call_A J) (firstErr p \<noteq> None) (list_gvk g) [(call_key J, call_value J)] (pool_world p) = (r, w')"
    by fastforce
  show ?thesis
  proof (cases r)
    case (Inl e)
    with assms list show ?thesis
      by (simp add: run_to_end.simps [of J i p] run_to_end_idle running_def pool_step_def goroutine_step_def finish_goroutine_def
          cleanupOrphansForGVK_def split: option.split)
  next
    case (Inr items)
    let ?p = "p\<lparr> goroutines := (goroutines p)[i := (g, GItems items)], pool_world := w' \<rparr>"
    have "pool_step J i p = ?p"
      using assms list Inr by (simp add: pool_step_def running_def goroutine_step_def group_error_def split: option.split)
    then have "run_to_end J i p = run_to_end J i ?p"
      using assms by (simp add: run_to_end.simps [of J i p] running_def)
    also have "\<dots> = finish_goroutine J i g (cleanup_items (call_M J) (call_A J) (call_tc J) (call_options J)
       (firstErr p \<noteq> None) g items w') ?p"
      using run_to_end_items_at [of i ?p g items J] assms by simp
    finally show ?thesis using list Inr by (simp add: finish_goroutine_def cleanupOrphansForGVK_def)
  qed
qed

lemma run_in_turn:
  "m \<le> length gvks \<Longrightarrow> length (goroutines p) = length gvks \<Longrightarrow>
   (\<forall>i. m \<le> i \<and> i < length gvks \<longrightarrow> goroutines p ! i = (gvks ! i, GStart)) \<Longrightarrow>
   (let p' = fold (run_to_end J) [m..<length gvks] p in (firstErr p', pool_world p')) =
   cleanup_in_turn (call_M J) (call_A J) (call_tc J) (call_key J) (call_value J) (call_options J) (drop m gvks) (firstErr p) (pool_world p)"
proof (induction "length gvks - m" arbitrary: m p)
  case 0
  then show ?case by simp
next
  case (Suc n)
  then have m: "m < length gvks" by linarith
  let ?rw = "cleanupOrphansForGVK (call_M J) (call_A J) (call_tc J) (call_key J) (call_value J) (call_options J)
    (firstErr p \<noteq> None) (gvks ! m) (pool_world p)"
  let ?p = "finish_goroutine J m (gvks ! m) ?rw p"
  have run: "run_to_end J m p = ?p" using m Suc.prems by (intro run_to_end_start_at) auto
  have "(let p' = fold (run_to_end J) [Suc m..<length gvks] ?p in (firstErr p', pool_world p')) =
    cleanup_in_turn (call_M J) (call_A J) (call_tc J) (call_key J) (call_value J) (call_options J) (drop (Suc m) gvks) (firstErr ?p) (pool_world ?p)"
    using Suc.hyps(2) Suc.prems m by (intro Suc.hyps(1)) (auto simp: finish_goroutine_def)
  moreover have "fold (run_to_end J) [m..<length gvks] p = fold (run_to_end J) [Suc m..<length gvks] ?p"
    by (simp add: upt_conv_Cons [OF m] run)
  moreover have "drop m gvks = gvks ! m # drop (Suc m) gvks" using m by (simp add: Cons_nth_drop_Suc)
  ultimately show ?case
    by (simp add: finish_goroutine_def group_error_def split: prod.split option.split)
qed

lemma CleanupOrphans_in_turn:
  "CleanupOrphans M A [] tc key val gvks opts w =
   cleanup_in_turn M A tc key val (fold (\<lambda>opt o'. opt o') opts \<lparr> ClusterScopedAllowList = None \<rparr>) gvks None w"
proof -
  let ?J = "cleanup_frame M A tc key val opts"
  have "length (goroutines (initial_pool gvks w)) = length gvks" by (simp add: initial_pool_def)
  moreover have "\<forall>i. 0 \<le> i \<and> i < length gvks \<longrightarrow> goroutines (initial_pool gvks w) ! i = (gvks ! i, GStart)"
    by (simp add: initial_pool_def)
  ultimately have "(let p' = fold (run_to_end ?J) [0..<length gvks] (initial_pool gvks w) in (firstErr p', pool_world p')) =
    cleanup_in_turn (call_M ?J) (call_A ?J) (call_tc ?J) (call_key ?J) (call_value ?J) (call_options ?J) (drop 0 gvks)
      (firstErr (initial_pool gvks w)) (pool_world (initial_pool gvks w))"
    by (intro run_in_turn) simp_all
  then show ?thesis
    by (simp add: CleanupOrphans_run run_pool_def initial_pool_def cleanup_frame_def)
qed

subsection \<open>One kind\<close>

lemma run_pool_single:
  assumes "length (goroutines p) = 1"
  shows "run_pool J schedule p = run_to_end J 0 p"
proof -
  have "run_to_end J 0 (fold (pool_step J) schedule p) = run_to_end J 0 p"
    using assms
  proof (induction schedule arbitrary: p)
    case (Cons i schedule)
    have "run_to_end J 0 (pool_step J i p) = run_to_end J 0 p"
      using Cons.prems run_to_end_step [of J 0 p] by (cases "i = 0") (simp_all add: pool_step_def running_def)
    then show ?case using Cons by simp
  qed simp
  then show ?thesis using assms by (simp add: run_pool_def)
qed

subsection \<open>Theorems about CleanupOrphans\<close>

lemma dealt_with_iff: "dealt_with J g es item \<longleftrightarrow> (orphan J g item \<longrightarrow>
    EDelete item None \<in> set es \<or> (\<exists>e. EDelete item (Some e) \<in> set es \<and> IsNotFound e))"
  by (simp add: dealt_with_def split_option_ex)

text \<open>
  (C6) Only orphans are deleted. Under every interleaving of the goroutines and every behaviour of
  the API server, an object that \<open>CleanupOrphans\<close> asks the server to delete is one that a list
  call with the owner label returned for one of the given kinds, was not applied in this reconcile,
  is controlled by the owner (by UID, so a copied label is not enough), and passes the allow list
  of cluster-scoped names.
\<close>

theorem cleanup_deletes_only_orphans:
  assumes "CleanupOrphans M A schedule tc key val gvks [WithClusterScopedAllowList allow] w = (r, w')"
    and "EDelete item d \<in> set (added w w')"
  shows "\<exists>g \<in> set gvks.
    (\<exists>items. EList (list_gvk g) [(key, val)] (Inr items) \<in> set (added w w') \<and> item \<in> set items) \<and>
    \<not> IsTracked tc g (o_namespace item) (o_name item) \<and>
    (\<forall>cfg. ownership tc = Some cfg \<longrightarrow> IsControlledBy M item (Owner cfg)) \<and>
    IsAllowed allow g (o_namespace item) (o_name item)"
proof -
  from emits_added [OF CleanupOrphans_emits [OF assms(1)] assms(2)]
  obtain g where "g \<in> set gvks"
    and "\<exists>items. EList (list_gvk g) [(key, val)] (Inr items) \<in> set (added w w') \<and> item \<in> set items"
    and "is_orphan M tc \<lparr> ClusterScopedAllowList = allow \<rparr> g item"
    by (auto simp: cleanup_event_def orphan_def sel_def cleanup_frame_def WithClusterScopedAllowList_def)
  then show ?thesis
    by (intro bexI [of _ g]) (auto simp: is_orphan_def IsTracked_def item_key_def split: option.splits)
qed

text \<open>
  (C15) A successful cleanup is complete: for each kind the list call either reported that the kind
  is not installed, or returned a list all of whose orphans were deleted by this call or were found
  to be gone.
\<close>

theorem cleanup_success_complete:
  assumes "CleanupOrphans M A schedule tc key val gvks [WithClusterScopedAllowList allow] w = (None, w')"
    and "g \<in> set gvks"
  shows "(\<exists>e. EList (list_gvk g) [(key, val)] (Inl e) \<in> set (added w w') \<and> IsNoMatchError e) \<or>
    (\<exists>items. EList (list_gvk g) [(key, val)] (Inr items) \<in> set (added w w') \<and>
       (\<forall>item \<in> set items. is_orphan M tc \<lparr> ClusterScopedAllowList = allow \<rparr> g item \<longrightarrow>
          EDelete item None \<in> set (added w w') \<or>
          (\<exists>e. EDelete item (Some e) \<in> set (added w w') \<and> IsNotFound e)))"
proof -
  let ?J = "cleanup_frame M A tc key val [WithClusterScopedAllowList allow]"
  from CleanupOrphans_outcome [OF assms(1)] obtain p where p:
    "pool_inv ?J gvks w p" "final p" "firstErr p = None" "pool_world p = w'" by metis
  with assms(2) obtain st where st: "(g, st) \<in> set (goroutines p)"
    by (auto simp: pool_inv_def)
  with p(2) obtain res where "st = GDone res"
    by (auto simp: final_def list_all_iff split: goroutine.splits)
  with p st have "cleaned ?J g (added w w')"
    by (cases res) (auto simp: pool_inv_def goroutine_inv_def)
  then show ?thesis
    by (simp add: cleaned_def dealt_with_iff sel_def orphan_def cleanup_frame_def
        WithClusterScopedAllowList_def)
qed

text \<open>
  An error of \<open>CleanupOrphans\<close> wraps a real failure: a list call that failed for another reason
  than a missing kind, or a deletion that failed for another reason than the object being gone; and
  it keeps that failure's classification.
\<close>

theorem cleanup_error_cause:
  assumes "CleanupOrphans M A schedule tc key val gvks opts w = (Some err, w')"
  shows "\<exists>g \<in> set gvks. \<exists>e. error_kind_of err = error_kind_of e \<and>
    ((EList (list_gvk g) [(key, val)] (Inl e) \<in> set (added w w') \<and> \<not> IsNoMatchError e) \<or>
     (\<exists>item. EDelete item (Some e) \<in> set (added w w') \<and> \<not> IsNotFound e))"
proof -
  from CleanupOrphans_outcome [OF assms] have "failed (cleanup_frame M A tc key val opts) gvks (added w w') err"
    by (metis pool_inv_def)
  then obtain g p e where "g \<in> set gvks"
    and "err = Errorf (''failed to cleanup orphans for '' @ gvk_String M g) (Errorf p e)"
    and "(EList (list_gvk g) [(key, val)] (Inl e) \<in> set (added w w') \<and> \<not> IsNoMatchError e) \<or>
      (\<exists>item. EDelete item (Some e) \<in> set (added w w') \<and> \<not> IsNotFound e)"
    by (auto simp: failed_def sel_def cleanup_frame_def)
  then show ?thesis
    by (intro bexI [of _ g] exI [of _ e]) simp_all
qed


lemma CleanupOrphans_one:
  "CleanupOrphans M A schedule tc key val [g] opts w =
   (case cleanupOrphansForGVK M A tc key val (fold (\<lambda>opt o'. opt o') opts \<lparr> ClusterScopedAllowList = None \<rparr>) False g w of
      (r, w') \<Rightarrow> (map_option (Errorf (''failed to cleanup orphans for '' @ gvk_String M g)) r, w'))"
  by (simp add: CleanupOrphans_run run_pool_single run_to_end_start_at [where i = 0 and g = g] initial_pool_def cleanup_frame_def
      finish_goroutine_def group_error_def split: prod.split option.split)

text \<open>
  (C18) When no goroutine is preempted, the cleanup of several kinds is the loop over the kinds in
  their order, where each kind after a failure runs on the cancelled context and the first error is
  the one returned.
\<close>

theorem cleanup_without_preemption:
  "CleanupOrphans M A [] tc key val gvks [WithClusterScopedAllowList allow] w =
   cleanup_in_turn M A tc key val \<lparr> ClusterScopedAllowList = allow \<rparr> gvks None w"
  by (simp add: CleanupOrphans_in_turn WithClusterScopedAllowList_def)

text \<open>
  For a single kind the concurrent cleanup is the sequential loop \<open>cleanupOrphansForGVK\<close> with
  its error wrapped, whatever the schedule.
\<close>

theorem cleanup_single_kind:
  "CleanupOrphans M A schedule tc key val [g] [WithClusterScopedAllowList allow] w =
   (case cleanupOrphansForGVK M A tc key val \<lparr> ClusterScopedAllowList = allow \<rparr> False g w of
      (r, w') \<Rightarrow> (map_option (Errorf (''failed to cleanup orphans for '' @ gvk_String M g)) r, w'))"
  by (simp add: CleanupOrphans_one WithClusterScopedAllowList_def)

subsection \<open>A concrete cleanup\<close>

text \<open>
  An owner, an orphan it controls, and an object that carries the owner label but no controller
  reference.
\<close>

definition ex_gvk :: gvk where
  "ex_gvk = mk_gvk ''konflux.konflux-ci.dev'' ''v1alpha1'' ''KonfluxImageController''"

definition ex_owner :: kobj where
  "ex_owner = (new_object (mk_gvk ''konflux.konflux-ci.dev'' ''v1alpha1'' ''Konflux'') [] ''konflux''
     (BKonflux KonfluxSpec []))\<lparr> o_uid := ''u1'' \<rparr>"

definition ex_labelled :: "string \<Rightarrow> kobj" where
  "ex_labelled n = (new_object ex_gvk [] n (BOther ''cr'' JNull))\<lparr> o_labels := [(''owner'', ''konflux'')] \<rparr>"

definition ex_orphan :: kobj where
  "ex_orphan = (ex_labelled ''konflux-image-controller'')\<lparr> o_ownerRefs := [controller_ref ex_owner] \<rparr>"

definition ex_client :: tracking_client where
  "ex_client = NewClientWithOwnership \<lparr> Owner = ex_owner, OwnerLabelKey = ''owner'',
     ComponentLabelKey = ''component'', Component = ''konflux'', FieldManager = ''konflux-controller'' \<rparr>"

definition ex_allow :: allow_list where
  "ex_allow = Some [(ex_gvk, [''konflux-image-controller''])]"

definition ex_cleanup :: "nat list \<Rightarrow> go_error option \<times> kobj list world" where
  "ex_cleanup schedule = CleanupOrphans ref_machinery ref_api schedule ex_client ''owner'' ''konflux'' [ex_gvk]
     [WithClusterScopedAllowList ex_allow] (start [ex_orphan, ex_labelled ''other''])"

lemmas ex_defs = ex_gvk_def ex_owner_def ex_labelled_def ex_orphan_def ex_client_def ex_allow_def
  NewClientWithOwnership_def

lemma ex_cleanup_run: "ex_cleanup schedule = (None, \<lparr> cluster = [ex_labelled ''other''],
    events = [EList (list_gvk ex_gvk) [(''owner'', ''konflux'')] (Inr [ex_orphan, ex_labelled ''other'']),
              EDelete ex_orphan None] \<rparr>)"
  unfolding ex_cleanup_def CleanupOrphans_one
  by (simp add: WithClusterScopedAllowList_def cleanupOrphansForGVK_def cleanup_item_def is_orphan_def IsAllowed_def item_key_def
      api_defs ex_defs ref_defs list_gvk_def emit_def)

lemma added_start: "events w = [] \<Longrightarrow> added w w' = events w'"
  by (simp add: added_def)

theorem cleanup_deletes_only_orphans_witness:
  "\<exists>w'. snd (ex_cleanup [0, 0]) = w' \<and> EDelete ex_orphan None \<in> set (events w') \<and>
     \<not> IsTracked ex_client ex_gvk [] ''konflux-image-controller'' \<and>
     IsControlledBy ref_machinery ex_orphan ex_owner"
proof -
  have run: "CleanupOrphans ref_machinery ref_api [0, 0] ex_client ''owner'' ''konflux'' [ex_gvk]
      [WithClusterScopedAllowList ex_allow] (start [ex_orphan, ex_labelled ''other'']) =
      (None, snd (ex_cleanup [0, 0]))"
    using ex_cleanup_run [of "[0, 0]"] by (simp add: ex_cleanup_def)
  have ev: "EDelete ex_orphan None \<in> set (added (start [ex_orphan, ex_labelled ''other'']) (snd (ex_cleanup [0, 0])))"
    by (simp add: ex_cleanup_run added_start start_def)
  from cleanup_deletes_only_orphans [OF run ev] show ?thesis
    by (auto simp: ex_cleanup_run) (simp_all add: ex_defs ref_defs)
qed

theorem cleanup_success_complete_witness:
  "is_orphan ref_machinery ex_client \<lparr> ClusterScopedAllowList = ex_allow \<rparr> ex_gvk ex_orphan \<and>
   (\<exists>d. EDelete ex_orphan d \<in> set (events (snd (ex_cleanup []))))"
proof -
  have run: "CleanupOrphans ref_machinery ref_api [] ex_client ''owner'' ''konflux'' [ex_gvk]
      [WithClusterScopedAllowList ex_allow] (start [ex_orphan, ex_labelled ''other'']) =
      (None, snd (ex_cleanup []))"
    using ex_cleanup_run [of "[]"] by (simp add: ex_cleanup_def)
  have orph: "is_orphan ref_machinery ex_client \<lparr> ClusterScopedAllowList = ex_allow \<rparr> ex_gvk ex_orphan"
    by (simp add: is_orphan_def IsAllowed_def item_key_def ex_defs ref_defs)
  from cleanup_success_complete [OF run, of ex_gvk] orph show ?thesis
    by (auto simp: ex_cleanup_run added_start start_def)
qed

definition ex_broken_api :: "kobj list api" where
  "ex_broken_api = ref_api\<lparr> api_delete := (\<lambda>c obj s. (Some (ApiError OtherError ''forbidden''), s)) \<rparr>"

definition ex_failure :: "go_error option \<times> kobj list world" where
  "ex_failure = CleanupOrphans ref_machinery ex_broken_api [] ex_client ''owner'' ''konflux'' [ex_gvk]
     [WithClusterScopedAllowList ex_allow] (start [ex_orphan])"

lemma ex_failure_run: "\<exists>err. ex_failure = (Some err, \<lparr> cluster = [ex_orphan],
    events = [EList (list_gvk ex_gvk) [(''owner'', ''konflux'')] (Inr [ex_orphan]),
              EDelete ex_orphan (Some (ApiError OtherError ''forbidden''))] \<rparr>)"
  unfolding ex_failure_def CleanupOrphans_one
  by (simp add: WithClusterScopedAllowList_def cleanupOrphansForGVK_def cleanup_item_def is_orphan_def IsAllowed_def item_key_def
      IgnoreNotFound_def IsNotFound_def ex_broken_api_def api_defs ex_defs ref_defs list_gvk_def emit_def)

theorem cleanup_error_cause_witness:
  "\<exists>err w'. ex_failure = (Some err, w') \<and> error_kind_of err = Some OtherError"
proof -
  obtain err w' where run: "ex_failure = (Some err, w')" and
    w': "w' = \<lparr> cluster = [ex_orphan], events = [EList (list_gvk ex_gvk) [(''owner'', ''konflux'')] (Inr [ex_orphan]),
              EDelete ex_orphan (Some (ApiError OtherError ''forbidden''))] \<rparr>"
    using ex_failure_run by auto
  from cleanup_error_cause [OF run [unfolded ex_failure_def]] w' have "error_kind_of err = Some OtherError"
    by (auto simp: added_start start_def)
  with run show ?thesis by auto
qed

end
