(* ===== verification/Conditions.thy ===== *)
theory Conditions
  imports Tracking
begin

text \<open>
  Status conditions (\<open>internal/condition\<close>): setting and clearing conditions, the readiness of
  Deployments, the aggregation of component readiness into the parent's \<open>Ready\<close> condition, and the
  error handler every reconciler reports through. The functions mutate the resource they are given;
  here they return it.
\<close>

section \<open>Constants\<close>

abbreviation TypeReady :: string where "TypeReady \<equiv> ''Ready''"
abbreviation ReasonAllComponentsReady :: string where "ReasonAllComponentsReady \<equiv> ''AllComponentsReady''"
abbreviation ReasonComponentsNotReady :: string where "ReasonComponentsNotReady \<equiv> ''ComponentsNotReady''"
abbreviation ReasonDeploymentReady :: string where "ReasonDeploymentReady \<equiv> ''DeploymentReady''"
abbreviation ReasonDeploymentNotReady :: string where "ReasonDeploymentNotReady \<equiv> ''DeploymentNotReady''"
abbreviation ReasonApplyFailed :: string where "ReasonApplyFailed \<equiv> ''ApplyFailed''"
abbreviation ReasonCleanupFailed :: string where "ReasonCleanupFailed \<equiv> ''CleanupFailed''"
abbreviation ReasonStatusUpdateFailed :: string where "ReasonStatusUpdateFailed \<equiv> ''StatusUpdateFailed''"
abbreviation ReasonNamespaceCreationFailed :: string where "ReasonNamespaceCreationFailed \<equiv> ''NamespaceCreationFailed''"
abbreviation ReasonSecretCreationFailed :: string where "ReasonSecretCreationFailed \<equiv> ''SecretCreationFailed''"
abbreviation ReasonConfigMapFailed :: string where "ReasonConfigMapFailed \<equiv> ''ConfigMapFailed''"
abbreviation ReasonSubCRStatusFailed :: string where "ReasonSubCRStatusFailed \<equiv> ''SubCRStatusFailed''"
abbreviation ReasonCertManagerNotInstalled :: string where "ReasonCertManagerNotInstalled \<equiv> ''CertManagerNotInstalled''"
abbreviation ReasonCertManagerInstallationCheckFailed :: string where
  "ReasonCertManagerInstallationCheckFailed \<equiv> ''CertManagerInstallationCheckFailed''"
abbreviation ReasonCertManagerInstalled :: string where "ReasonCertManagerInstalled \<equiv> ''CertManagerInstalled''"

abbreviation KonfluxOwnerLabel :: string where "KonfluxOwnerLabel \<equiv> ''konflux.konflux-ci.dev/owner''"
abbreviation KonfluxComponentLabel :: string where "KonfluxComponentLabel \<equiv> ''konflux.konflux-ci.dev/component''"
abbreviation ConditionTypeCertManagerAvailable :: string where
  "ConditionTypeCertManagerAvailable \<equiv> ''CertManagerAvailable''"

section \<open>Operations\<close>

definition mk_condition :: "string \<Rightarrow> condition_status \<Rightarrow> string \<Rightarrow> string \<Rightarrow> condition" where
  "mk_condition t st r m = \<lparr> ctype = t, cstatus = st, creason = r, cmessage = m, observedGeneration = 0 \<rparr>"

definition SetCondition :: "machinery \<Rightarrow> kobj \<Rightarrow> condition \<Rightarrow> kobj" where
  "SetCondition M obj c =
     (let c = c\<lparr> observedGeneration := o_generation obj \<rparr>
      in SetConditions obj (SetStatusCondition M (GetConditions obj) c))"

definition SetFailedCondition :: "machinery \<Rightarrow> kobj \<Rightarrow> string \<Rightarrow> string \<Rightarrow> go_error \<Rightarrow> kobj" where
  "SetFailedCondition M obj conditionType reason err =
     SetCondition M obj (mk_condition conditionType CFalse reason (error_text err))"

definition CleanupStaleConditions :: "kobj \<Rightarrow> (condition \<Rightarrow> bool) \<Rightarrow> kobj" where
  "CleanupStaleConditions obj shouldKeep = SetConditions obj (filter shouldKeep (GetConditions obj))"

text \<open>
  A listed item read as \<open>*appsv1.Deployment\<close>; the typed list call decodes every item into this
  struct, so an object without these fields reads as the zero value.
\<close>

definition zero_deployment :: deployment where
  "zero_deployment = \<lparr> dep_replicas = None, dep_template = \<lparr> pt_labels = [], pt_annotations = [], pt_spec = PodSpec \<rparr>,
     dep_spec_rest = JNull, statusReplicas = 0, readyReplicas = 0, updatedReplicas = 0,
     availableReplicas = 0, unavailableReplicas = 0, dep_conditions = [] \<rparr>"

definition as_deployment :: "kobj \<Rightarrow> deployment" where
  "as_deployment obj = (case o_body obj of BDeployment d \<Rightarrow> d | _ \<Rightarrow> zero_deployment)"

definition IsDeploymentReady :: "kobj \<Rightarrow> bool" where
  "IsDeploymentReady obj = (let d = as_deployment obj in
     readyReplicas d = statusReplicas d \<and> statusReplicas d > 0 \<and> updatedReplicas d = statusReplicas d)"

fun deployment_problems :: "deployment_condition list \<Rightarrow> string \<Rightarrow> string" where
  "deployment_problems [] message = message"
| "deployment_problems (c # cs) message =
     (let m1 = (if dc_type c = DeploymentProgressing \<and> dc_status c = CFalse
                then message @ '' - '' @ dc_reason c @ '': '' @ dc_message c else message);
          m2 = (if dc_type c = DeploymentReplicaFailure \<and> dc_status c = CTrue
                then m1 @ '' - ReplicaFailure: '' @ dc_message c else m1)
      in deployment_problems cs m2)"

definition DeploymentCondition :: "kobj \<Rightarrow> condition" where
  "DeploymentCondition obj =
     (let d = as_deployment obj;
          conditionType = o_namespace obj @ ''/'' @ o_name obj;
          replicas = show_int (statusReplicas d)
      in if IsDeploymentReady obj
         then mk_condition conditionType CTrue ReasonDeploymentReady
                (''Deployment has '' @ show_int (readyReplicas d) @ ''/'' @ replicas @ '' replicas ready'')
         else mk_condition conditionType CFalse ReasonDeploymentNotReady
                (deployment_problems (dep_conditions d)
                  (''Ready: '' @ show_int (readyReplicas d) @ ''/'' @ replicas @
                   '', Updated: '' @ show_int (updatedReplicas d) @ ''/'' @ replicas)))"

record deployment_status_summary =
  AllReady :: bool
  TotalCount :: nat
  NotReadyNames :: "string list"
  SeenConditionTypes :: "string set"

fun SetDeploymentConditions_loop :: "machinery \<Rightarrow> kobj list \<Rightarrow> kobj \<Rightarrow> deployment_status_summary \<Rightarrow>
    kobj \<times> deployment_status_summary" where
  "SetDeploymentConditions_loop M [] obj summary = (obj, summary)"
| "SetDeploymentConditions_loop M (d # ds) obj summary =
     (let cond = DeploymentCondition d;
          s1 = summary\<lparr> SeenConditionTypes := insert (ctype cond) (SeenConditionTypes summary) \<rparr>;
          s2 = (if \<not> IsDeploymentReady d
                then s1\<lparr> AllReady := False, NotReadyNames := NotReadyNames s1 @ [o_name d] \<rparr> else s1)
      in SetDeploymentConditions_loop M ds (SetCondition M obj cond) s2)"

definition SetDeploymentConditions :: "machinery \<Rightarrow> kobj \<Rightarrow> kobj list \<Rightarrow> kobj \<times> deployment_status_summary" where
  "SetDeploymentConditions M obj deployments =
     SetDeploymentConditions_loop M deployments obj
       \<lparr> AllReady = True, TotalCount = length deployments, NotReadyNames = [], SeenConditionTypes = {} \<rparr>"

definition SetOverallReadyCondition :: "machinery \<Rightarrow> kobj \<Rightarrow> deployment_status_summary \<Rightarrow> kobj" where
  "SetOverallReadyCondition M obj summary =
     (if AllReady summary
      then SetCondition M obj (mk_condition TypeReady CTrue ReasonAllComponentsReady
             (if TotalCount summary = 0 then ''Component ready (no deployments to track)''
              else ''All '' @ show_nat (TotalCount summary) @ '' deployments are ready''))
      else SetCondition M obj (mk_condition TypeReady CFalse ReasonComponentsNotReady
             (''Deployments not ready: '' @ show_strings (NotReadyNames summary))))"

definition IsConditionTrue :: "machinery \<Rightarrow> kobj \<Rightarrow> string \<Rightarrow> bool" where
  "IsConditionTrue M obj conditionType =
     (case FindStatusCondition M (GetConditions obj) conditionType of
        None \<Rightarrow> False | Some c \<Rightarrow> cstatus c = CTrue)"

definition IsReady :: "machinery \<Rightarrow> kobj \<Rightarrow> bool" where
  "IsReady M k = (case FindStatusCondition M (GetConditions k) ''Ready'' of
     None \<Rightarrow> False | Some c \<Rightarrow> cstatus c = CTrue)"

definition ReadyConditionMessage :: "machinery \<Rightarrow> kobj \<Rightarrow> string" where
  "ReadyConditionMessage M k = (case FindStatusCondition M (GetConditions k) ''Ready'' of
     None \<Rightarrow> ''konflux Ready condition not found in status''
   | Some c \<Rightarrow> ''konflux Ready='' @ show_status (cstatus c) @ '' reason='' @ creason c @ '' message='' @ cmessage c)"

record sub_cr_status =
  scs_Name :: string
  scs_Ready :: bool

fun AggregateReadiness :: "sub_cr_status list \<Rightarrow> bool \<times> string list" where
  "AggregateReadiness [] = (True, [])"
| "AggregateReadiness (s # ss) = (case AggregateReadiness ss of (allReady, reasons) \<Rightarrow>
     if \<not> scs_Ready s then (False, (scs_Name s @ '' is not ready'') # reasons) else (allReady, reasons))"

definition SetAggregatedReadyCondition :: "machinery \<Rightarrow> kobj \<Rightarrow> sub_cr_status list \<Rightarrow> kobj" where
  "SetAggregatedReadyCondition M obj subCRStatuses =
     (case AggregateReadiness subCRStatuses of (allReady, notReadyReasons) \<Rightarrow>
        if allReady
        then SetCondition M obj (mk_condition TypeReady CTrue ReasonAllComponentsReady
               (''All '' @ show_nat (length subCRStatuses) @ '' components are ready''))
        else SetCondition M obj (mk_condition TypeReady CFalse ReasonComponentsNotReady
               (Join notReadyReasons ''; '')))"

definition prefixed_type :: "string \<Rightarrow> condition \<Rightarrow> string" where
  "prefixed_type conditionPrefix c = conditionPrefix @ ''.'' @ ReplaceAll (ctype c) (CHR ''/'') (CHR ''.'')"

definition prefixed_condition :: "string \<Rightarrow> condition \<Rightarrow> condition" where
  "prefixed_condition conditionPrefix c = \<lparr> ctype = prefixed_type conditionPrefix c, cstatus = cstatus c,
     creason = creason c, cmessage = cmessage c, observedGeneration = observedGeneration c \<rparr>"

definition CopySubCRStatus :: "machinery \<Rightarrow> kobj \<Rightarrow> kobj \<Rightarrow> string \<Rightarrow> kobj \<times> sub_cr_status" where
  "CopySubCRStatus M parent subCR conditionPrefix =
     (let prefixWithDot = conditionPrefix @ ''.'';
          updatedConditions = prefixed_type conditionPrefix ` set (GetConditions subCR);
          parent1 = fold (\<lambda>c p. SetCondition M p (prefixed_condition conditionPrefix c)) (GetConditions subCR) parent;
          newConditions = filter (\<lambda>c. \<not> (HasPrefix (ctype c) prefixWithDot \<and> ctype c \<notin> updatedConditions))
                            (GetConditions parent1)
      in (SetConditions parent1 newConditions,
          \<lparr> scs_Name = conditionPrefix, scs_Ready = IsConditionTrue M subCR TypeReady \<rparr>))"

definition deployment_list_gvk :: gvk where
  "deployment_list_gvk = mk_gvk ''apps'' ''v1'' ''DeploymentList''"

definition UpdateComponentStatuses :: "machinery \<Rightarrow> 's api \<Rightarrow> kobj \<Rightarrow> 's world \<Rightarrow> kobj result \<times> 's world" where
  "UpdateComponentStatuses M A cr w =
     (case k_list A False deployment_list_gvk [(KonfluxOwnerLabel, o_name cr)] w of
        (Inl e, w') \<Rightarrow> (Inl (Errorf ''failed to list owned deployments'' e), w')
      | (Inr deployments, w') \<Rightarrow>
          (case SetDeploymentConditions M cr deployments of (cr1, summary) \<Rightarrow>
            let cr2 = CleanupStaleConditions cr1
                  (\<lambda>c. ctype c = TypeReady \<or> ctype c \<in> SeenConditionTypes summary)
            in (Inr (SetOverallReadyCondition M cr2 summary), w')))"

record dependency_override =
  do_ConditionType :: string
  do_Reason :: string
  do_Message :: string

fun OverrideReadyIfDependencyFalse :: "machinery \<Rightarrow> kobj \<Rightarrow> dependency_override list \<Rightarrow> kobj" where
  "OverrideReadyIfDependencyFalse M obj [] = obj"
| "OverrideReadyIfDependencyFalse M obj (dep # deps) =
     (case FindStatusCondition M (GetConditions obj) (do_ConditionType dep) of
        None \<Rightarrow> OverrideReadyIfDependencyFalse M obj deps
      | Some c \<Rightarrow> if cstatus c = CFalse
          then SetCondition M obj (mk_condition TypeReady CFalse (do_Reason dep) (do_Message dep))
          else OverrideReadyIfDependencyFalse M obj deps)"

section \<open>Error handler\<close>

record ctrl_result =
  RequeueAfter :: int

definition no_requeue :: ctrl_result where
  "no_requeue = \<lparr> RequeueAfter = 0 \<rparr>"

text \<open>
  What a reconcile returns, with the resource as it stands in memory at the return (\<^const>\<open>None\<close> when it
  could not be fetched): the status update writes the server's answer back into it, a failed
  update leaves it as it was.
\<close>

record 's outcome =
  out_result :: ctrl_result
  out_err :: "go_error option"
  out_cr :: "kobj option"
  out_world :: "'s world"

definition after_update :: "kobj \<Rightarrow> kobj result \<Rightarrow> kobj" where
  "after_update cr r = (case r of Inl e \<Rightarrow> cr | Inr cr' \<Rightarrow> cr')"

definition Handle :: "machinery \<Rightarrow> 's api \<Rightarrow> kobj \<Rightarrow> go_error \<Rightarrow> string \<Rightarrow> string \<Rightarrow> 's world \<Rightarrow> 's outcome" where
  "Handle M A cr err reason operation w =
     (let cr1 = SetFailedCondition M cr TypeReady reason (Errorf operation err)
      in case k_status_update A cr1 w of (r, w') \<Rightarrow>
           \<lparr> out_result = no_requeue, out_err = Some err, out_cr = Some (after_update cr1 r), out_world = w' \<rparr>)"

definition HandleApplyError :: "machinery \<Rightarrow> 's api \<Rightarrow> kobj \<Rightarrow> go_error \<Rightarrow> 's world \<Rightarrow> 's outcome" where
  "HandleApplyError M A cr err = Handle M A cr err ReasonApplyFailed ''apply manifests''"

definition HandleCleanupError :: "machinery \<Rightarrow> 's api \<Rightarrow> kobj \<Rightarrow> go_error \<Rightarrow> 's world \<Rightarrow> 's outcome" where
  "HandleCleanupError M A cr err = Handle M A cr err ReasonCleanupFailed ''cleanup orphaned resources''"

definition HandleStatusUpdateError :: "machinery \<Rightarrow> 's api \<Rightarrow> kobj \<Rightarrow> go_error \<Rightarrow> 's world \<Rightarrow> 's outcome" where
  "HandleStatusUpdateError M A cr err = Handle M A cr err ReasonStatusUpdateFailed ''update component statuses''"

definition HandleWithReason :: "machinery \<Rightarrow> 's api \<Rightarrow> kobj \<Rightarrow> go_error \<Rightarrow> string \<Rightarrow> string \<Rightarrow> 's world \<Rightarrow> 's outcome" where
  "HandleWithReason = Handle"

section \<open>Conditions as a map\<close>

text \<open>
  The abstract view: the conditions of a resource as a map from type to condition. Under the laws
  of \<open>SetStatusCondition\<close> the operations above are map updates and restrictions.
\<close>

definition conds :: "kobj \<Rightarrow> string \<rightharpoonup> condition" where
  "conds obj t = find_key ctype t (GetConditions obj)"

lemma find_key_filter_key: "find_key key k (filter (\<lambda>x. P (key x)) xs) = (if P k then find_key key k xs else None)"
  by (induction xs) auto

lemma conds_SetCondition:
  assumes "condition_laws M"
  shows "conds (SetCondition M obj c) = (conds obj)(ctype c \<mapsto> c\<lparr> observedGeneration := o_generation obj \<rparr>)"
  using assms by (intro ext) (simp add: conds_def SetCondition_def condition_laws_def)

lemma SetCondition_other [simp]:
  "o_generation (SetCondition M obj c) = o_generation obj"
  "o_name (SetCondition M obj c) = o_name obj"
  "o_namespace (SetCondition M obj c) = o_namespace obj"
  "o_gvk (SetCondition M obj c) = o_gvk obj"
  "o_uid (SetCondition M obj c) = o_uid obj"
  "o_body (SetCondition M obj c) = o_body obj"
  by (simp_all add: SetCondition_def Let_def)

lemma conds_filter: "conds (SetConditions obj (filter (\<lambda>c. P (ctype c)) (GetConditions obj))) = conds obj |` {t. P t}"
  by (rule ext) (simp add: conds_def find_key_filter_key restrict_map_def)

lemma find_condition: "condition_laws M \<Longrightarrow> FindStatusCondition M (GetConditions obj) t = conds obj t"
  by (simp add: condition_laws_def conds_def)

lemma IsConditionTrue_conds: "condition_laws M \<Longrightarrow>
    IsConditionTrue M obj t \<longleftrightarrow> (\<exists>c. conds obj t = Some c \<and> cstatus c = CTrue)"
  by (auto simp: IsConditionTrue_def find_condition split: option.splits)

lemma IsReady_IsConditionTrue: "IsReady M obj = IsConditionTrue M obj TypeReady"
  by (simp add: IsReady_def IsConditionTrue_def)

lemma IsConditionTrue_SetCondition: "condition_laws M \<Longrightarrow>
    IsConditionTrue M (SetCondition M obj c) t = (if t = ctype c then cstatus c = CTrue else IsConditionTrue M obj t)"
  by (auto simp: IsConditionTrue_conds conds_SetCondition)

lemma mk_condition_simps [simp]:
  "ctype (mk_condition t st r m) = t" "cstatus (mk_condition t st r m) = st"
  "creason (mk_condition t st r m) = r" "cmessage (mk_condition t st r m) = m"
  by (simp_all add: mk_condition_def)

lemma dom_conds: "dom (conds obj) = ctype ` set (GetConditions obj)"
  using find_key_None_iff [of ctype _ "GetConditions obj"] by (auto simp: conds_def dom_def)

text \<open>Setting a sequence of conditions.\<close>

definition set_all_conditions :: "machinery \<Rightarrow> ('a \<Rightarrow> condition) \<Rightarrow> 'a list \<Rightarrow> kobj \<Rightarrow> kobj" where
  "set_all_conditions M f xs obj = fold (\<lambda>x p. SetCondition M p (f x)) xs obj"

lemma set_all_conditions_other [simp]:
  "o_generation (set_all_conditions M f xs obj) = o_generation obj"
  "o_name (set_all_conditions M f xs obj) = o_name obj"
  "o_namespace (set_all_conditions M f xs obj) = o_namespace obj"
  "o_gvk (set_all_conditions M f xs obj) = o_gvk obj"
  "o_uid (set_all_conditions M f xs obj) = o_uid obj"
  "o_body (set_all_conditions M f xs obj) = o_body obj"
  unfolding set_all_conditions_def by (induction xs arbitrary: obj) auto

lemma conds_set_all:
  assumes "condition_laws M"
  shows "conds (set_all_conditions M f xs obj) =
    conds obj ++ map_of (rev (map (\<lambda>x. (ctype (f x), (f x)\<lparr> observedGeneration := o_generation obj \<rparr>)) xs))"
  unfolding set_all_conditions_def
  by (induction xs arbitrary: obj) (auto simp: conds_SetCondition [OF assms])

lemma conds_set_all_other: "condition_laws M \<Longrightarrow> t \<notin> (ctype \<circ> f) ` set xs \<Longrightarrow>
    conds (set_all_conditions M f xs obj) t = conds obj t"
  by (auto simp: conds_set_all map_add_def map_of_eq_None_iff [THEN iffD2] image_iff split: option.splits
      dest!: map_of_SomeD)

lemma conds_set_all_in:
  assumes "condition_laws M" and "distinct (map (ctype \<circ> f) xs)" and "x \<in> set xs"
  shows "conds (set_all_conditions M f xs obj) (ctype (f x)) = Some ((f x)\<lparr> observedGeneration := o_generation obj \<rparr>)"
proof -
  let ?kv = "map (\<lambda>x. (ctype (f x), (f x)\<lparr> observedGeneration := o_generation obj \<rparr>)) xs"
  have "map fst ?kv = map (ctype \<circ> f) xs" by simp
  then have "distinct (map fst (rev ?kv))" using assms(2) by (metis distinct_rev rev_map)
  then have "map_of (rev ?kv) (ctype (f x)) = Some ((f x)\<lparr> observedGeneration := o_generation obj \<rparr>)"
    using assms(3) by (intro map_of_is_SomeI) auto
  then show ?thesis by (simp add: conds_set_all [OF assms(1)] map_add_def)
qed

lemma dom_conds_set_all: "condition_laws M \<Longrightarrow>
    dom (conds (set_all_conditions M f xs obj)) = dom (conds obj) \<union> (ctype \<circ> f) ` set xs"
  by (auto simp: conds_set_all dom_map_of_conv_image_fst image_image)

section \<open>Deployments\<close>

lemma ctype_DeploymentCondition: "ctype (DeploymentCondition d) = o_namespace d @ ''/'' @ o_name d"
  by (simp add: DeploymentCondition_def Let_def)

lemma cstatus_DeploymentCondition: "cstatus (DeploymentCondition d) = (if IsDeploymentReady d then CTrue else CFalse)"
  by (simp add: DeploymentCondition_def Let_def)

lemma DeploymentCondition_not_Ready: "ctype (DeploymentCondition d) \<noteq> TypeReady"
proof
  assume "ctype (DeploymentCondition d) = TypeReady"
  then have "CHR ''/'' \<in> set TypeReady" by (metis ctype_DeploymentCondition in_set_conv_decomp append_Cons)
  then show False by simp
qed

lemma SetDeploymentConditions_loop_closed:
  "SetDeploymentConditions_loop M ds obj s =
     (set_all_conditions M DeploymentCondition ds obj,
      \<lparr> AllReady = AllReady s \<and> list_all IsDeploymentReady ds, TotalCount = TotalCount s,
        NotReadyNames = NotReadyNames s @ map o_name (filter (\<lambda>d. \<not> IsDeploymentReady d) ds),
        SeenConditionTypes = SeenConditionTypes s \<union> (ctype \<circ> DeploymentCondition) ` set ds \<rparr>)"
  by (induction ds arbitrary: obj s) (simp_all add: Let_def set_all_conditions_def del: insert_iff)

definition deployment_summary :: "kobj list \<Rightarrow> deployment_status_summary" where
  "deployment_summary ds = \<lparr> AllReady = list_all IsDeploymentReady ds, TotalCount = length ds,
     NotReadyNames = map o_name (filter (\<lambda>d. \<not> IsDeploymentReady d) ds),
     SeenConditionTypes = (ctype \<circ> DeploymentCondition) ` set ds \<rparr>"

lemma SetDeploymentConditions_closed:
  "SetDeploymentConditions M obj ds = (set_all_conditions M DeploymentCondition ds obj, deployment_summary ds)"
  by (simp add: SetDeploymentConditions_def SetDeploymentConditions_loop_closed deployment_summary_def)

lemma SetOverallReadyCondition_ex:
  "\<exists>c. SetOverallReadyCondition M obj s = SetCondition M obj c \<and> ctype c = TypeReady \<and>
     cstatus c = (if AllReady s then CTrue else CFalse)"
  by (cases "AllReady s") (auto simp: SetOverallReadyCondition_def intro: exI [of _ "mk_condition _ _ _ _"])

definition seen_or_ready :: "kobj list \<Rightarrow> string set" where
  "seen_or_ready ds = {t. t = TypeReady \<or> t \<in> SeenConditionTypes (deployment_summary ds)}"

lemma seen_or_ready: "seen_or_ready ds = insert TypeReady ((\<lambda>d. o_namespace d @ ''/'' @ o_name d) ` set ds)"
  by (auto simp: seen_or_ready_def deployment_summary_def ctype_DeploymentCondition)

lemma UpdateComponentStatuses_ok:
  assumes "UpdateComponentStatuses M A cr w = (Inr cr', w')"
  obtains ds where "events w' = events w @ [EList deployment_list_gvk [(KonfluxOwnerLabel, o_name cr)] (Inr ds)]"
    and "cr' = SetOverallReadyCondition M (CleanupStaleConditions (set_all_conditions M DeploymentCondition ds cr)
          (\<lambda>c. ctype c = TypeReady \<or> ctype c \<in> SeenConditionTypes (deployment_summary ds))) (deployment_summary ds)"
  using assms k_call_events(2) [of A False deployment_list_gvk "[(KonfluxOwnerLabel, o_name cr)]" w]
  by (auto simp: UpdateComponentStatuses_def SetDeploymentConditions_closed Let_def split: prod.splits sum.splits)

lemma UpdateComponentStatuses_conds:
  assumes "condition_laws M" and "UpdateComponentStatuses M A cr w = (Inr cr', w')"
  obtains ds ready where "events w' = events w @ [EList deployment_list_gvk [(KonfluxOwnerLabel, o_name cr)] (Inr ds)]"
    and "conds cr' = (conds (set_all_conditions M DeploymentCondition ds cr) |` seen_or_ready ds) (TypeReady \<mapsto> ready)"
    and "cstatus ready = (if list_all IsDeploymentReady ds then CTrue else CFalse)"
    and "o_name cr' = o_name cr" and "o_body cr' = o_body cr" and "o_uid cr' = o_uid cr"
proof -
  from assms(2) obtain ds where
    ev: "events w' = events w @ [EList deployment_list_gvk [(KonfluxOwnerLabel, o_name cr)] (Inr ds)]" and
    cr': "cr' = SetOverallReadyCondition M (CleanupStaleConditions (set_all_conditions M DeploymentCondition ds cr)
      (\<lambda>c. ctype c = TypeReady \<or> ctype c \<in> SeenConditionTypes (deployment_summary ds))) (deployment_summary ds)"
    by (rule UpdateComponentStatuses_ok)
  let ?obj = "CleanupStaleConditions (set_all_conditions M DeploymentCondition ds cr)
      (\<lambda>c. ctype c = TypeReady \<or> ctype c \<in> SeenConditionTypes (deployment_summary ds))"
  have obj: "conds ?obj = conds (set_all_conditions M DeploymentCondition ds cr) |` seen_or_ready ds"
    unfolding CleanupStaleConditions_def seen_or_ready_def
    by (rule conds_filter [of _ "\<lambda>t. t = TypeReady \<or> t \<in> SeenConditionTypes (deployment_summary ds)"])
  from SetOverallReadyCondition_ex [of M ?obj "deployment_summary ds"] obtain c where
    c: "cr' = SetCondition M ?obj c" "ctype c = TypeReady"
      "cstatus c = (if list_all IsDeploymentReady ds then CTrue else CFalse)"
    unfolding cr' by (auto simp: deployment_summary_def)
  have eq: "conds cr' = (conds ?obj)(TypeReady \<mapsto> c\<lparr> observedGeneration := o_generation ?obj \<rparr>)"
    using c(2) by (simp add: c(1) conds_SetCondition [OF assms(1)])
  show ?thesis
    by (rule that [OF ev eq [unfolded obj]]) (simp_all add: c CleanupStaleConditions_def)
qed

text \<open>
  (C7) The readiness of a component is exactly that of its Deployments. When
  \<open>UpdateComponentStatuses\<close> succeeds it has listed the Deployments labelled with the resource's
  name, and the resource is Ready if and only if every one of them is fully rolled out; its condition
  types are \<open>Ready\<close> and one per listed Deployment, so nothing stale survives; and each Deployment's
  condition carries its own readiness, at the generation of the resource.
\<close>

theorem UpdateComponentStatuses_correct:
  assumes laws: "condition_laws M" and run: "UpdateComponentStatuses M A cr w = (Inr cr', w')"
  shows "\<exists>ds. events w' = events w @ [EList deployment_list_gvk [(KonfluxOwnerLabel, o_name cr)] (Inr ds)] \<and>
    (IsConditionTrue M cr' TypeReady \<longleftrightarrow> list_all IsDeploymentReady ds) \<and>
    ctype ` set (GetConditions cr') = insert TypeReady ((\<lambda>d. o_namespace d @ ''/'' @ o_name d) ` set ds) \<and>
    (distinct (map (\<lambda>d. (o_namespace d @ ''/'' @ o_name d)) ds) \<longrightarrow>
       (\<forall>d \<in> set ds. conds cr' (o_namespace d @ ''/'' @ o_name d) =
          Some ((DeploymentCondition d)\<lparr> observedGeneration := o_generation cr \<rparr>) \<and>
          IsConditionTrue M cr' (o_namespace d @ ''/'' @ o_name d) = IsDeploymentReady d))"
proof -
  from laws run obtain ds ready where
    ev: "events w' = events w @ [EList deployment_list_gvk [(KonfluxOwnerLabel, o_name cr)] (Inr ds)]" and
    c: "conds cr' = (conds (set_all_conditions M DeploymentCondition ds cr) |` seen_or_ready ds) (TypeReady \<mapsto> ready)" and
    ready: "cstatus ready = (if list_all IsDeploymentReady ds then CTrue else CFalse)"
    by (rule UpdateComponentStatuses_conds)
  have 1: "IsConditionTrue M cr' TypeReady \<longleftrightarrow> list_all IsDeploymentReady ds"
    using ready by (simp add: IsConditionTrue_conds [OF laws] c)
  have 2: "dom (conds cr') = seen_or_ready ds"
    by (auto simp: c dom_conds_set_all [OF laws] seen_or_ready ctype_DeploymentCondition)
  have 3: "conds cr' (o_namespace d @ ''/'' @ o_name d) = Some ((DeploymentCondition d)\<lparr> observedGeneration := o_generation cr \<rparr>)"
    if "distinct (map (\<lambda>d. o_namespace d @ ''/'' @ o_name d) ds)" and "d \<in> set ds" for d
  proof -
    from that(1) have "distinct (map (ctype \<circ> DeploymentCondition) ds)"
      by (simp add: comp_def ctype_DeploymentCondition)
    from conds_set_all_in [OF laws this that(2), of cr] that(2) DeploymentCondition_not_Ready [of d]
    show ?thesis by (simp add: c seen_or_ready ctype_DeploymentCondition)
  qed
  have 4: "IsConditionTrue M cr' (o_namespace d @ ''/'' @ o_name d) = IsDeploymentReady d"
    if "distinct (map (\<lambda>d. o_namespace d @ ''/'' @ o_name d) ds)" and "d \<in> set ds" for d
    using 3 [OF that] by (simp add: IsConditionTrue_conds [OF laws] cstatus_DeploymentCondition)
  show ?thesis
    by (intro exI [of _ ds] conjI impI ballI ev 1 2 [unfolded dom_conds seen_or_ready] 3 4)
qed

section \<open>Aggregation\<close>

lemma AggregateReadiness_spec: "AggregateReadiness ss =
    (list_all scs_Ready ss, map (\<lambda>s. scs_Name s @ '' is not ready'') (filter (\<lambda>s. \<not> scs_Ready s) ss))"
  by (induction ss) auto

text \<open>
  The aggregated \<open>Ready\<close> condition is True exactly when every component is ready; otherwise its
  message names precisely the components that are not, in order. No other condition changes.
\<close>

theorem SetAggregatedReadyCondition_correct:
  assumes "condition_laws M"
  shows "\<exists>c. conds (SetAggregatedReadyCondition M obj ss) = (conds obj)(TypeReady \<mapsto> c) \<and>
    (cstatus c = CTrue \<longleftrightarrow> (\<forall>s \<in> set ss. scs_Ready s)) \<and>
    (cstatus c \<noteq> CTrue \<longrightarrow> cstatus c = CFalse \<and> creason c = ReasonComponentsNotReady \<and>
       cmessage c = Join (map (\<lambda>s. scs_Name s @ '' is not ready'') (filter (\<lambda>s. \<not> scs_Ready s) ss)) ''; '')"
  by (cases "\<forall>s \<in> set ss. scs_Ready s")
    (auto simp: SetAggregatedReadyCondition_def AggregateReadiness_spec list_all_iff conds_SetCondition [OF assms])

lemma SetAggregatedReady_other [simp]:
  "o_generation (SetAggregatedReadyCondition M obj ss) = o_generation obj"
  "o_name (SetAggregatedReadyCondition M obj ss) = o_name obj"
  "o_body (SetAggregatedReadyCondition M obj ss) = o_body obj"
  by (simp_all add: SetAggregatedReadyCondition_def split: prod.splits)

lemma IsReady_aggregated: "condition_laws M \<Longrightarrow>
    IsReady M (SetAggregatedReadyCondition M obj ss) \<longleftrightarrow> (\<forall>s \<in> set ss. scs_Ready s)"
  by (simp add: IsReady_IsConditionTrue SetAggregatedReadyCondition_def AggregateReadiness_spec
      IsConditionTrue_SetCondition list_all_iff)

section \<open>Copying a component's conditions\<close>

lemma HasPrefix_prefixed_type: "HasPrefix (prefixed_type p c) (p @ ''.'')"
  unfolding HasPrefix_iff prefixed_type_def by auto

lemma CopySubCRStatus_closed: "CopySubCRStatus M parent sub p =
    (let parent1 = set_all_conditions M (prefixed_condition p) (GetConditions sub) parent in
     (SetConditions parent1 (filter (\<lambda>c. \<not> (HasPrefix (ctype c) (p @ ''.'') \<and>
         ctype c \<notin> prefixed_type p ` set (GetConditions sub))) (GetConditions parent1)),
      \<lparr> scs_Name = p, scs_Ready = IsConditionTrue M sub TypeReady \<rparr>))"
  by (simp add: CopySubCRStatus_def set_all_conditions_def Let_def)

lemma conds_CopySubCRStatus:
  assumes "CopySubCRStatus M parent sub p = (parent', s)"
  shows "conds parent' = conds (set_all_conditions M (prefixed_condition p) (GetConditions sub) parent) |`
      {t. \<not> (HasPrefix t (p @ ''.'') \<and> t \<notin> prefixed_type p ` set (GetConditions sub))}"
proof -
  let ?parent1 = "set_all_conditions M (prefixed_condition p) (GetConditions sub) parent"
  have "parent' = SetConditions ?parent1 (filter (\<lambda>c. \<not> (HasPrefix (ctype c) (p @ ''.'') \<and>
         ctype c \<notin> prefixed_type p ` set (GetConditions sub))) (GetConditions ?parent1))"
    using assms by (simp add: CopySubCRStatus_closed Let_def)
  then show ?thesis
    using conds_filter [of ?parent1 "\<lambda>t. \<not> (HasPrefix t (p @ ''.'') \<and> t \<notin> prefixed_type p ` set (GetConditions sub))"]
    by simp
qed

lemma CopySubCRStatus_result:
  assumes "CopySubCRStatus M parent sub p = (parent', s)"
  shows "s = \<lparr> scs_Name = p, scs_Ready = IsConditionTrue M sub TypeReady \<rparr>"
    and "o_body parent' = o_body parent" and "o_generation parent' = o_generation parent"
    and "o_name parent' = o_name parent" and "o_gvk parent' = o_gvk parent" and "o_uid parent' = o_uid parent"
  using assms by (auto simp: CopySubCRStatus_closed Let_def)

lemma ctype_prefixed [simp]: "ctype (prefixed_condition p c) = prefixed_type p c"
  by (simp add: prefixed_condition_def)

lemma CopySubCRStatus_frame:
  assumes "condition_laws M" and "CopySubCRStatus M parent sub p = (parent', s)" and "\<not> HasPrefix t (p @ ''.'')"
  shows "conds parent' t = conds parent t"
proof -
  have "t \<notin> (ctype \<circ> prefixed_condition p) ` set (GetConditions sub)"
    using assms(3) HasPrefix_prefixed_type by auto
  then show ?thesis
    using assms(3) by (simp add: conds_CopySubCRStatus [OF assms(2)] conds_set_all_other [OF assms(1)])
qed

lemma CopySubCRStatus_types:
  assumes "condition_laws M" and "CopySubCRStatus M parent sub p = (parent', s)"
  shows "{t \<in> dom (conds parent'). HasPrefix t (p @ ''.'')} = prefixed_type p ` set (GetConditions sub)"
  using HasPrefix_prefixed_type
  by (auto simp: conds_CopySubCRStatus [OF assms(2)] dom_conds_set_all [OF assms(1)] comp_def)

text \<open>
  (C8) Copying the conditions of a component into its parent is confined to the component's prefix
  and exact there: conditions of other types are untouched, the prefixed condition types of the parent
  are exactly those of the component (stale ones are gone), and each copied condition has the
  component's status, reason and message. The observed generation is the parent's, not the
  component's, because \<open>SetCondition\<close> overwrites the value that \<open>CopySubCRStatus\<close> passes.
\<close>

theorem CopySubCRStatus_correct:
  assumes laws: "condition_laws M" and run: "CopySubCRStatus M parent sub p = (parent', s)"
  shows "(\<forall>t. \<not> HasPrefix t (p @ ''.'') \<longrightarrow> conds parent' t = conds parent t) \<and>
    {t \<in> ctype ` set (GetConditions parent'). HasPrefix t (p @ ''.'')} = prefixed_type p ` set (GetConditions sub) \<and>
    (distinct (map (prefixed_type p) (GetConditions sub)) \<longrightarrow>
      (\<forall>c \<in> set (GetConditions sub). conds parent' (prefixed_type p c) = Some \<lparr> ctype = prefixed_type p c,
         cstatus = cstatus c, creason = creason c, cmessage = cmessage c, observedGeneration = o_generation parent \<rparr>)) \<and>
    scs_Ready s = IsConditionTrue M sub TypeReady"
proof -
  let ?f = "prefixed_condition p" and ?cs = "GetConditions sub"
  have "{t \<in> dom (conds parent'). HasPrefix t (p @ ''.'')} = prefixed_type p ` set ?cs"
    by (rule CopySubCRStatus_types [OF laws run])
  moreover have "conds parent' (prefixed_type p c) = Some \<lparr> ctype = prefixed_type p c,
      cstatus = cstatus c, creason = creason c, cmessage = cmessage c, observedGeneration = o_generation parent \<rparr>"
    if "distinct (map (prefixed_type p) ?cs)" and "c \<in> set ?cs" for c
    using conds_set_all_in [OF laws, of ?f ?cs c parent] that
    by (simp add: conds_CopySubCRStatus [OF run] comp_def prefixed_condition_def)
  ultimately show ?thesis
    using CopySubCRStatus_frame [OF laws run] CopySubCRStatus_result(1) [OF run]
    by (auto simp: dom_conds)
qed

section \<open>Dependencies and errors\<close>

text \<open>
  A dependency overrides \<open>Ready\<close> only when its condition is explicitly False, and the first such
  dependency in the list wins; with none, the resource is unchanged.
\<close>

theorem OverrideReadyIfDependencyFalse_correct:
  assumes "condition_laws M"
  shows "OverrideReadyIfDependencyFalse M obj deps =
    (case List.find (\<lambda>dep. \<exists>c. conds obj (do_ConditionType dep) = Some c \<and> cstatus c = CFalse) deps of
       None \<Rightarrow> obj
     | Some dep \<Rightarrow> SetCondition M obj (mk_condition TypeReady CFalse (do_Reason dep) (do_Message dep)))"
  by (induction deps) (auto simp: find_condition [OF assms] split: option.splits)

lemma Handle_obtain:
  obtains r w' where "Handle M A cr err reason operation w = \<lparr> out_result = no_requeue, out_err = Some err,
      out_cr = Some (after_update (SetFailedCondition M cr TypeReady reason (Errorf operation err)) r), out_world = w' \<rparr>"
    and "events w' = events w @ [EStatusUpdate (SetFailedCondition M cr TypeReady reason (Errorf operation err)) r]"
proof -
  obtain r w' where call: "k_status_update A (SetFailedCondition M cr TypeReady reason (Errorf operation err)) w = (r, w')"
    by fastforce
  show ?thesis
    by (rule that [of r w']) (simp_all add: Handle_def call k_call_events(7) [OF call])
qed

text \<open>
  Every failure is reported: the error handler returns the original error without a requeue
  request and sends exactly one status update, in which \<open>Ready\<close> is False with the given reason and a
  message made of the operation and the error, and in which no other condition differs.
\<close>

theorem Handle_correct:
  assumes "condition_laws M"
  shows "out_err (Handle M A cr err reason operation w) = Some err \<and>
    out_result (Handle M A cr err reason operation w) = no_requeue \<and>
    (\<exists>cr1 r. events (out_world (Handle M A cr err reason operation w)) = events w @ [EStatusUpdate cr1 r] \<and>
      conds cr1 = (conds cr)(TypeReady \<mapsto> \<lparr> ctype = TypeReady, cstatus = CFalse, creason = reason,
        cmessage = operation @ '': '' @ error_text err, observedGeneration = o_generation cr \<rparr>))"
proof -
  have c: "conds (SetFailedCondition M cr TypeReady reason (Errorf operation err)) =
      (conds cr)(TypeReady \<mapsto> \<lparr> ctype = TypeReady, cstatus = CFalse, creason = reason,
        cmessage = operation @ '': '' @ error_text err, observedGeneration = o_generation cr \<rparr>)"
    by (simp add: SetFailedCondition_def conds_SetCondition [OF assms] mk_condition_def)
  obtain r w' where "Handle M A cr err reason operation w = \<lparr> out_result = no_requeue, out_err = Some err,
      out_cr = Some (after_update (SetFailedCondition M cr TypeReady reason (Errorf operation err)) r), out_world = w' \<rparr>"
    and "events w' = events w @ [EStatusUpdate (SetFailedCondition M cr TypeReady reason (Errorf operation err)) r]"
    by (rule Handle_obtain)
  then show ?thesis using c by auto
qed

section \<open>Concrete instances\<close>

definition ex_deployment :: "string \<Rightarrow> int \<Rightarrow> kobj" where
  "ex_deployment n ready = (new_object (mk_gvk ''apps'' ''v1'' ''Deployment'') ''ns'' n
     (BDeployment (zero_deployment\<lparr> statusReplicas := 2, readyReplicas := ready, updatedReplicas := 2 \<rparr>)))
     \<lparr> o_labels := [(KonfluxOwnerLabel, ''konflux-ui'')] \<rparr>"

definition ex_cr :: kobj where
  "ex_cr = (new_object (mk_gvk ''konflux.konflux-ci.dev'' ''v1alpha1'' ''KonfluxUI'') [] ''konflux-ui'' (BOther ''ui'' JNull))
     \<lparr> o_generation := 7, o_conditions := [mk_condition ''ns/gone'' CTrue ''r'' ''m''] \<rparr>"

lemma ex_list_deployments:
  "k_list ref_api False deployment_list_gvk [(KonfluxOwnerLabel, ''konflux-ui'')]
     (start [ex_deployment ''a'' 2, ex_deployment ''b'' 1]) =
   (Inr [ex_deployment ''a'' 2, ex_deployment ''b'' 1],
    \<lparr> cluster = [ex_deployment ''a'' 2, ex_deployment ''b'' 1],
      events = [EList deployment_list_gvk [(KonfluxOwnerLabel, ''konflux-ui'')]
        (Inr [ex_deployment ''a'' 2, ex_deployment ''b'' 1])] \<rparr>)"
  by (simp add: k_list_def emit_def ref_defs ex_deployment_def deployment_list_gvk_def)

theorem UpdateComponentStatuses_correct_witness:
  "condition_laws ref_machinery \<and>
   (\<exists>cr' w'. UpdateComponentStatuses ref_machinery ref_api ex_cr (start [ex_deployment ''a'' 2, ex_deployment ''b'' 1])
      = (Inr cr', w') \<and> \<not> IsConditionTrue ref_machinery cr' TypeReady \<and> IsConditionTrue ref_machinery cr' ''ns/a'' \<and>
      ''ns/gone'' \<notin> ctype ` set (GetConditions cr'))"
proof -
  let ?w = "start [ex_deployment ''a'' 2, ex_deployment ''b'' 1]"
  have name: "o_name ex_cr = ''konflux-ui''" by (simp add: ex_cr_def new_object_def)
  obtain cr' w' where run: "UpdateComponentStatuses ref_machinery ref_api ex_cr ?w = (Inr cr', w')"
    by (simp add: UpdateComponentStatuses_def name ex_list_deployments SetDeploymentConditions_closed)
  then have ev: "events w' = [EList deployment_list_gvk [(KonfluxOwnerLabel, ''konflux-ui'')]
        (Inr [ex_deployment ''a'' 2, ex_deployment ''b'' 1])]"
    by (auto simp: UpdateComponentStatuses_def name ex_list_deployments SetDeploymentConditions_closed)
  have fields: "o_namespace (ex_deployment n k) = ''ns''" "o_name (ex_deployment n k) = n"
    "IsDeploymentReady (ex_deployment n k) = (k = 2)" for n k
    by (simp_all add: ex_deployment_def new_object_def IsDeploymentReady_def as_deployment_def Let_def)
  show ?thesis
    using UpdateComponentStatuses_correct [OF ref_machinery_laws run] run ref_machinery_laws
    by (simp add: ev name fields start_def)
qed

theorem SetAggregatedReadyCondition_correct_witness:
  "condition_laws ref_machinery \<and>
   (\<exists>c. conds (SetAggregatedReadyCondition ref_machinery ex_cr
      [\<lparr> scs_Name = ''ui'', scs_Ready = True \<rparr>, \<lparr> scs_Name = ''rbac'', scs_Ready = False \<rparr>]) TypeReady = Some c \<and>
      cstatus c = CFalse \<and> cmessage c = ''rbac is not ready'')"
  using SetAggregatedReadyCondition_correct [OF ref_machinery_laws, of ex_cr
      "[\<lparr> scs_Name = ''ui'', scs_Ready = True \<rparr>, \<lparr> scs_Name = ''rbac'', scs_Ready = False \<rparr>]"] ref_machinery_laws
  by auto

definition ex_sub :: kobj where
  "ex_sub = ex_cr\<lparr> o_conditions := [\<lparr> ctype = ''ns/a'', cstatus = CTrue, creason = ''r'', cmessage = ''m'',
     observedGeneration = 3 \<rparr>] \<rparr>"

definition ex_parent :: kobj where
  "ex_parent = ex_cr\<lparr> o_generation := 9, o_conditions := [mk_condition ''ui.old'' CTrue [] [],
     mk_condition ''ui-x.keep'' CTrue [] []] \<rparr>"

theorem CopySubCRStatus_correct_witness:
  "\<exists>parent' s. CopySubCRStatus ref_machinery ex_parent ex_sub ''ui'' = (parent', s) \<and>
     conds parent' ''ui.ns.a'' = Some \<lparr> ctype = ''ui.ns.a'', cstatus = CTrue, creason = ''r'', cmessage = ''m'',
       observedGeneration = 9 \<rparr> \<and>
     conds parent' ''ui-x.keep'' = conds ex_parent ''ui-x.keep''"
proof -
  obtain parent' s where run: "CopySubCRStatus ref_machinery ex_parent ex_sub ''ui'' = (parent', s)" by fastforce
  have sub: "GetConditions ex_sub = [\<lparr> ctype = ''ns/a'', cstatus = CTrue, creason = ''r'', cmessage = ''m'', observedGeneration = 3 \<rparr>]"
    and gen: "o_generation ex_parent = 9"
    by (simp_all add: ex_sub_def ex_parent_def GetConditions_def)
  show ?thesis
    using CopySubCRStatus_correct [OF ref_machinery_laws run] run
    by (simp add: sub gen prefixed_type_def go_string)
qed

theorem OverrideReadyIfDependencyFalse_correct_witness:
  "IsConditionTrue ref_machinery (ex_cr\<lparr> o_conditions := [mk_condition ''Dep'' CFalse [] []] \<rparr>) TypeReady = False \<and>
   OverrideReadyIfDependencyFalse ref_machinery (ex_cr\<lparr> o_conditions := [mk_condition ''Dep'' CFalse [] []] \<rparr>)
     [\<lparr> do_ConditionType = ''Dep'', do_Reason = ''R'', do_Message = ''M'' \<rparr>] =
   SetCondition ref_machinery (ex_cr\<lparr> o_conditions := [mk_condition ''Dep'' CFalse [] []] \<rparr>) (mk_condition TypeReady CFalse ''R'' ''M'')"
  using OverrideReadyIfDependencyFalse_correct [OF ref_machinery_laws, of "ex_cr\<lparr> o_conditions := [mk_condition ''Dep'' CFalse [] []] \<rparr>"
      "[\<lparr> do_ConditionType = ''Dep'', do_Reason = ''R'', do_Message = ''M'' \<rparr>]"]
  by (simp add: conds_def GetConditions_def IsConditionTrue_conds [OF ref_machinery_laws])

theorem Handle_correct_witness:
  "condition_laws ref_machinery \<and>
   out_err (Handle ref_machinery ref_api ex_cr (NewError ''boom'') ReasonApplyFailed ''apply manifests'' (start [])) = Some (NewError ''boom'')"
  using Handle_correct [OF ref_machinery_laws, of ref_api ex_cr "NewError ''boom''" ReasonApplyFailed "''apply manifests''" "start []"]
    ref_machinery_laws by simp

end
