(* ===== verification/Customization.thy ===== *)
theory Customization
  imports Conditions
begin

text \<open>
  Pod and container customisation (\<open>pkg/customization\<close>): container and pod overlays built from
  functional options, and their application to pod templates. The strategic merge of Kubernetes is
  outside the repository and a parameter (\<open>merge_lib\<close>); what the code relies on is stated by
  \<open>merge_keeps\<close> and \<open>pod_merge_keeps\<close>. Environment variables and arguments, which the code merges by
  itself, satisfy the contract \<open>keyed_update\<close>.
\<close>

section \<open>Strategic merge\<close>

record 'a merge_lib =
  marshal :: "'a \<Rightarrow> json result"
  strategic_merge_patch :: "json \<Rightarrow> json \<Rightarrow> 'a \<Rightarrow> json result"
  unmarshal :: "json \<Rightarrow> 'a result"

definition StrategicMerge :: "'a merge_lib \<Rightarrow> 'a \<Rightarrow> 'a \<Rightarrow> 'a result" where
  "StrategicMerge L base overlay = (case marshal L base of
     Inl e \<Rightarrow> Inl e
   | Inr baseJSON \<Rightarrow> (case marshal L overlay of
       Inl e \<Rightarrow> Inl e
     | Inr overlayJSON \<Rightarrow> (case strategic_merge_patch L baseJSON overlayJSON base of
         Inl e \<Rightarrow> Inl e
       | Inr merged \<Rightarrow> unmarshal L merged)))"

section \<open>Container options\<close>

record deployment_context =
  Replicas :: int

type_synonym container_option = "container \<Rightarrow> deployment_context \<Rightarrow> container"

definition NewContainerOverlay :: "deployment_context \<Rightarrow> container_option list \<Rightarrow> container" where
  "NewContainerOverlay ctx opts = fold (\<lambda>opt c. opt c ctx) opts Container"

definition FromContainerSpec :: "container_spec option \<Rightarrow> container_option" where
  "FromContainerSpec spec c ctx = (case spec of
     None \<Rightarrow> c
   | Some sp \<Rightarrow>
       let c1 = (case cs_resources sp of None \<Rightarrow> c | Some r \<Rightarrow> c\<lparr> c_resources := r \<rparr>)
       in if cs_env sp \<noteq> [] then c1\<lparr> c_env := c_env c1 @ cs_env sp \<rparr> else c1)"

definition WithArgs :: "string list \<Rightarrow> container_option" where
  "WithArgs args c ctx = c\<lparr> c_args := c_args c @ args \<rparr>"

definition WithEnv :: "env_var list \<Rightarrow> container_option" where
  "WithEnv env c ctx = c\<lparr> c_env := c_env c @ env \<rparr>"

definition WithEnvOverride :: "string \<Rightarrow> string \<Rightarrow> container_option" where
  "WithEnvOverride name v c ctx =
     c\<lparr> c_env := filter (\<lambda>env. ev_name env \<noteq> name) (c_env c) @ [EnvVar name v] \<rparr>"

definition WithoutEnv :: "string \<Rightarrow> container_option" where
  "WithoutEnv name c ctx = c\<lparr> c_env := filter (\<lambda>env. ev_name env \<noteq> name) (c_env c) \<rparr>"

definition WithResources :: "json \<Rightarrow> container_option" where
  "WithResources resources c ctx = c\<lparr> c_resources := resources \<rparr>"

definition WithVolumeMounts :: "json list \<Rightarrow> container_option" where
  "WithVolumeMounts mounts c ctx = c\<lparr> c_volumeMounts := c_volumeMounts c @ mounts \<rparr>"

definition WithSecurityContext :: "security_context option \<Rightarrow> container_option" where
  "WithSecurityContext sc c ctx = c\<lparr> c_securityContext := sc \<rparr>"

definition WithRunAsUser :: "int \<Rightarrow> container_option" where
  "WithRunAsUser uid c ctx =
     (let sc = (case c_securityContext c of None \<Rightarrow> \<lparr> runAsUser = None, sc_rest = JNull \<rparr> | Some sc \<Rightarrow> sc)
      in c\<lparr> c_securityContext := Some (sc\<lparr> runAsUser := Some uid \<rparr>) \<rparr>)"

definition WithImage :: "string \<Rightarrow> container_option" where
  "WithImage img c ctx = c\<lparr> c_image := img \<rparr>"

definition WithOptionalEnvOverride :: "string \<Rightarrow> string \<Rightarrow> container_option" where
  "WithOptionalEnvOverride name v = (if v = [] then (\<lambda>c ctx. c) else WithEnvOverride name v)"

section \<open>Pod overlays\<close>

record pod_overlay =
  po_podSpec :: pod_spec
  containerOverlays :: "(string \<times> container) list"
  configMapVolumeUpdates :: smap
  secretVolumeUpdates :: smap
  argReplacements :: "(string \<times> string list) list"

type_synonym pod_overlay_option = "pod_overlay \<Rightarrow> pod_overlay"

definition NewPodOverlay :: "pod_overlay_option list \<Rightarrow> pod_overlay" where
  "NewPodOverlay opts = fold (\<lambda>opt p. opt p) opts
     \<lparr> po_podSpec = PodSpec, containerOverlays = [], configMapVolumeUpdates = [], secretVolumeUpdates = [],
       argReplacements = [] \<rparr>"

definition WithContainer :: "string \<Rightarrow> container option \<Rightarrow> pod_overlay_option" where
  "WithContainer name overlay p = (case overlay of None \<Rightarrow> p
     | Some c \<Rightarrow> p\<lparr> containerOverlays := AList.update name c (containerOverlays p) \<rparr>)"

definition WithContainerOpts :: "string \<Rightarrow> deployment_context \<Rightarrow> container_option list \<Rightarrow> pod_overlay_option" where
  "WithContainerOpts name ctx opts p =
     p\<lparr> containerOverlays := AList.update name (NewContainerOverlay ctx opts) (containerOverlays p) \<rparr>"

type_synonym container_builder = "deployment_context \<Rightarrow> pod_overlay_option"

definition WithContainerBuilder :: "string \<Rightarrow> container_option list \<Rightarrow> container_builder" where
  "WithContainerBuilder name opts ctx = WithContainerOpts name ctx opts"

definition BuildPodOverlay :: "deployment_context \<Rightarrow> container_builder list \<Rightarrow> pod_overlay" where
  "BuildPodOverlay ctx builders = NewPodOverlay (map (\<lambda>build. build ctx) builders)"

definition WithTolerations :: "json list \<Rightarrow> pod_overlay_option" where
  "WithTolerations ts p = p\<lparr> po_podSpec := (po_podSpec p)\<lparr> ps_tolerations := ps_tolerations (po_podSpec p) @ ts \<rparr> \<rparr>"

definition WithNodeSelector :: "smap \<Rightarrow> pod_overlay_option" where
  "WithNodeSelector selector p = p\<lparr> po_podSpec := (po_podSpec p)\<lparr> ps_nodeSelector := selector \<rparr> \<rparr>"

definition WithAffinity :: "json option \<Rightarrow> pod_overlay_option" where
  "WithAffinity affinity p = p\<lparr> po_podSpec := (po_podSpec p)\<lparr> ps_affinity := affinity \<rparr> \<rparr>"

definition WithVolumes :: "volume list \<Rightarrow> pod_overlay_option" where
  "WithVolumes vs p = p\<lparr> po_podSpec := (po_podSpec p)\<lparr> ps_volumes := ps_volumes (po_podSpec p) @ vs \<rparr> \<rparr>"

definition WithConfigMapVolumeUpdate :: "string \<Rightarrow> string \<Rightarrow> pod_overlay_option" where
  "WithConfigMapVolumeUpdate volumeName configMapName p =
     p\<lparr> configMapVolumeUpdates := sput volumeName configMapName (configMapVolumeUpdates p) \<rparr>"

definition WithSecretVolumeUpdate :: "string \<Rightarrow> string \<Rightarrow> pod_overlay_option" where
  "WithSecretVolumeUpdate volumeName secretName p =
     p\<lparr> secretVolumeUpdates := sput volumeName secretName (secretVolumeUpdates p) \<rparr>"

definition replacements_for :: "(string \<times> string list) list \<Rightarrow> string \<Rightarrow> string list" where
  "replacements_for m containerName = (case map_of m containerName of None \<Rightarrow> [] | Some args \<Rightarrow> args)"

definition WithArgReplace :: "string \<Rightarrow> string list \<Rightarrow> pod_overlay_option" where
  "WithArgReplace containerName args p = p\<lparr> argReplacements := AList.update containerName
     (replacements_for (argReplacements p) containerName @ args) (argReplacements p) \<rparr>"

definition WithLeaderElection :: "string \<Rightarrow> int \<Rightarrow> pod_overlay_option" where
  "WithLeaderElection containerName replicas =
     (if replicas \<le> 1 then (\<lambda>p. p) else WithArgReplace containerName [''--leader-elect=true''])"

definition WithServiceAccountName :: "string \<Rightarrow> pod_overlay_option" where
  "WithServiceAccountName name p = p\<lparr> po_podSpec := (po_podSpec p)\<lparr> ps_serviceAccountName := name \<rparr> \<rparr>"

definition WithPodSecurityContext :: "json option \<Rightarrow> pod_overlay_option" where
  "WithPodSecurityContext sc p = p\<lparr> po_podSpec := (po_podSpec p)\<lparr> ps_securityContext := sc \<rparr> \<rparr>"

definition WithPriorityClassName :: "string \<Rightarrow> pod_overlay_option" where
  "WithPriorityClassName name p = p\<lparr> po_podSpec := (po_podSpec p)\<lparr> ps_priorityClassName := name \<rparr> \<rparr>"

definition WithTopologySpreadConstraints :: "json list \<Rightarrow> pod_overlay_option" where
  "WithTopologySpreadConstraints cs p = p\<lparr> po_podSpec := (po_podSpec p)
     \<lparr> ps_topologySpreadConstraints := ps_topologySpreadConstraints (po_podSpec p) @ cs \<rparr> \<rparr>"

section \<open>Applying an overlay\<close>

definition argKey :: "string \<Rightarrow> string" where
  "argKey arg = takeWhile (\<lambda>c. c \<noteq> CHR ''='') arg"

definition replaceArgs :: "string list \<Rightarrow> string list \<Rightarrow> string list" where
  "replaceArgs replacements args = fold (upsert argKey) replacements args"

definition mergeEnvByName :: "container \<Rightarrow> env_var list \<Rightarrow> container" where
  "mergeEnvByName base overlay = base\<lparr> c_env := fold (upsert ev_name) overlay (c_env base) \<rparr>"

text \<open>
  The overlay part of one iteration of \<open>mergeContainerList\<close>. The overlay is mutated in place: its
  name is set, its args and env are taken out for the merge and put back afterwards, also on error.
\<close>

definition mergeContainer :: "container merge_lib \<Rightarrow> container \<Rightarrow> (string \<times> container) list \<Rightarrow>
    go_error option \<times> container \<times> (string \<times> container) list" where
  "mergeContainer L base overlays = (case map_of overlays (c_name base) of
     None \<Rightarrow> (None, base, overlays)
   | Some overlay0 \<Rightarrow>
       let overlay = overlay0\<lparr> c_name := c_name base \<rparr>;
           extraArgs = c_args overlay;
           extraEnv = c_env overlay;
           overlays' = AList.update (c_name base) overlay overlays
       in case StrategicMerge L base (overlay\<lparr> c_args := [], c_env := [] \<rparr>) of
            Inl e \<Rightarrow> (Some e, base, overlays')
          | Inr merged \<Rightarrow> (None, mergeEnvByName (merged\<lparr> c_args := c_args merged @ extraArgs \<rparr>) extraEnv, overlays'))"

fun mergeContainerList :: "container merge_lib \<Rightarrow> container list \<Rightarrow> (string \<times> container) list \<Rightarrow>
    (string \<times> string list) list \<Rightarrow> go_error option \<times> container list \<times> (string \<times> container) list" where
  "mergeContainerList L [] overlays repl = (None, [], overlays)"
| "mergeContainerList L (base # containers) overlays repl =
     (case mergeContainer L base overlays of
        (Some e, base', overlays') \<Rightarrow> (Some e, base' # containers, overlays')
      | (None, base', overlays') \<Rightarrow>
          let base'' = base'\<lparr> c_args := replaceArgs (replacements_for repl (c_name base')) (c_args base') \<rparr>
          in case mergeContainerList L containers overlays' repl of
               (err, containers', overlays'') \<Rightarrow> (err, base'' # containers', overlays''))"

definition applyConfigMapVolumeUpdates :: "volume list \<Rightarrow> smap \<Rightarrow> volume list" where
  "applyConfigMapVolumeUpdates volumes updates = map (\<lambda>vol.
     case (map_of updates (vol_name vol), vol_configMap vol) of
       (Some configMapName, Some src) \<Rightarrow> vol\<lparr> vol_configMap := Some (src\<lparr> vs_name := configMapName \<rparr>) \<rparr>
     | _ \<Rightarrow> vol) volumes"

definition applySecretVolumeUpdates :: "volume list \<Rightarrow> smap \<Rightarrow> volume list" where
  "applySecretVolumeUpdates volumes updates = map (\<lambda>vol.
     case (map_of updates (vol_name vol), vol_secret vol) of
       (Some secretName, Some src) \<Rightarrow> vol\<lparr> vol_secret := Some (src\<lparr> vs_name := secretName \<rparr>) \<rparr>
     | _ \<Rightarrow> vol) volumes"

record merge_libs =
  container_lib :: "container merge_lib"
  pod_lib :: "pod_spec merge_lib"

text \<open>
  The overlay pointer may be nil (\<^const>\<open>None\<close>). The guard on the container overlays tells a nil map
  from an empty one in Go; for an empty one the merge does nothing, so both are \<open>[]\<close> here. The
  result is the error and the template, which is also changed in part when an error occurs.
\<close>

definition ApplyToPodTemplateSpec :: "merge_libs \<Rightarrow> pod_overlay option \<Rightarrow> pod_template \<Rightarrow> go_error option \<times> pod_template" where
  "ApplyToPodTemplateSpec L overlay template = (case overlay of
     None \<Rightarrow> (None, template)
   | Some p \<Rightarrow>
       let spec = pt_spec template;
           ov = (po_podSpec p)\<lparr> ps_containers := ps_containers spec, ps_initContainers := ps_initContainers spec \<rparr>
       in case StrategicMerge (pod_lib L) spec ov of
            Inl e \<Rightarrow> (Some e, template)
          | Inr spec1 \<Rightarrow>
              (case (if containerOverlays p \<noteq> [] \<or> argReplacements p \<noteq> []
                     then (case mergeContainerList (container_lib L) (ps_containers spec1) (containerOverlays p) (argReplacements p) of
                             (Some e, cs, ovs) \<Rightarrow> (Some e, spec1\<lparr> ps_containers := cs \<rparr>)
                           | (None, cs, ovs) \<Rightarrow>
                               (case mergeContainerList (container_lib L) (ps_initContainers spec1) ovs (argReplacements p) of
                                  (err, ics, _) \<Rightarrow> (err, spec1\<lparr> ps_containers := cs, ps_initContainers := ics \<rparr>)))
                     else (None, spec1)) of
                 (Some e, spec2) \<Rightarrow> (Some e, template\<lparr> pt_spec := spec2 \<rparr>)
               | (None, spec2) \<Rightarrow>
                   let vols1 = applyConfigMapVolumeUpdates (ps_volumes spec2) (configMapVolumeUpdates p);
                       vols2 = applySecretVolumeUpdates vols1 (secretVolumeUpdates p)
                   in (None, template\<lparr> pt_spec := spec2\<lparr> ps_volumes := vols2 \<rparr> \<rparr>)))"

definition ApplyToDeployment :: "merge_libs \<Rightarrow> pod_overlay option \<Rightarrow> deployment \<Rightarrow> go_error option \<times> deployment" where
  "ApplyToDeployment L overlay d = (case ApplyToPodTemplateSpec L overlay (dep_template d) of
     (err, t) \<Rightarrow> (err, d\<lparr> dep_template := t \<rparr>))"

definition ApplyToCronJob :: "merge_libs \<Rightarrow> pod_overlay option \<Rightarrow> cron_job \<Rightarrow> go_error option \<times> cron_job" where
  "ApplyToCronJob L overlay cj = (case ApplyToPodTemplateSpec L overlay (cj_template cj) of
     (err, t) \<Rightarrow> (err, cj\<lparr> cj_template := t \<rparr>))"

text \<open>\<open>%q\<close> of a name without special characters puts it in double quotes.\<close>

definition quoted :: "string \<Rightarrow> string" where
  "quoted s = [CHR 0x22] @ s @ [CHR 0x22]"

definition ValidateCronJobContainer :: "string \<Rightarrow> cron_job \<Rightarrow> string \<Rightarrow> go_error option" where
  "ValidateCronJobContainer cjName cj containerName =
     (if list_ex (\<lambda>c. c_name c = containerName) (ps_containers (pt_spec (cj_template cj))) then None
      else Some (NewError (''container '' @ quoted containerName @ '' not found in CronJob '' @ cjName @
             '': customizations cannot be applied'')))"

definition ApplyCronJobContainerSpec :: "merge_libs \<Rightarrow> string \<Rightarrow> cron_job \<Rightarrow> string \<Rightarrow> container_spec option \<Rightarrow>
    go_error option \<times> cron_job" where
  "ApplyCronJobContainerSpec L cjName cj containerName spec = (case spec of
     None \<Rightarrow> (None, cj)
   | Some sp \<Rightarrow> (case ValidateCronJobContainer cjName cj containerName of
       Some e \<Rightarrow> (Some e, cj)
     | None \<Rightarrow> ApplyToCronJob L (Some (BuildPodOverlay \<lparr> Replicas = 0 \<rparr>
                 [WithContainerBuilder containerName [FromContainerSpec (Some sp)]])) cj))"

section \<open>Environment variables and arguments are merged by key\<close>

interpretation env_merge: keyed_replace ev_name "upsert ev_name"
  by unfold_locales (simp_all add: find_key_upsert map_upsert)

interpretation arg_merge: keyed_replace argKey "upsert argKey"
  by unfold_locales (simp_all add: find_key_upsert map_upsert)

text \<open>
  Merging environment variables replaces whole entries by name: looking a name up in the result
  finds the last overlay entry of that name, else the base entry; every resulting variable is an
  entry of the base or of the overlay as it stands, so a value and a valueFrom are never combined;
  the base variables keep their positions; and no name becomes duplicated.
\<close>

theorem mergeEnvByName_correct:
  "(\<forall>n. find_key ev_name n (c_env (mergeEnvByName base overlay)) = (case find_key ev_name n (rev overlay) of
            None \<Rightarrow> find_key ev_name n (c_env base) | Some e \<Rightarrow> Some e)) \<and>
    set (c_env (mergeEnvByName base overlay)) \<subseteq> set (c_env base) \<union> set overlay \<and>
    (\<exists>new. map ev_name (c_env (mergeEnvByName base overlay)) = map ev_name (c_env base) @ new) \<and>
    (distinct (map ev_name (c_env base)) \<longrightarrow> distinct (map ev_name (c_env (mergeEnvByName base overlay))))"
  using env_merge.upd_all_lookup [of _ overlay "c_env base"] set_upsert_all [of ev_name overlay "c_env base"]
    env_merge.upd_all_keeps_order [of overlay "c_env base"] env_merge.upd_all_distinct [of "c_env base" overlay]
  by (auto simp: mergeEnvByName_def)

lemma replaceArgs_lookup: "find_key argKey k (replaceArgs repl args) =
    (case find_key argKey k (rev repl) of None \<Rightarrow> find_key argKey k args | Some a \<Rightarrow> Some a)"
  unfolding replaceArgs_def by (rule arg_merge.upd_all_lookup)

lemma argKey_flag: "CHR ''='' \<notin> set flag \<Longrightarrow> argKey flag = flag"
  unfolding argKey_def by (induction flag) auto

lemma argKey_value: "CHR ''='' \<notin> set flag \<Longrightarrow> argKey (flag @ ''='' @ v) = flag"
  unfolding argKey_def by (induction flag) auto

section \<open>Merging containers\<close>

text \<open>
  What the code relies on from the strategic merge: fields that the overlay leaves out keep the
  base's value, so args and env, which are taken out of the overlay, survive; the name is the merge
  key and equal on both sides.
\<close>

definition merge_keeps :: "container merge_lib \<Rightarrow> bool" where
  "merge_keeps L \<longleftrightarrow> (\<forall>base overlay merged.
     StrategicMerge L base overlay = Inr merged \<and> c_args overlay = [] \<and> c_env overlay = [] \<and>
     c_name overlay = c_name base \<longrightarrow>
     c_args merged = c_args base \<and> c_env merged = c_env base \<and> c_name merged = c_name base)"

definition overlay_args :: "(string \<times> container) list \<Rightarrow> string \<Rightarrow> string list" where
  "overlay_args overlays n = (case map_of overlays n of None \<Rightarrow> [] | Some ov \<Rightarrow> c_args ov)"

definition overlay_env :: "(string \<times> container) list \<Rightarrow> string \<Rightarrow> env_var list" where
  "overlay_env overlays n = (case map_of overlays n of None \<Rightarrow> [] | Some ov \<Rightarrow> c_env ov)"

lemma merge_keepsD:
  assumes "merge_keeps L" and "StrategicMerge L base overlay = Inr merged"
    and "c_args overlay = []" and "c_env overlay = []" and "c_name overlay = c_name base"
  shows "c_args merged = c_args base" and "c_env merged = c_env base" and "c_name merged = c_name base"
  using assms unfolding merge_keeps_def by blast+

lemma mergeContainer_ok:
  assumes keeps: "merge_keeps L" and run: "mergeContainer L base overlays = (None, base', overlays')"
  shows "c_name base' = c_name base \<and>
    c_args base' = c_args base @ overlay_args overlays (c_name base) \<and>
    c_env base' = fold (upsert ev_name) (overlay_env overlays (c_name base)) (c_env base) \<and>
    overlay_args overlays' = overlay_args overlays \<and> overlay_env overlays' = overlay_env overlays"
proof (cases "map_of overlays (c_name base)")
  case None
  with run show ?thesis
    by (simp add: mergeContainer_def overlay_args_def overlay_env_def)
next
  case (Some ov0)
  let ?ov = "ov0\<lparr> c_name := c_name base \<rparr>"
  from run Some obtain merged where m: "StrategicMerge L base (?ov\<lparr> c_args := [], c_env := [] \<rparr>) = Inr merged"
    and b: "base' = mergeEnvByName (merged\<lparr> c_args := c_args merged @ c_args ?ov \<rparr>) (c_env ?ov)"
    and o: "overlays' = AList.update (c_name base) ?ov overlays"
    by (auto simp: mergeContainer_def Let_def split: sum.splits)
  note fields = merge_keepsD [OF keeps m]
  show ?thesis
    using fields Some by (auto simp: b o mergeEnvByName_def overlay_args_def overlay_env_def AList.update_conv')
qed

definition merged_container :: "(string \<times> container) list \<Rightarrow> (string \<times> string list) list \<Rightarrow> container \<Rightarrow> container \<Rightarrow> bool" where
  "merged_container overlays repl base base' \<longleftrightarrow>
     c_name base' = c_name base \<and>
     c_args base' = replaceArgs (replacements_for repl (c_name base)) (c_args base @ overlay_args overlays (c_name base)) \<and>
     c_env base' = fold (upsert ev_name) (overlay_env overlays (c_name base)) (c_env base)"

lemma mergeContainerList_ok:
  assumes "merge_keeps L" and "mergeContainerList L cs overlays repl = (None, cs', overlays')"
  shows "list_all2 (merged_container overlays repl) cs cs' \<and>
    overlay_args overlays' = overlay_args overlays \<and> overlay_env overlays' = overlay_env overlays"
  using assms(2)
proof (induction cs arbitrary: cs' overlays overlays')
  case (Cons base cs)
  from Cons.prems obtain base1 ovs1 cs1 where
    m: "mergeContainer L base overlays = (None, base1, ovs1)"
    and r: "mergeContainerList L cs ovs1 repl = (None, cs1, overlays')"
    and cs': "cs' = base1\<lparr> c_args := replaceArgs (replacements_for repl (c_name base1)) (c_args base1) \<rparr> # cs1"
    by (auto simp: Let_def split: prod.splits option.splits)
  note one = mergeContainer_ok [OF assms(1) m]
  have "merged_container ovs1 repl = merged_container overlays repl"
    using one by (intro ext) (simp add: merged_container_def)
  with Cons.IH [OF r] one show ?case
    by (simp add: cs' merged_container_def)
qed simp


text \<open>
  Leader election: with more than one replica, applying the overlay leaves exactly the
  flag \<open>--leader-elect=true\<close> to be found under the key \<open>--leader-elect\<close>, replacing a flag of the base in
  either form, and changes no other flag; with at most one replica it changes nothing.
\<close>

theorem WithLeaderElection_correct:
  "find_key argKey k (replaceArgs (replacements_for (argReplacements (WithLeaderElection n replicas (NewPodOverlay []))) n) args) =
     (if replicas > 1 \<and> k = ''--leader-elect'' then Some ''--leader-elect=true'' else find_key argKey k args)"
  by (auto simp: replaceArgs_lookup WithLeaderElection_def WithArgReplace_def NewPodOverlay_def replacements_for_def argKey_def)

section \<open>A concrete merge\<close>

text \<open>
  A codec for containers and a field-wise merge in which empty overlay fields keep the base; it
  shows that the assumption on the strategic merge can be met.
\<close>

definition enc_env :: "env_var \<Rightarrow> json" where
  "enc_env e = JArray [JString (ev_name e), JString (ev_value e),
     (case ev_valueFrom e of None \<Rightarrow> JNull | Some j \<Rightarrow> JArray [j])]"

fun dec_string :: "json \<Rightarrow> string" where
  "dec_string (JString s) = s"
| "dec_string _ = []"

fun dec_list :: "json \<Rightarrow> json list" where
  "dec_list (JArray xs) = xs"
| "dec_list _ = []"

fun dec_env :: "json \<Rightarrow> env_var" where
  "dec_env (JArray [n, v, JArray [j]]) = \<lparr> ev_name = dec_string n, ev_value = dec_string v, ev_valueFrom = Some j \<rparr>"
| "dec_env (JArray [n, v, JNull]) = EnvVar (dec_string n) (dec_string v)"
| "dec_env _ = EnvVar [] []"

definition enc_container :: "container \<Rightarrow> json list" where
  "enc_container c = [JString (c_name c), JString (c_image c), JArray (map JString (c_args c)),
     JArray (map enc_env (c_env c)), c_resources c, JArray (c_volumeMounts c), c_rest c]"

fun dec_container :: "json \<Rightarrow> container" where
  "dec_container (JArray [n, i, as, es, r, vm, rest]) = \<lparr> c_name = dec_string n, c_image = dec_string i,
     c_args = map dec_string (dec_list as), c_env = map dec_env (dec_list es), c_resources = r,
     c_volumeMounts = dec_list vm, c_securityContext = None, c_rest = rest \<rparr>"
| "dec_container _ = Container"

definition keep_unless_set :: "json \<Rightarrow> json \<Rightarrow> json" where
  "keep_unless_set b v = (if v = JNull \<or> v = JString [] \<or> v = JArray [] then b else v)"

definition ref_merge :: "container merge_lib" where
  "ref_merge = \<lparr> marshal = (\<lambda>c. Inr (JArray (enc_container c))),
     strategic_merge_patch = (\<lambda>b v base. Inr (JArray (map2 keep_unless_set (dec_list b) (dec_list v)))),
     unmarshal = (\<lambda>j. Inr (dec_container j)) \<rparr>"

lemma dec_enc_env [simp]: "dec_env (enc_env e) = e"
  by (cases "ev_valueFrom e") (simp_all add: enc_env_def EnvVar_def)

lemma ref_merge_keeps: "merge_keeps ref_merge"
  by (auto simp: merge_keeps_def StrategicMerge_def ref_merge_def enc_container_def keep_unless_set_def comp_def)

definition ex_base :: container where
  "ex_base = Container\<lparr> c_name := ''manager'', c_args := [''--leader-elect'', ''--v=2''],
     c_env := [\<lparr> ev_name = ''TOKEN'', ev_value = [], ev_valueFrom = Some (JString ''secret'') \<rparr>] \<rparr>"

definition ex_overlay :: pod_overlay where
  "ex_overlay = NewPodOverlay [WithContainerOpts ''manager'' \<lparr> Replicas = 2 \<rparr> [WithEnv [EnvVar ''TOKEN'' ''x''], WithArgs [''--n'']],
     WithLeaderElection ''manager'' 2]"

definition ex_merge :: "go_error option \<times> container list \<times> (string \<times> container) list" where
  "ex_merge = mergeContainerList ref_merge [ex_base] (containerOverlays ex_overlay) (argReplacements ex_overlay)"

lemmas ex_merge_defs = ex_merge_def ex_base_def ex_overlay_def NewPodOverlay_def WithContainerOpts_def
  NewContainerOverlay_def WithEnv_def WithArgs_def WithLeaderElection_def WithArgReplace_def replacements_for_def
  Container_def EnvVar_def overlay_args_def overlay_env_def


theorem mergeEnvByName_correct_witness:
  "distinct (map ev_name (c_env ex_base)) \<and>
   find_key ev_name ''TOKEN'' (c_env (mergeEnvByName ex_base [EnvVar ''TOKEN'' ''x'', EnvVar ''A'' ''y''])) = Some (EnvVar ''TOKEN'' ''x'')"
  using mergeEnvByName_correct [of ex_base "[EnvVar ''TOKEN'' ''x'', EnvVar ''A'' ''y'']"]
  by (simp add: ex_base_def EnvVar_def)

end
