(* ===== verification/Pipeline_Config.thy ===== *)
theory Pipeline_Config
  imports Customization
begin

text \<open>
  The build pipeline configuration of the build service
  (\<open>internal/controller/buildservice/pipeline_config.go\<close>): user entries are merged over the default
  pipelines by name, and the default pipeline is kept valid. YAML is a parameter (\<open>yaml_lib\<close>).
\<close>

section \<open>Definitions\<close>

definition merge_entry :: "pipeline_entry_data option \<Rightarrow> pipeline_entry_data \<Rightarrow> pipeline_entry_data" where
  "merge_entry old e = (case old of None \<Rightarrow> e
     | Some r \<Rightarrow> \<lparr> pe_name = pe_name e, pe_bundle = pe_bundle e,
         pe_description = (if pe_description e = [] then pe_description r else pe_description e) \<rparr>)"

fun upsert_pipeline :: "pipeline_entry_data \<Rightarrow> pipeline_entry_data list \<Rightarrow> pipeline_entry_data list" where
  "upsert_pipeline p [] = [p]"
| "upsert_pipeline p (r # rs) = (if pe_name r = pe_name p then merge_entry (Some r) p # rs else r # upsert_pipeline p rs)"

definition entry_of :: "pipeline_spec \<Rightarrow> pipeline_entry_data" where
  "entry_of p = \<lparr> pe_name = pl_name p, pe_bundle = pl_bundle p, pe_description = pl_description p \<rparr>"

definition merge_pipeline :: "pipeline_spec \<Rightarrow> pipeline_entry_data list \<Rightarrow> pipeline_entry_data list" where
  "merge_pipeline p result =
     (if pl_removed p then filter (\<lambda>r. pe_name r \<noteq> pl_name p) result else upsert_pipeline (entry_of p) result)"

definition mergePipelines :: "pipeline_entry_data list \<Rightarrow> pipeline_config_spec \<Rightarrow> pipeline_entry_data list" where
  "mergePipelines defaults spec =
     fold merge_pipeline (pcs_pipelines spec) (if \<not> removeDefaults spec then defaults else [])"

definition ensureDefaultPipeline :: "pipeline_config_data \<Rightarrow> pipeline_config_data" where
  "ensureDefaultPipeline cfg =
     (if pcd_defaultPipelineName cfg = [] \<or> pcd_pipelines cfg = [] then cfg
      else if list_ex (\<lambda>p. pe_name p = pcd_defaultPipelineName cfg) (pcd_pipelines cfg) then cfg
      else cfg\<lparr> pcd_defaultPipelineName := pe_name (hd (pcd_pipelines cfg)) \<rparr>)"

record yaml_lib =
  yaml_unmarshal :: "string \<Rightarrow> pipeline_config_data result"
  yaml_marshal :: "pipeline_config_data \<Rightarrow> string result"

definition applyPipelineConfigMerge :: "yaml_lib \<Rightarrow> smap \<Rightarrow> pipeline_config_spec option \<Rightarrow> smap result" where
  "applyPipelineConfigMerge Y data pc = (case pc of
     None \<Rightarrow> Inr data
   | Some spec \<Rightarrow> (case map_of data ''config.yaml'' of
       None \<Rightarrow> Inl (NewError ''build-pipeline-config ConfigMap missing config.yaml key'')
     | Some configData \<Rightarrow> (case yaml_unmarshal Y configData of
         Inl e \<Rightarrow> Inl (Errorf ''failed to parse config.yaml'' e)
       | Inr cfg \<Rightarrow>
           let cfg1 = cfg\<lparr> pcd_pipelines := mergePipelines (pcd_pipelines cfg) spec \<rparr>;
               cfg2 = (if pcs_defaultPipelineName spec \<noteq> [] then cfg1\<lparr> pcd_defaultPipelineName := pcs_defaultPipelineName spec \<rparr> else cfg1);
               cfg3 = ensureDefaultPipeline cfg2
           in case yaml_marshal Y cfg3 of
                Inl e \<Rightarrow> Inl (Errorf ''failed to serialize merged config.yaml'' e)
              | Inr out \<Rightarrow> Inr (sput ''config.yaml'' out data))))"

section \<open>Properties\<close>

lemma pe_name_merge_entry [simp]: "pe_name (merge_entry old e) = pe_name e"
  by (simp add: merge_entry_def split: option.splits)

interpretation pipelines: keyed_update pe_name upsert_pipeline merge_entry
proof
  fix k x xs
  show "find_key pe_name k (upsert_pipeline x xs) =
      (if k = pe_name x then Some (merge_entry (find_key pe_name k xs) x) else find_key pe_name k xs)"
    by (induction xs) (auto simp: merge_entry_def)
  show "map pe_name (upsert_pipeline x xs) = map pe_name xs @ (if pe_name x \<in> pe_name ` set xs then [] else [pe_name x])"
    by (induction xs) auto
qed

text \<open>The entry under a name after processing the user's list: what the last mention of the name says.\<close>

lemma find_merge_pipeline: "find_key pe_name n (merge_pipeline p rs) =
    (if n = pl_name p then (if pl_removed p then None else Some (merge_entry (find_key pe_name n rs) (entry_of p)))
     else find_key pe_name n rs)"
  by (auto simp: merge_pipeline_def pipelines.upd_find entry_of_def find_key_filter_out find_key_filter)

lemma find_merge_other: "n \<notin> pl_name ` set ps \<Longrightarrow>
    find_key pe_name n (fold merge_pipeline ps rs) = find_key pe_name n rs"
  by (induction ps arbitrary: rs) (auto simp: find_merge_pipeline)

lemma distinct_merge: "distinct (map pe_name rs) \<Longrightarrow> distinct (map pe_name (fold merge_pipeline ps rs))"
proof (induction ps arbitrary: rs)
  case (Cons p ps)
  have "distinct (map pe_name (merge_pipeline p rs))"
    using Cons.prems pipelines.upd_distinct [of rs "entry_of p"]
    by (simp add: merge_pipeline_def distinct_map_filter)
  with Cons.IH show ?case by simp
qed simp

text \<open>
  (C34) Merging pipelines obeys the last mention of each name: a pipeline the user does not mention is
  the default one, or absent with \<open>removeDefaults\<close>; one whose last mention is \<open>removed\<close> is absent; otherwise
  it is present with the bundle of the last mention, and with its description unless that is empty.
  Names stay unique.
\<close>

theorem mergePipelines_correct:
  "(n \<notin> pl_name ` set (pcs_pipelines spec) \<longrightarrow>
      find_key pe_name n (mergePipelines defaults spec) = (if removeDefaults spec then None else find_key pe_name n defaults)) \<and>
   (\<forall>before p after. pcs_pipelines spec = before @ p # after \<and> pl_name p \<notin> pl_name ` set after \<longrightarrow>
      (if pl_removed p then find_key pe_name (pl_name p) (mergePipelines defaults spec) = None
       else \<exists>e. find_key pe_name (pl_name p) (mergePipelines defaults spec) = Some e \<and> pe_bundle e = pl_bundle p \<and>
              (pl_description p \<noteq> [] \<longrightarrow> pe_description e = pl_description p))) \<and>
   (distinct (map pe_name defaults) \<longrightarrow> distinct (map pe_name (mergePipelines defaults spec)))"
proof (intro conjI allI impI)
  fix before p after
  let ?rs = "if \<not> removeDefaults spec then defaults else []"
  assume "pcs_pipelines spec = before @ p # after \<and> pl_name p \<notin> pl_name ` set after"
  then have "find_key pe_name (pl_name p) (mergePipelines defaults spec) =
      find_key pe_name (pl_name p) (merge_pipeline p (fold merge_pipeline before ?rs))"
    by (simp add: mergePipelines_def find_merge_other)
  then show "if pl_removed p then find_key pe_name (pl_name p) (mergePipelines defaults spec) = None
       else \<exists>e. find_key pe_name (pl_name p) (mergePipelines defaults spec) = Some e \<and> pe_bundle e = pl_bundle p \<and>
              (pl_description p \<noteq> [] \<longrightarrow> pe_description e = pl_description p)"
    by (auto simp: find_merge_pipeline merge_entry_def entry_of_def split: option.splits)
qed (auto simp: mergePipelines_def find_merge_other intro: distinct_merge)

lemma ensureDefaultPipeline_valid:
  assumes "pcd_defaultPipelineName cfg \<noteq> []" and "pcd_pipelines cfg \<noteq> []"
  shows "pcd_defaultPipelineName (ensureDefaultPipeline cfg) \<in> pe_name ` set (pcd_pipelines (ensureDefaultPipeline cfg))"
  using assms by (auto simp: ensureDefaultPipeline_def list_ex_iff image_iff) (metis)

text \<open>
  (C35) The merged ConfigMap is consistent: when the merge succeeds, the written \<open>config.yaml\<close> parses to the
  merged pipelines and its default pipeline is one of them, unless there is no default or no pipeline
  at all; other keys of the ConfigMap are kept. (The YAML library parses what it has printed.)
\<close>

theorem applyPipelineConfigMerge_correct:
  assumes yaml: "\<And>cfg s. yaml_marshal Y cfg = Inr s \<Longrightarrow> yaml_unmarshal Y s = Inr cfg"
    and run: "applyPipelineConfigMerge Y data (Some spec) = Inr data'"
  shows "\<exists>cfg0 cfg. yaml_unmarshal Y (go_get data ''config.yaml'') = Inr cfg0 \<and>
    yaml_unmarshal Y (go_get data' ''config.yaml'') = Inr cfg \<and>
    pcd_pipelines cfg = mergePipelines (pcd_pipelines cfg0) spec \<and>
    (pcd_defaultPipelineName cfg = [] \<or> pcd_pipelines cfg = [] \<or>
       pcd_defaultPipelineName cfg \<in> pe_name ` set (pcd_pipelines cfg)) \<and>
    (\<forall>k. k \<noteq> ''config.yaml'' \<longrightarrow> go_get data' k = go_get data k)"
proof -
  from run obtain s cfg0 where s: "map_of data ''config.yaml'' = Some s" "yaml_unmarshal Y s = Inr cfg0"
    by (auto simp: applyPipelineConfigMerge_def split: option.splits sum.splits)
  define cfg1 where "cfg1 = cfg0\<lparr> pcd_pipelines := mergePipelines (pcd_pipelines cfg0) spec \<rparr>"
  define cfg2 where "cfg2 = (if pcs_defaultPipelineName spec \<noteq> [] then cfg1\<lparr> pcd_defaultPipelineName := pcs_defaultPipelineName spec \<rparr> else cfg1)"
  from run s obtain out where out: "yaml_marshal Y (ensureDefaultPipeline cfg2) = Inr out" "data' = sput ''config.yaml'' out data"
    unfolding cfg2_def cfg1_def by (auto simp: applyPipelineConfigMerge_def Let_def split: sum.splits)
  have "pcd_pipelines (ensureDefaultPipeline cfg2) = mergePipelines (pcd_pipelines cfg0) spec"
    by (simp add: ensureDefaultPipeline_def cfg1_def cfg2_def)
  moreover have "pcd_defaultPipelineName (ensureDefaultPipeline cfg2) = [] \<or> pcd_pipelines (ensureDefaultPipeline cfg2) = [] \<or>
      pcd_defaultPipelineName (ensureDefaultPipeline cfg2) \<in> pe_name ` set (pcd_pipelines (ensureDefaultPipeline cfg2))"
    using ensureDefaultPipeline_valid [of cfg2] by (auto simp: ensureDefaultPipeline_def)
  ultimately show ?thesis
    using s out yaml [OF out(1)] by (intro exI [of _ cfg0] exI [of _ "ensureDefaultPipeline cfg2"]) (simp add: go_get_def)
qed

section \<open>Concrete instances\<close>

definition ex_entry :: "string \<Rightarrow> string \<Rightarrow> string \<Rightarrow> pipeline_entry_data" where
  "ex_entry n b d = \<lparr> pe_name = n, pe_bundle = b, pe_description = d \<rparr>"

definition ex_spec :: pipeline_config_spec where
  "ex_spec = \<lparr> removeDefaults = False, pcs_defaultPipelineName = [],
     pcs_pipelines = [\<lparr> pl_name = ''docker'', pl_bundle = ''b2'', pl_description = [], pl_removed = False \<rparr>,
                      \<lparr> pl_name = ''fbc'', pl_bundle = [], pl_description = [], pl_removed = True \<rparr>] \<rparr>"

theorem mergePipelines_correct_witness:
  "(\<exists>e. find_key pe_name ''docker'' (mergePipelines [ex_entry ''fbc'' ''b0'' ''d0'', ex_entry ''docker'' ''b1'' ''d1''] ex_spec)
     = Some e \<and> pe_bundle e = ''b2'') \<and>
   ''other'' \<notin> pl_name ` set (pcs_pipelines ex_spec)"
proof -
  have "pcs_pipelines ex_spec = [] @ \<lparr> pl_name = ''docker'', pl_bundle = ''b2'', pl_description = [], pl_removed = False \<rparr> #
      [\<lparr> pl_name = ''fbc'', pl_bundle = [], pl_description = [], pl_removed = True \<rparr>]"
    by (simp add: ex_spec_def)
  with mergePipelines_correct [of "''other''" ex_spec "[ex_entry ''fbc'' ''b0'' ''d0'', ex_entry ''docker'' ''b1'' ''d1'']"]
  show ?thesis by fastforce
qed

definition ex_cfg :: pipeline_config_data where
  "ex_cfg = \<lparr> pcd_defaultPipelineName = ''fbc'', pcd_pipelines = [ex_entry ''fbc'' ''b0'' ''d0'', ex_entry ''docker'' ''b1'' ''d1''] \<rparr>"

definition ex_cfg' :: pipeline_config_data where
  "ex_cfg' = \<lparr> pcd_defaultPipelineName = ''docker'', pcd_pipelines = [ex_entry ''docker'' ''b2'' ''d1''] \<rparr>"

definition ex_yaml :: yaml_lib where
  "ex_yaml = \<lparr> yaml_unmarshal = (\<lambda>s. if s = ''A'' then Inr ex_cfg else if s = ''B'' then Inr ex_cfg' else Inl (NewError ''yaml'')),
     yaml_marshal = (\<lambda>c. if c = ex_cfg' then Inr ''B'' else Inl (NewError ''yaml'')) \<rparr>"

lemma ex_merge_config: "applyPipelineConfigMerge ex_yaml [(''config.yaml'', ''A'')] (Some ex_spec) = Inr [(''config.yaml'', ''B'')]"
  by (simp add: applyPipelineConfigMerge_def ex_yaml_def ex_cfg_def ex_cfg'_def ex_spec_def ex_entry_def mergePipelines_def
      merge_pipeline_def entry_of_def merge_entry_def ensureDefaultPipeline_def)

theorem applyPipelineConfigMerge_correct_witness:
  "applyPipelineConfigMerge ex_yaml [(''config.yaml'', ''A'')] (Some ex_spec) = Inr [(''config.yaml'', ''B'')] \<and>
   pcd_pipelines ex_cfg' = mergePipelines (pcd_pipelines ex_cfg) ex_spec"
proof -
  have yaml: "yaml_marshal ex_yaml cfg = Inr s \<Longrightarrow> yaml_unmarshal ex_yaml s = Inr cfg" for cfg s
    by (auto simp: ex_yaml_def split: if_splits)
  from applyPipelineConfigMerge_correct [OF yaml ex_merge_config] ex_merge_config show ?thesis
    by (auto simp: ex_yaml_def go_get_def)
qed

end
