(* ===== verification/Manifests.thy ===== *)
theory Manifests
  imports Pipeline_Config
begin

text \<open>
  What the component reconcilers share: the store of embedded manifests (\<open>pkg/manifests\<close>), cluster
  discovery (\<open>pkg/clusterinfo\<close>), the classification of metrics scrape resources and their bindings
  (\<open>pkg/kubernetes\<close>), the helpers of \<open>internal/common\<close>, the watch handlers
  (\<open>internal/controller/handler\<close>), the watch predicates (\<open>internal/predicate\<close>) and the resolution of
  the Segment write key (\<open>pkg/segment\<close>).
\<close>

section \<open>Object store\<close>

datatype component = ApplicationAPI | BuildService | CertManager | CLI | DefaultTenant | EnterpriseContract
  | ImageController | Integration | NamespaceLister | RBAC | Registry | Release | UI | Info | SegmentBridge

definition component_name :: "component \<Rightarrow> string" where
  "component_name c = (case c of ApplicationAPI \<Rightarrow> ''application-api'' | BuildService \<Rightarrow> ''build-service''
     | CertManager \<Rightarrow> ''cert-manager'' | CLI \<Rightarrow> ''cli'' | DefaultTenant \<Rightarrow> ''default-tenant''
     | EnterpriseContract \<Rightarrow> ''enterprise-contract'' | ImageController \<Rightarrow> ''image-controller''
     | Integration \<Rightarrow> ''integration'' | NamespaceLister \<Rightarrow> ''namespace-lister'' | RBAC \<Rightarrow> ''rbac''
     | Registry \<Rightarrow> ''registry'' | Release \<Rightarrow> ''release'' | UI \<Rightarrow> ''ui'' | Info \<Rightarrow> ''info''
     | SegmentBridge \<Rightarrow> ''segment-bridge'')"

definition AllComponents :: "component list" where
  "AllComponents = [ApplicationAPI, RBAC, CertManager, CLI, DefaultTenant, EnterpriseContract, Release, BuildService,
     Integration, NamespaceLister, Registry, UI, ImageController, Info, SegmentBridge]"

text \<open>
  The parsed manifests. Deep copies are returned to callers; for values a copy is the value itself.
\<close>

record object_store =
  store_objects :: "(component \<times> kobj list) list"

definition deepCopyObjects :: "kobj list \<Rightarrow> kobj list" where
  "deepCopyObjects objects = map (\<lambda>obj. obj) objects"

definition GetForComponent :: "object_store \<Rightarrow> component \<Rightarrow> kobj list result" where
  "GetForComponent S c = (case map_of (store_objects S) c of
     None \<Rightarrow> Inl (NewError (''unknown component: '' @ component_name c))
   | Some objects \<Rightarrow> Inr (deepCopyObjects objects))"

definition GetCRDNamesForComponent :: "object_store \<Rightarrow> component \<Rightarrow> string list result" where
  "GetCRDNamesForComponent S c = (case map_of (store_objects S) c of
     None \<Rightarrow> Inl (NewError (''unknown component: '' @ component_name c))
   | Some objects \<Rightarrow> Inr (map o_name (filter IsCustomResourceDefinition objects)))"

section \<open>Cluster information\<close>

text \<open>
  The discovery client, outside the repository: the kinds of a group version, or an error, and the git
  version of the API server (\<open>None\<close> for a nil answer).
\<close>

record discovery =
  ServerResourcesForGroupVersion :: "string \<Rightarrow> string list result"
  ServerVersion :: "string option result"

datatype platform = OpenShift | DefaultPlatform

record cluster_info =
  ci_discovery :: discovery
  ci_platform :: platform

definition IsOpenShift :: "cluster_info \<Rightarrow> bool" where
  "IsOpenShift i \<longleftrightarrow> ci_platform i = OpenShift"

definition K8sVersion :: "cluster_info \<Rightarrow> string option result" where
  "K8sVersion i = ServerVersion (ci_discovery i)"

definition detectOpenShift :: "discovery \<Rightarrow> bool result" where
  "detectOpenShift d = (case ServerResourcesForGroupVersion d ''config.openshift.io/v1'' of
     Inl e \<Rightarrow> if IsNotFound e then Inr False else Inl (Errorf ''failed to check for OpenShift API group'' e)
   | Inr kinds \<Rightarrow> Inr (''ClusterVersion'' \<in> set kinds))"

definition DetectWithClient :: "discovery \<Rightarrow> cluster_info result" where
  "DetectWithClient d = (case detectOpenShift d of
     Inl e \<Rightarrow> Inl (Errorf ''failed to detect platform'' e)
   | Inr isOpenShift \<Rightarrow> Inr \<lparr> ci_discovery = d, ci_platform = (if isOpenShift then OpenShift else DefaultPlatform) \<rparr>)"

definition HasAllResources :: "cluster_info \<Rightarrow> string \<Rightarrow> string list \<Rightarrow> bool result" where
  "HasAllResources i groupVersion kinds = (case ServerResourcesForGroupVersion (ci_discovery i) groupVersion of
     Inl e \<Rightarrow> if IsNotFound e then Inr False
              else Inl (Errorf (''failed to check '' @ groupVersion @ '' resources'') e)
   | Inr available \<Rightarrow> Inr (list_all (\<lambda>kind. kind \<in> set available) kinds))"

definition HasResource :: "cluster_info \<Rightarrow> string \<Rightarrow> string \<Rightarrow> bool result" where
  "HasResource i groupVersion kind = HasAllResources i groupVersion [kind]"

definition HasTekton :: "cluster_info \<Rightarrow> bool result" where
  "HasTekton i = HasResource i ''tekton.dev/v1'' ''Pipeline''"

definition HasCertManager :: "cluster_info \<Rightarrow> bool result" where
  "HasCertManager i = HasAllResources i ''cert-manager.io/v1'' [''Certificate'', ''Issuer'', ''ClusterIssuer'']"

text \<open>A nil \<open>*clusterinfo.Info\<close> counts as not being on OpenShift.\<close>

definition on_openshift :: "cluster_info option \<Rightarrow> bool" where
  "on_openshift ci = (case ci of None \<Rightarrow> False | Some i \<Rightarrow> IsOpenShift i)"

definition GetKubeSystemUID :: "'s api \<Rightarrow> 's world \<Rightarrow> string result \<times> 's world" where
  "GetKubeSystemUID A w = (case k_get A (mk_gvk [] ''v1'' ''Namespace'') [] ''kube-system'' w of
     (Inl e, w') \<Rightarrow> (Inl e, w')
   | (Inr ns, w') \<Rightarrow> (if o_uid ns = [] then Inl (NewError ''kube-system namespace has empty UID'') else Inr (o_uid ns), w'))"

section \<open>Metrics scrape resources\<close>

definition serviceMonitorGVK :: gvk where
  "serviceMonitorGVK = mk_gvk ''monitoring.coreos.com'' ''v1'' ''ServiceMonitor''"
definition secretGVK :: gvk where "secretGVK = mk_gvk [] ''v1'' ''Secret''"
definition serviceAccountGVK :: gvk where "serviceAccountGVK = mk_gvk [] ''v1'' ''ServiceAccount''"
definition clusterRoleGVK :: gvk where
  "clusterRoleGVK = mk_gvk ''rbac.authorization.k8s.io'' ''v1'' ''ClusterRole''"
definition clusterRoleBindingGVK :: gvk where
  "clusterRoleBindingGVK = mk_gvk ''rbac.authorization.k8s.io'' ''v1'' ''ClusterRoleBinding''"

definition ComponentMetricsOrphanCleanupGVKs :: "gvk list" where
  "ComponentMetricsOrphanCleanupGVKs =
     [serviceMonitorGVK, secretGVK, serviceAccountGVK, clusterRoleGVK, clusterRoleBindingGVK]"

abbreviation MetricsScraperServiceAccountName :: string where "MetricsScraperServiceAccountName \<equiv> ''metrics-scraper''"
abbreviation LegacyMetricsReaderServiceAccountName :: string where "LegacyMetricsReaderServiceAccountName \<equiv> ''metrics-reader''"
abbreviation MetricsReaderNameSuffix :: string where "MetricsReaderNameSuffix \<equiv> ''-metrics-reader''"
abbreviation ScrapeTokenSecretName :: string where "ScrapeTokenSecretName \<equiv> ''prometheus-scrape-token''"
abbreviation SecretTypeServiceAccountToken :: string where
  "SecretTypeServiceAccountToken \<equiv> ''kubernetes.io/service-account-token''"

definition objectGroupVersionKind :: "kobj \<Rightarrow> gvk" where
  "objectGroupVersionKind obj =
     (if \<not> gvk_Empty (o_gvk obj) then o_gvk obj
      else (case o_body obj of
              BClusterRole j \<Rightarrow> clusterRoleGVK
            | BClusterRoleBinding rr ss \<Rightarrow> clusterRoleBindingGVK
            | BServiceAccount \<Rightarrow> serviceAccountGVK
            | BSecret t d \<Rightarrow> secretGVK
            | BSecretStringData d \<Rightarrow> secretGVK
            | _ \<Rightarrow> o_gvk obj))"

definition isMetricsReaderServiceAccountName :: "string \<Rightarrow> bool" where
  "isMetricsReaderServiceAccountName name \<longleftrightarrow>
     name = LegacyMetricsReaderServiceAccountName \<or> HasSuffix name MetricsReaderNameSuffix"

definition IsComponentMetricsServiceMonitor :: "kobj \<Rightarrow> bool" where
  "IsComponentMetricsServiceMonitor obj = (let g = objectGroupVersionKind obj in
     Group g = Group serviceMonitorGVK \<and> Kind g = Kind serviceMonitorGVK)"

text \<open>\<open>unstructured.NestedString\<close> at a top-level field: the empty string when it is no string.\<close>

fun json_string_field :: "json \<Rightarrow> string \<Rightarrow> string" where
  "json_string_field (JObject fs) k = (case map_of fs k of Some (JString s) \<Rightarrow> s | _ \<Rightarrow> [])"
| "json_string_field _ k = []"

definition IsComponentMetricsScrapeResource :: "kobj \<Rightarrow> bool" where
  "IsComponentMetricsScrapeResource obj =
     (let g = objectGroupVersionKind obj;
          name = o_name obj;
          saName = go_get (o_annotations obj) ''kubernetes.io/service-account.name''
      in if Group g = Group serviceMonitorGVK then Kind g = Kind serviceMonitorGVK
         else if Group g = Group clusterRoleGVK then
           (if Kind g = Kind clusterRoleGVK then HasSuffix name MetricsReaderNameSuffix
            else if Kind g = Kind clusterRoleBindingGVK
            then HasPrefix name ''prometheus-'' \<and> HasSuffix name MetricsReaderNameSuffix
            else False)
         else if Group g = [] then
           (if Kind g = Kind serviceAccountGVK then isMetricsReaderServiceAccountName name
            else if Kind g = Kind secretGVK then
              (if name = ScrapeTokenSecretName then True
               else (case o_body obj of
                       BSecret t d \<Rightarrow> if t \<noteq> SecretTypeServiceAccountToken then False
                                     else isMetricsReaderServiceAccountName saName
                     | BUnstructured j \<Rightarrow> json_string_field j ''type'' = SecretTypeServiceAccountToken \<and>
                                     isMetricsReaderServiceAccountName saName
                     | _ \<Rightarrow> False))
            else False)
         else False)"

definition MetricsScraperBindingSubjects :: "string \<Rightarrow> subject list" where
  "MetricsScraperBindingSubjects operandNamespace =
     [\<lparr> sub_kind = ''ServiceAccount'', sub_name = MetricsScraperServiceAccountName, sub_namespace = operandNamespace \<rparr>]"

definition EnsureMetricsScraperServiceAccount :: "'s api \<Rightarrow> string \<Rightarrow> 's world \<Rightarrow> go_error option \<times> 's world" where
  "EnsureMetricsScraperServiceAccount A namespace w =
     (if namespace = [] then (Some (NewError ''namespace is required''), w)
      else (case k_get A serviceAccountGVK namespace MetricsScraperServiceAccountName w of
              (Inr existing, w1) \<Rightarrow> (None, w1)
            | (Inl e, w1) \<Rightarrow>
                if \<not> IsNotFound e
                then (Some (Errorf (''get metrics scraper serviceaccount '' @ namespace @ ''/'' @ MetricsScraperServiceAccountName) e), w1)
                else (case k_create A (new_object (mk_gvk [] [] []) namespace MetricsScraperServiceAccountName BServiceAccount) w1 of
                        (Inl e', w2) \<Rightarrow> (Some e', w2)
                      | (Inr obj, w2) \<Rightarrow> (None, w2))))"

abbreviation MetricsScraperBindingAnnotation :: string where
  "MetricsScraperBindingAnnotation \<equiv> ''konflux.konflux-ci.dev/metrics-scraper-binding''"

definition HasMetricsScraperBindingAnnotation :: "kobj \<Rightarrow> bool" where
  "HasMetricsScraperBindingAnnotation obj \<longleftrightarrow> go_get (o_annotations obj) MetricsScraperBindingAnnotation = ''true''"

text \<open>\<open>unstructured.SetNestedSlice\<close> at a top-level field of the object map.\<close>

fun json_put :: "string \<Rightarrow> json \<Rightarrow> json \<Rightarrow> json" where
  "json_put k v (JObject fs) = JObject (AList.update k v fs)"
| "json_put k v _ = JObject [(k, v)]"

definition subject_json :: "subject \<Rightarrow> json" where
  "subject_json s = JObject [(''kind'', JString (sub_kind s)), (''name'', JString (sub_name s)), (''namespace'', JString (sub_namespace s))]"

text \<open>\<open>fmt.Sprintf("%T", obj)\<close> for the types the operator handles.\<close>

definition go_type :: "body \<Rightarrow> string" where
  "go_type b = (case b of BDeployment d \<Rightarrow> ''*v1.Deployment'' | BCronJob c \<Rightarrow> ''*v1.CronJob''
     | BConfigMap d \<Rightarrow> ''*v1.ConfigMap'' | BSecret t d \<Rightarrow> ''*v1.Secret'' | BSecretStringData d \<Rightarrow> ''*v1.Secret''
     | BService t p j \<Rightarrow> ''*v1.Service'' | BServiceAccount \<Rightarrow> ''*v1.ServiceAccount''
     | BClusterRole j \<Rightarrow> ''*v1.ClusterRole'' | BClusterRoleBinding r s \<Rightarrow> ''*v1.ClusterRoleBinding''
     | BNamespace \<Rightarrow> ''*v1.Namespace'' | BCustomResourceDefinition j \<Rightarrow> ''*v1.CustomResourceDefinition''
     | BUnstructured j \<Rightarrow> ''*unstructured.Unstructured'' | BKonflux s u \<Rightarrow> ''*v1alpha1.Konflux''
     | BKonfluxCR s \<Rightarrow> ''*v1alpha1.KonfluxCR'' | BOther t j \<Rightarrow> t)"

definition SetBindingSubjects :: "kobj \<Rightarrow> subject list \<Rightarrow> kobj result" where
  "SetBindingSubjects obj subjects = (case o_body obj of
     BClusterRoleBinding rr ss \<Rightarrow> Inr (obj\<lparr> o_body := BClusterRoleBinding rr subjects \<rparr>)
   | BUnstructured j \<Rightarrow> Inr (obj\<lparr> o_body := BUnstructured (json_put ''subjects'' (JArray (map subject_json subjects)) j) \<rparr>)
   | b \<Rightarrow> Inl (NewError (''unsupported ClusterRoleBinding type '' @ go_type b)))"

definition EnsureMetricsReaderBinding :: "'s api \<Rightarrow> string \<Rightarrow> string \<Rightarrow> subject list \<Rightarrow> 's world \<Rightarrow> go_error option \<times> 's world" where
  "EnsureMetricsReaderBinding A bindingName clusterRoleName subjects w =
     (if bindingName = [] \<or> clusterRoleName = []
      then (Some (NewError ''binding and cluster role names are required''), w)
      else if subjects = [] then (Some (NewError ''at least one subject is required''), w)
      else (case k_get A clusterRoleBindingGVK [] bindingName w of
        (Inl e, w1) \<Rightarrow>
          if IsNotFound e
          then (case k_create A ((new_object (mk_gvk [] [] []) [] bindingName
                       (BClusterRoleBinding \<lparr> rr_apiGroup = ''rbac.authorization.k8s.io'', rr_kind = Kind clusterRoleGVK, rr_name = clusterRoleName \<rparr> subjects))
                     \<lparr> o_annotations := [(MetricsScraperBindingAnnotation, ''true'')] \<rparr>) w1 of
                  (Inl e', w2) \<Rightarrow> (Some e', w2)
                | (Inr obj, w2) \<Rightarrow> (None, w2))
          else (Some (Errorf (''get ClusterRoleBinding '' @ quoted bindingName) e), w1)
      | (Inr existing, w1) \<Rightarrow>
          let rr = (case o_body existing of BClusterRoleBinding rr ss \<Rightarrow> rr
                    | _ \<Rightarrow> \<lparr> rr_apiGroup = [], rr_kind = [], rr_name = [] \<rparr>);
              p = existing\<lparr> o_body := BClusterRoleBinding rr subjects,
                            o_annotations := sput MetricsScraperBindingAnnotation ''true'' (o_annotations existing) \<rparr>
          in (case k_direct_patch A (MergeFrom existing) \<lparr> FieldOwner = [], ForceOwnership = False \<rparr> p w1 of
                (Inl e', w2) \<Rightarrow> (Some e', w2)
              | (Inr obj, w2) \<Rightarrow> (None, w2))))"

section \<open>Helpers of the reconcilers\<close>

definition ApplyMetricsScraperBindingSubjects :: "string \<Rightarrow> kobj \<Rightarrow> kobj result" where
  "ApplyMetricsScraperBindingSubjects operandNamespace obj =
     (if \<not> HasMetricsScraperBindingAnnotation obj then Inr obj
      else SetBindingSubjects obj (MetricsScraperBindingSubjects operandNamespace))"

definition ForwardedComponentMetrics :: "konflux_spec \<Rightarrow> component_metrics_config option" where
  "ForwardedComponentMetrics spec = (case componentMetrics spec of None \<Rightarrow> None | Some m \<Rightarrow> Some m)"

fun ensure_namespaces :: "machinery \<Rightarrow> 's api \<Rightarrow> string \<Rightarrow> kobj list \<Rightarrow> tracking_client \<Rightarrow> 's world \<Rightarrow>
    go_error option \<times> tracking_client \<times> 's world" where
  "ensure_namespaces M A expectedName [] tc w = (None, tc, w)"
| "ensure_namespaces M A expectedName (obj # objs) tc w = (case o_body obj of
     BNamespace \<Rightarrow>
       if o_name obj \<noteq> expectedName
       then (Some (NewError (''unexpected namespace name in manifest: expected '' @ expectedName @ '', got '' @ o_name obj)), tc, w)
       else (case ApplyOwned M A obj tc w of
               (Inl e, tc', w') \<Rightarrow> (Some (Errorf (''failed to apply namespace '' @ o_name obj) e), tc', w')
             | (Inr obj', tc', w') \<Rightarrow> ensure_namespaces M A expectedName objs tc' w')
   | _ \<Rightarrow> ensure_namespaces M A expectedName objs tc w)"

definition EnsureNamespaceExists :: "machinery \<Rightarrow> 's api \<Rightarrow> object_store \<Rightarrow> component \<Rightarrow> string \<Rightarrow> tracking_client \<Rightarrow> 's world \<Rightarrow>
    go_error option \<times> tracking_client \<times> 's world" where
  "EnsureNamespaceExists M A S c expectedName tc w = (case GetForComponent S c of
     Inl e \<Rightarrow> (Some (Errorf (''failed to get parsed manifests for '' @ component_name c) e), tc, w)
   | Inr objects \<Rightarrow> ensure_namespaces M A expectedName objects tc w)"

definition EnsureTrustedCAConfigMap :: "machinery \<Rightarrow> 's api \<Rightarrow> string \<Rightarrow> cluster_info option \<Rightarrow> tracking_client \<Rightarrow> 's world \<Rightarrow>
    go_error option \<times> tracking_client \<times> 's world" where
  "EnsureTrustedCAConfigMap M A namespace ci tc w =
     (if \<not> on_openshift ci then (None, tc, w)
      else (case ApplyOwned M A ((new_object (mk_gvk [] ''v1'' ''ConfigMap'') namespace ''trusted-ca'' (BConfigMap []))
                   \<lparr> o_labels := [(''config.openshift.io/inject-trusted-cabundle'', ''true'')] \<rparr>) tc w of
              (Inl e, tc', w') \<Rightarrow> (Some (Errorf (''failed to apply trusted-ca ConfigMap in '' @ namespace) e), tc', w')
            | (Inr obj, tc', w') \<Rightarrow> (None, tc', w')))"

definition OperandServiceMonitorFromObjects :: "kobj list \<Rightarrow> string \<Rightarrow> string \<Rightarrow> kobj option" where
  "OperandServiceMonitorFromObjects objects namespace name =
     List.find (\<lambda>obj. IsComponentMetricsServiceMonitor obj \<and> o_namespace obj = namespace \<and> o_name obj = name) objects"

text \<open>Watch handlers: the names of the singleton resources to reconcile for an event on an object.\<close>

definition MapKonfluxSingletonToRequest :: "string \<Rightarrow> string \<Rightarrow> kobj \<Rightarrow> string list" where
  "MapKonfluxSingletonToRequest konfluxSingletonName subCRName obj =
     (if o_name obj \<noteq> konfluxSingletonName then [] else [subCRName])"

definition MapCRDToRequest :: "object_store \<Rightarrow> component \<Rightarrow> string \<Rightarrow> (kobj \<Rightarrow> string list) \<times> go_error option" where
  "MapCRDToRequest S c crName = (case GetCRDNamesForComponent S c of
     Inl e \<Rightarrow> (\<lambda>obj. [], Some e)
   | Inr names \<Rightarrow>
       if names = [] then (\<lambda>obj. [], Some (NewError (''no CRD names for component '' @ component_name c)))
       else (\<lambda>obj. if o_name obj \<in> set names then [crName] else [], None))"

section \<open>Watch predicates\<close>

definition generationOrMetadataChanged :: "kobj \<Rightarrow> kobj \<Rightarrow> bool" where
  "generationOrMetadataChanged old new =
     (if o_generation old \<noteq> o_generation new then True
      else if o_ownerRefs old \<noteq> o_ownerRefs new then True
      else if \<not> maps_Equal (o_labels old) (o_labels new) then True
      else \<not> maps_Equal (o_annotations old) (o_annotations new))"

definition IgnoreStatusUpdates_Update :: "kobj option \<Rightarrow> kobj option \<Rightarrow> bool" where
  "IgnoreStatusUpdates_Update old new = (case (old, new) of
     (Some a, Some b) \<Rightarrow> generationOrMetadataChanged a b | _ \<Rightarrow> True)"

definition DeploymentReadiness_Update :: "kobj option \<Rightarrow> kobj option \<Rightarrow> bool" where
  "DeploymentReadiness_Update old new = (case (old, new) of
     (Some a, Some b) \<Rightarrow>
       if generationOrMetadataChanged a b then True
       else (case (o_body a, o_body b) of
               (BDeployment d, BDeployment e) \<Rightarrow>
                 readyReplicas d \<noteq> readyReplicas e \<or> availableReplicas d \<noteq> availableReplicas e \<or>
                 unavailableReplicas d \<noteq> unavailableReplicas e \<or> updatedReplicas d \<noteq> updatedReplicas e \<or>
                 statusReplicas d \<noteq> statusReplicas e
             | _ \<Rightarrow> True)
   | _ \<Rightarrow> True)"

definition KonfluxUIIngressStatusChanged_Update :: "kobj option \<Rightarrow> kobj option \<Rightarrow> bool" where
  "KonfluxUIIngressStatusChanged_Update old new = (case (old, new) of
     (Some a, Some b) \<Rightarrow>
       if generationOrMetadataChanged a b then True
       else (case (o_body a, o_body b) of
               (BKonfluxCR (UISpec _ oldIngress), BKonfluxCR (UISpec _ newIngress)) \<Rightarrow>
                 (case (oldIngress, newIngress) of
                    (None, None) \<Rightarrow> False
                  | (Some i, Some j) \<Rightarrow> ist_enabled i \<noteq> ist_enabled j \<or> ist_hostname i \<noteq> ist_hostname j \<or> ist_url i \<noteq> ist_url j
                  | _ \<Rightarrow> True)
             | _ \<Rightarrow> True)
   | _ \<Rightarrow> True)"

text \<open>
  (C36) No readiness change is missed: an update event of a Deployment that the watch predicate
  filters out leaves the Deployment's readiness, and with it the status and reason of its condition,
  as they were. (The message also quotes the Deployment's own conditions, which the predicate does not
  compare.)
\<close>

theorem DeploymentReadiness_filter_sound:
  assumes "\<not> DeploymentReadiness_Update (Some old) (Some new)"
    and "o_namespace old = o_namespace new" and "o_name old = o_name new"
  shows "IsDeploymentReady old = IsDeploymentReady new \<and>
    ctype (DeploymentCondition old) = ctype (DeploymentCondition new) \<and>
    cstatus (DeploymentCondition old) = cstatus (DeploymentCondition new) \<and>
    creason (DeploymentCondition old) = creason (DeploymentCondition new) \<and>
    o_generation old = o_generation new"
  using assms
  by (auto simp: DeploymentReadiness_Update_def generationOrMetadataChanged_def IsDeploymentReady_def as_deployment_def
      DeploymentCondition_def Let_def split: body.splits if_splits)

theorem DeploymentReadiness_filter_sound_witness:
  "\<not> DeploymentReadiness_Update (Some (ex_deployment ''a'' 2)) (Some ((ex_deployment ''a'' 2)\<lparr> o_resourceVersion := ''5'' \<rparr>)) \<and>
   IsDeploymentReady ((ex_deployment ''a'' 2)\<lparr> o_resourceVersion := ''5'' \<rparr>)"
proof -
  let ?d = "ex_deployment ''a'' 2"
  have f: "\<not> DeploymentReadiness_Update (Some ?d) (Some (?d\<lparr> o_resourceVersion := ''5'' \<rparr>))"
    by (simp add: DeploymentReadiness_Update_def generationOrMetadataChanged_def maps_Equal_def ex_deployment_def new_object_def)
  have "IsDeploymentReady ?d"
    by (simp add: ex_deployment_def new_object_def IsDeploymentReady_def as_deployment_def Let_def)
  with DeploymentReadiness_filter_sound [OF f] f show ?thesis by simp
qed

section \<open>Segment write key\<close>

definition ResolveWriteKey :: "string \<Rightarrow> string \<Rightarrow> string \<times> string" where
  "ResolveWriteKey crKey secretKey =
     (if crKey \<noteq> [] then (crKey, ''cr'') else if secretKey \<noteq> [] then (secretKey, ''secret'') else ([], []))"

definition ResolveWriteKeySecretRef :: "'s api \<Rightarrow> string \<Rightarrow> secret_key_selector option \<Rightarrow> 's world \<Rightarrow> string result \<times> 's world" where
  "ResolveWriteKeySecretRef A namespace ref w = (case ref of
     None \<Rightarrow> (Inr [], w)
   | Some r \<Rightarrow>
       let optional = (case sks_optional r of None \<Rightarrow> False | Some b \<Rightarrow> b)
       in (case k_get A secretGVK namespace (sks_name r) w of
             (Inl e, w') \<Rightarrow>
               if IsNotFound e \<and> optional then (Inr [], w')
               else (Inl (Errorf (''failed to get Secret '' @ namespace @ ''/'' @ sks_name r @ '' referenced by segmentKeySecretRef'') e), w')
           | (Inr secret, w') \<Rightarrow>
               (case (case o_body secret of BSecret t d \<Rightarrow> map_of d (sks_key r) | _ \<Rightarrow> None) of
                  None \<Rightarrow> if optional then (Inr [], w')
                          else (Inl (NewError (''key '' @ quoted (sks_key r) @ '' not found in Secret '' @ namespace @ ''/'' @ sks_name r @
                                  '' referenced by segmentKeySecretRef'')), w')
                | Some v \<Rightarrow> (Inr v, w'))))"

end
