(* ===== verification/Reconciler.thy ===== *)
theory Reconciler
  imports Manifests
begin

text \<open>
  What all reconcilers of \<open>internal/controller/*\<close> have in common: fetch the resource, apply objects
  through a fresh tracking client, clean up orphans, derive the status and write it. The shape is
  \<open>component_reconcile\<close>, with a \<open>component_def\<close> for what differs between the controllers; the locale
  \<open>reconcile_laws\<close> states what the two varying phases provide and proves, once for all controllers,
  what a reconcile does.
\<close>

section \<open>Applying manifests\<close>

definition apply_error :: "component \<Rightarrow> kobj \<Rightarrow> go_error \<Rightarrow> go_error" where
  "apply_error c obj e = Errorf (''failed to apply object '' @ o_namespace obj @ ''/'' @ o_name obj @ '' ('' @ GetKind obj @
     '') from '' @ component_name c) e"

text \<open>
  The loop over the manifests. \<open>prepare\<close> customises an object (\<open>Some\<close>), skips it (\<open>None\<close>) or fails.
\<close>

fun apply_objects :: "machinery \<Rightarrow> 's api \<Rightarrow> component \<Rightarrow> (kobj \<Rightarrow> kobj option result) \<Rightarrow> kobj list \<Rightarrow> tracking_client \<Rightarrow> 's world \<Rightarrow>
    go_error option \<times> tracking_client \<times> 's world" where
  "apply_objects M A c prepare [] tc w = (None, tc, w)"
| "apply_objects M A c prepare (obj # objs) tc w = (case prepare obj of
     Inl e \<Rightarrow> (Some e, tc, w)
   | Inr None \<Rightarrow> apply_objects M A c prepare objs tc w
   | Inr (Some obj') \<Rightarrow> (case ApplyOwned M A obj' tc w of
       (Inl e, tc', w') \<Rightarrow> (Some (apply_error c obj' e), tc', w')
     | (Inr obj'', tc', w') \<Rightarrow> apply_objects M A c prepare objs tc' w'))"

definition apply_manifests :: "machinery \<Rightarrow> 's api \<Rightarrow> object_store \<Rightarrow> component \<Rightarrow> string \<Rightarrow> (kobj \<Rightarrow> kobj option result) \<Rightarrow>
    tracking_client \<Rightarrow> 's world \<Rightarrow> go_error option \<times> tracking_client \<times> 's world" where
  "apply_manifests M A S c message prepare tc w = (case GetForComponent S c of
     Inl e \<Rightarrow> (Some (Errorf message e), tc, w)
   | Inr objects \<Rightarrow> apply_objects M A c prepare objects tc w)"

section \<open>The shape of a reconcile\<close>

text \<open>
  A failed apply phase reports the error with a reason and an operation, a successful one the
  result to return. A failed status phase also returns the resource as far as it got.
\<close>

type_synonym phase_result = "(go_error \<times> string \<times> string) + ctrl_result"
type_synonym status_result = "(kobj \<times> go_error \<times> string \<times> string) + (kobj \<times> ctrl_result)"

record 's component_def =
  cmp_gvk :: gvk
  cmp_component :: string
  cmp_fieldManager :: string
  cmp_cleanupGVKs :: "gvk list"
  cmp_opts :: "(cleanup_options \<Rightarrow> cleanup_options) list"
  cmp_apply :: "kobj \<Rightarrow> tracking_client \<Rightarrow> 's world \<Rightarrow> phase_result \<times> tracking_client \<times> 's world"
  cmp_status :: "ctrl_result \<Rightarrow> kobj \<Rightarrow> 's world \<Rightarrow> status_result \<times> 's world"

definition manifests_phase :: "go_error option \<times> tracking_client \<times> 's world \<Rightarrow> phase_result \<times> tracking_client \<times> 's world" where
  "manifests_phase r = (case r of
     (Some e, tc, w) \<Rightarrow> (Inl (e, ReasonApplyFailed, ''apply manifests''), tc, w)
   | (None, tc, w) \<Rightarrow> (Inr no_requeue, tc, w))"

text \<open>The status phase of a component: the readiness of its Deployments.\<close>

definition deployments_status :: "machinery \<Rightarrow> 's api \<Rightarrow> ctrl_result \<Rightarrow> kobj \<Rightarrow> 's world \<Rightarrow> status_result \<times> 's world" where
  "deployments_status M A res cr w = (case UpdateComponentStatuses M A cr w of
     (Inl e, w') \<Rightarrow> (Inl (cr, e, ReasonStatusUpdateFailed, ''update component statuses''), w')
   | (Inr cr', w') \<Rightarrow> (Inr (cr', res), w'))"

definition component_client :: "'s component_def \<Rightarrow> kobj \<Rightarrow> tracking_client" where
  "component_client K cr = NewClientWithOwnership \<lparr> Owner = cr, OwnerLabelKey = KonfluxOwnerLabel,
     ComponentLabelKey = KonfluxComponentLabel, Component = cmp_component K, FieldManager = cmp_fieldManager K \<rparr>"

definition finish_reconcile :: "machinery \<Rightarrow> 's api \<Rightarrow> nat list \<Rightarrow> 's component_def \<Rightarrow> ctrl_result \<Rightarrow> kobj \<Rightarrow> tracking_client \<Rightarrow>
    's world \<Rightarrow> 's outcome" where
  "finish_reconcile M A schedule K res cr tc w =
     (case CleanupOrphans M A schedule tc KonfluxOwnerLabel (o_name cr) (cmp_cleanupGVKs K) (cmp_opts K) w of
        (Some e, w1) \<Rightarrow> HandleCleanupError M A cr e w1
      | (None, w1) \<Rightarrow> (case cmp_status K res cr w1 of
          (Inl (cr', e, reason, operation), w2) \<Rightarrow> HandleWithReason M A cr' e reason operation w2
        | (Inr (cr', res'), w2) \<Rightarrow> (case k_status_update A cr' w2 of
            (Inl e, w3) \<Rightarrow> \<lparr> out_result = no_requeue, out_err = Some e, out_cr = Some cr', out_world = w3 \<rparr>
          | (Inr cr'', w3) \<Rightarrow> \<lparr> out_result = res', out_err = None, out_cr = Some cr'', out_world = w3 \<rparr>)))"

definition reconcile_fetched :: "machinery \<Rightarrow> 's api \<Rightarrow> nat list \<Rightarrow> 's component_def \<Rightarrow> kobj \<Rightarrow> 's world \<Rightarrow> 's outcome" where
  "reconcile_fetched M A schedule K cr w =
     (case cmp_apply K cr (component_client K cr) w of
        (Inl (e, reason, operation), tc, w1) \<Rightarrow> HandleWithReason M A cr e reason operation w1
      | (Inr res, tc, w1) \<Rightarrow> finish_reconcile M A schedule K res cr tc w1)"

definition component_reconcile :: "machinery \<Rightarrow> 's api \<Rightarrow> nat list \<Rightarrow> 's component_def \<Rightarrow> string \<Rightarrow> string \<Rightarrow> 's world \<Rightarrow> 's outcome" where
  "component_reconcile M A schedule K ns name w =
     (case k_get A (cmp_gvk K) ns name w of
        (Inl e, w1) \<Rightarrow> \<lparr> out_result = no_requeue, out_err = IgnoreNotFound e, out_cr = None, out_world = w1 \<rparr>
      | (Inr cr, w1) \<Rightarrow> reconcile_fetched M A schedule K cr w1)"

definition konflux_gvk :: "string \<Rightarrow> gvk" where
  "konflux_gvk kind = mk_gvk ''konflux.konflux-ci.dev'' ''v1alpha1'' kind"

section \<open>The laws of a reconciler\<close>

lemma apply_objects_keeps:
  "apply_objects M A c prepare objs tc w = (r, tc', w') \<Longrightarrow>
     ownership tc' = ownership tc \<and> tracked tc \<subseteq> tracked tc' \<and> emits (owned_apply M tc) w w'"
proof (induction objs arbitrary: tc w)
  case (Cons obj objs)
  show ?case
  proof (cases "prepare obj")
    case (Inr kept)
    show ?thesis
    proof (cases kept)
      case (Some obj')
      obtain r1 tc1 w1 where a: "ApplyOwned M A obj' tc w = (r1, tc1, w1)" by (cases "ApplyOwned M A obj' tc w") auto
      note one = ApplyOwned_ownership [OF a] ApplyOwned_tracked_mono [OF a] ApplyOwned_emits [OF a]
      show ?thesis
      proof (cases r1)
        case (Inl e)
        with Cons.prems a Inr Some one show ?thesis by auto
      next
        case (Inr obj'')
        with Cons.prems a \<open>prepare obj = Inr kept\<close> Some
        have "apply_objects M A c prepare objs tc1 w1 = (r, tc', w')" by simp
        from Cons.IH [OF this] one owned_apply_cong [OF one(1)] show ?thesis
          by (auto intro: emits_trans)
      qed
    qed (use Cons Inr in auto)
  qed (use Cons.prems in auto)
qed simp

lemma apply_objects_tracks:
  "apply_objects M A c prepare objs tc w = (r, tc', w') \<Longrightarrow> EPatch p opts obj (Inr obj') \<in> set (added w w') \<Longrightarrow>
     \<lparr> rk_gvk = tracked_gvk M obj', rk_namespace = o_namespace obj', rk_name = o_name obj' \<rparr> \<in> tracked tc'"
  and apply_objects_fails:
  "apply_objects M A c prepare objs tc w = (r, tc', w') \<Longrightarrow> EPatch p opts obj (Inl e) \<in> set (added w w') \<Longrightarrow> r \<noteq> None"
proof (induction objs arbitrary: tc w)
  case (Cons o1 objs)
  {
    case 1
    show ?case
    proof (cases "\<exists>o2. prepare o1 = Inr (Some o2)")
      case True
      then obtain o2 r1 tc1 w1 where a: "prepare o1 = Inr (Some o2)" "ApplyOwned M A o2 tc w = (r1, tc1, w1)"
        by (metis prod_cases3)
      show ?thesis
      proof (cases r1)
        case (Inl e)
        with 1 a have "w' = w1" "tc' = tc1" by auto
        with 1 a Inl show ?thesis
          by (auto simp: ApplyOwned_def ApplyObject_def k_call_added split: sum.splits option.splits prod.splits)
      next
        case (Inr o3)
        with 1 a have rest: "apply_objects M A c prepare objs tc1 w1 = (r, tc', w')" by simp
        note keeps = apply_objects_keeps [OF rest]
        have "extends w w1" using ApplyOwned_emits [OF a(2)] by (rule emits_extends)
        with keeps have ev: "added w w' = added w w1 @ added w1 w'" by (intro added_trans) (auto intro: emits_extends)
        from ApplyOwned_ok [OF a(2) [unfolded Inr]] have tc1: "tc1 = track M o3 tc"
          and w1: "\<exists>x y. added w w1 = [EPatch SSAPatch x y (Inr o3)]" by auto
        from 1(2) ev w1 consider "obj' = o3" | "EPatch p opts obj (Inr obj') \<in> set (added w1 w')" by auto
        then show ?thesis
        proof cases
          case 1
          then show ?thesis using tc1 keeps by auto
        qed (use Cons.IH(1) [OF rest] in blast)
      qed
    next
      case False
      with 1 Cons.IH(1) [of tc w] show ?thesis by (auto split: sum.splits option.splits)
    qed
  next
    case 2
    show ?case
    proof (cases "\<exists>o2. prepare o1 = Inr (Some o2)")
      case True
      then obtain o2 r1 tc1 w1 where a: "prepare o1 = Inr (Some o2)" "ApplyOwned M A o2 tc w = (r1, tc1, w1)"
        by (metis prod_cases3)
      show ?thesis
      proof (cases r1)
        case (Inl e)
        with 2 a show ?thesis by auto
      next
        case (Inr o3)
        with 2 a have rest: "apply_objects M A c prepare objs tc1 w1 = (r, tc', w')" by simp
        have "extends w w1" using ApplyOwned_emits [OF a(2)] by (rule emits_extends)
        with apply_objects_keeps [OF rest] have ev: "added w w' = added w w1 @ added w1 w'"
          by (intro added_trans) (auto intro: emits_extends)
        from ApplyOwned_ok [OF a(2) [unfolded Inr]] have "EPatch p opts obj (Inl e) \<notin> set (added w w1)" by auto
        with 2(2) ev have "EPatch p opts obj (Inl e) \<in> set (added w1 w')" by auto
        then show ?thesis using Cons.IH(2) [OF rest] by blast
      qed
    next
      case False
      with 2 Cons.IH(2) [of tc w] show ?thesis by (auto split: sum.splits option.splits)
    qed
  }
qed simp_all

text \<open>
  What every reconciler provides. Its apply phase, whatever it applies, leaves the ownership of
  the tracking client alone, deletes nothing through the tracking client and writes no status, and
  tracks every object whose patch succeeded. The status phase only reads. A strict reconciler also
  fails when a patch failed.
\<close>

definition is_cleanup :: "event \<Rightarrow> bool" where
  "is_cleanup e = (case e of EDelete obj r \<Rightarrow> True | EStatusUpdate obj r \<Rightarrow> True | _ \<Rightarrow> False)"

lemma owned_apply_not_cleanup: "owned_apply M tc e \<Longrightarrow> \<not> is_cleanup e"
  by (simp add: owned_apply_def is_cleanup_def split: event.splits)

definition is_read :: "event \<Rightarrow> bool" where
  "is_read e = (case e of EList g s r \<Rightarrow> True | EGet g ns n r \<Rightarrow> True | _ \<Rightarrow> False)"

lemma cleanup_event_simps:
  "cleanup_event J gvks es (EPatch p opts obj r) \<longleftrightarrow> False"
  "cleanup_event J gvks es (EStatusUpdate obj r') \<longleftrightarrow> False"
  by (simp_all add: cleanup_event_def)

definition key_of :: "machinery \<Rightarrow> kobj \<Rightarrow> resource_key" where
  "key_of M obj = \<lparr> rk_gvk = tracked_gvk M obj, rk_namespace = o_namespace obj, rk_name = o_name obj \<rparr>"

locale reconcile_laws =
  fixes M :: machinery and K :: "'s component_def"
  assumes keeps_ownership: "cmp_apply K cr tc w = (r, tc', w') \<Longrightarrow> ownership tc' = ownership tc"
    and no_cleanup: "cmp_apply K cr tc w = (r, tc', w') \<Longrightarrow> emits (\<lambda>e. \<not> is_cleanup e) w w'"
    and tracks_applied: "cmp_apply K cr tc w = (r, tc', w') \<Longrightarrow> EPatch p opts obj (Inr obj') \<in> set (added w w') \<Longrightarrow>
      key_of M obj' \<in> tracked tc'"
    and status_reads: "cmp_status K res cr w = (s, w') \<Longrightarrow> emits is_read w w'"
begin

lemma reconcile_cases:
  assumes run: "component_reconcile M A schedule K ns name w = out"
  obtains
    (missing) e where "events (out_world out) = events w @ [EGet (cmp_gvk K) ns name (Inl e)]"
      "out_err out = IgnoreNotFound e" "out_cr out = None"
  | (failed_phase) cr w1 tc w2 e reason operation where
      "events w1 = events w @ [EGet (cmp_gvk K) ns name (Inr cr)]"
      "cmp_apply K cr (component_client K cr) w1 = (Inl (e, reason, operation), tc, w2)"
      "out = Handle M A cr e reason operation w2"
  | (failed_cleanup) cr w1 tc res w2 e w3 where
      "events w1 = events w @ [EGet (cmp_gvk K) ns name (Inr cr)]"
      "cmp_apply K cr (component_client K cr) w1 = (Inr res, tc, w2)"
      "CleanupOrphans M A schedule tc KonfluxOwnerLabel (o_name cr) (cmp_cleanupGVKs K) (cmp_opts K) w2 = (Some e, w3)"
      "out = Handle M A cr e ReasonCleanupFailed ''cleanup orphaned resources'' w3"
  | (failed_status) cr w1 tc res w2 w3 cr1 e reason operation w4 where
      "events w1 = events w @ [EGet (cmp_gvk K) ns name (Inr cr)]"
      "cmp_apply K cr (component_client K cr) w1 = (Inr res, tc, w2)"
      "CleanupOrphans M A schedule tc KonfluxOwnerLabel (o_name cr) (cmp_cleanupGVKs K) (cmp_opts K) w2 = (None, w3)"
      "cmp_status K res cr w3 = (Inl (cr1, e, reason, operation), w4)"
      "out = Handle M A cr1 e reason operation w4"
  | (finished) cr w1 tc res w2 w3 cr1 res1 w4 r where
      "events w1 = events w @ [EGet (cmp_gvk K) ns name (Inr cr)]"
      "cmp_apply K cr (component_client K cr) w1 = (Inr res, tc, w2)"
      "CleanupOrphans M A schedule tc KonfluxOwnerLabel (o_name cr) (cmp_cleanupGVKs K) (cmp_opts K) w2 = (None, w3)"
      "cmp_status K res cr w3 = (Inr (cr1, res1), w4)"
      "events (out_world out) = events w4 @ [EStatusUpdate cr1 r]"
      "case r of Inl e \<Rightarrow> out_err out = Some e \<and> out_cr out = Some cr1
        | Inr cr2 \<Rightarrow> out_err out = None \<and> out_cr out = Some cr2 \<and> out_result out = res1"
      "k_status_update A cr1 w4 = (r, out_world out)"
proof -
  obtain g w1 where get: "k_get A (cmp_gvk K) ns name w = (g, w1)" by fastforce
  note ev1 = k_call_events(1) [OF get]
  show ?thesis
  proof (cases g)
    case (Inl e)
    with run get ev1 show ?thesis by (intro missing) (auto simp: component_reconcile_def)
  next
    case (Inr cr)
    obtain r tc w2 where ph: "cmp_apply K cr (component_client K cr) w1 = (r, tc, w2)" by (metis prod_cases3)
    show ?thesis
    proof (cases r)
      case (Inl x)
      obtain e reason operation where "x = (e, reason, operation)" by (metis prod_cases3)
      with run get ev1 \<open>g = Inr cr\<close> Inl ph show ?thesis
        by (intro failed_phase) (auto simp: component_reconcile_def reconcile_fetched_def HandleWithReason_def)
    next
      case (Inr res)
      obtain c w3 where cl: "CleanupOrphans M A schedule tc KonfluxOwnerLabel (o_name cr)
          (cmp_cleanupGVKs K) (cmp_opts K) w2 = (c, w3)" by fastforce
      have out: "out = finish_reconcile M A schedule K res cr tc w2"
        using run get \<open>g = Inr cr\<close> Inr ph by (simp add: component_reconcile_def reconcile_fetched_def)
      note base = ev1 [unfolded \<open>g = Inr cr\<close>] ph [unfolded Inr]
      show ?thesis
      proof (cases c)
        case (Some e)
        with out cl show ?thesis
          by (intro failed_cleanup [OF base]) (auto simp: finish_reconcile_def HandleCleanupError_def)
      next
        case None
        note base = base cl [unfolded None]
        obtain u w4 where up: "cmp_status K res cr w3 = (u, w4)" by fastforce
        show ?thesis
        proof (cases u)
          case (Inl x)
          obtain cr1 e reason operation where "x = (cr1, e, reason, operation)" by (metis prod_cases4)
          with out cl None up Inl show ?thesis
            by (intro failed_status [OF base]) (auto simp: finish_reconcile_def HandleWithReason_def)
        next
          case (Inr x)
          obtain cr1 res1 where x: "x = (cr1, res1)" by fastforce
          obtain s w5 where st: "k_status_update A cr1 w4 = (s, w5)" by fastforce
          with out cl None up Inr x show ?thesis
            by (intro finished [OF base up [unfolded Inr x], of s])
              (auto simp: finish_reconcile_def k_call_events(7) split: sum.splits)
        qed
      qed
    qed
  qed
qed

end

subsection \<open>The trace of a reconcile\<close>

lemma UpdateComponentStatuses_events:
  "UpdateComponentStatuses M A cr w = (r, w') \<Longrightarrow>
     \<exists>x. events w' = events w @ [EList deployment_list_gvk [(KonfluxOwnerLabel, o_name cr)] x]"
  using k_call_events(2) [of A False deployment_list_gvk "[(KonfluxOwnerLabel, o_name cr)]" w]
  by (auto simp: UpdateComponentStatuses_def split: prod.splits sum.splits)

lemma Handle_events: "\<exists>cr1 r. events (out_world (Handle M A cr err reason operation w)) = events w @ [EStatusUpdate cr1 r]"
  by (rule Handle_obtain [of M A cr err reason operation w]) auto

lemma Handle_err [simp]: "out_err (Handle M A cr err reason operation w) = Some err"
  by (rule Handle_obtain [of M A cr err reason operation w]) auto

definition is_status_event :: "event \<Rightarrow> bool" where
  "is_status_event e = (case e of EList g s r \<Rightarrow> True | EGet g ns n r \<Rightarrow> True | EStatusUpdate obj r \<Rightarrow> True | _ \<Rightarrow> False)"

lemma is_status_event_simps [simp]:
  "is_status_event (EList g s r1)" "is_status_event (EStatusUpdate obj r)" "\<not> is_status_event (EDelete obj r2)"
  "\<not> is_status_event (EPatch p opts obj r)"
  by (simp_all add: is_status_event_def)

lemma is_read_status: "is_read e \<Longrightarrow> is_status_event e"
  by (simp add: is_read_def is_status_event_def split: event.splits)

lemma emits_read_tail: "emits is_read w w' \<Longrightarrow> \<exists>tail. events w' = events w @ tail \<and> (\<forall>e \<in> set tail. is_status_event e)"
  by (auto simp: emits_def extends_iff list_all_iff intro: is_read_status)

lemma trace3: "events w1 = events w @ [e] \<Longrightarrow> extends w1 w2 \<Longrightarrow> extends w2 w3 \<Longrightarrow> events w4 = events w3 @ tail \<Longrightarrow>
    added w w4 = e # added w1 w2 @ added w2 w3 @ tail"
  by (rule addedI) (simp add: extends_iff)

context reconcile_laws
begin

text \<open>
  A reconcile that found its resource runs the phase and, when the phase succeeded, the cleanup on
  the client the phase left behind; everything after that reads Deployments and writes status.
\<close>

lemma reconcile_trace:
  assumes run: "component_reconcile M A schedule K ns name w = out"
  obtains
    (missing) e where "added w (out_world out) = [EGet (cmp_gvk K) ns name (Inl e)]" "out_cr out = None"
  | (ran) cr w1 r tc w2 w3 tail where
      "cmp_apply K cr (component_client K cr) w1 = (r, tc, w2)"
      "(\<exists>x. r = Inl x) \<and> w3 = w2 \<and> out_err out \<noteq> None \<or>
       (\<exists>res c. r = Inr res \<and> CleanupOrphans M A schedule tc KonfluxOwnerLabel (o_name cr)
          (cmp_cleanupGVKs K) (cmp_opts K) w2 = (c, w3))"
      "added w (out_world out) = EGet (cmp_gvk K) ns name (Inr cr) # added w1 w2 @ added w2 w3 @ tail"
      "\<forall>e \<in> set tail. is_status_event e"
proof (cases rule: reconcile_cases [OF run])
  case (1 e)
  then show ?thesis by (intro missing) (auto simp: addedI)
next
  case (2 cr w1 tc w2 e reason operation)
  obtain tail where tail: "events (out_world out) = events w2 @ tail" "\<forall>e \<in> set tail. is_status_event e"
    using Handle_events [of M A cr e reason operation w2] 2(3) by auto
  show ?thesis
    by (rule ran [OF 2(2) _ trace3 [OF 2(1) _ extends_refl tail(1)] tail(2)])
      (use 2 in \<open>auto intro: emits_extends no_cleanup\<close>)
next
  case (3 cr w1 tc res w2 e w3)
  obtain tail where tail: "events (out_world out) = events w3 @ tail" "\<forall>e \<in> set tail. is_status_event e"
    using Handle_events [of M A cr e ReasonCleanupFailed "''cleanup orphaned resources''" w3] 3(4) by auto
  show ?thesis
    by (rule ran [OF 3(2) _ trace3 tail(2)])
      (use 3 tail(1) in \<open>auto intro: emits_extends no_cleanup CleanupOrphans_emits\<close>)
next
  case (4 cr w1 tc res w2 w3 cr1 e reason operation w4)
  obtain tail where tail: "events (out_world out) = events w3 @ tail" "\<forall>e \<in> set tail. is_status_event e"
    using Handle_events [of M A cr1 e reason operation w4] 4(5) emits_read_tail [OF status_reads [OF 4(4)]] by auto
  show ?thesis
    by (rule ran [OF 4(2) _ trace3 tail(2)])
      (use 4 tail(1) in \<open>auto intro: emits_extends no_cleanup CleanupOrphans_emits\<close>)
next
  case (5 cr w1 tc res w2 w3 cr1 res1 w4 r)
  obtain tail where tail: "events (out_world out) = events w3 @ tail" "\<forall>e \<in> set tail. is_status_event e"
    using 5(5) emits_read_tail [OF status_reads [OF 5(4)]] by auto
  show ?thesis
    by (rule ran [OF 5(2) _ trace3 tail(2)])
      (use 5 tail(1) in \<open>auto intro: emits_extends no_cleanup CleanupOrphans_emits\<close>)
qed

lemma reconcile_extends: "extends w (out_world (component_reconcile M A schedule K ns name w))"
  (is "extends w ?w'")
proof -
  have "\<exists>es. events ?w' = events w @ es"
  proof (cases rule: reconcile_cases [OF refl, of A schedule ns name w])
    case (1 e)
    then show ?thesis by blast
  next
    case (2 cr w1 tc w2 e reason operation)
    have "extends w1 w2" using no_cleanup [OF 2(2)] by (rule emits_extends)
    then show ?thesis using Handle_events [of M A cr e reason operation w2] 2(1) unfolding 2(3) extends_iff by auto
  next
    case (3 cr w1 tc res w2 e w3)
    have "extends w1 w2" "extends w2 w3"
      using no_cleanup [OF 3(2)] CleanupOrphans_emits [OF 3(3)] by (blast intro: emits_extends)+
    then show ?thesis
      using Handle_events [of M A cr e ReasonCleanupFailed "''cleanup orphaned resources''" w3] 3(1)
      unfolding 3(4) extends_iff by auto
  next
    case (4 cr w1 tc res w2 w3 cr1 e reason operation w4)
    have "extends w1 w2" "extends w2 w3" "extends w3 w4"
      using no_cleanup [OF 4(2)] CleanupOrphans_emits [OF 4(3)] status_reads [OF 4(4)] by (blast intro: emits_extends)+
    then show ?thesis
      using Handle_events [of M A cr1 e reason operation w4] 4(1) unfolding 4(5) extends_iff by auto
  next
    case (5 cr w1 tc res w2 w3 cr1 res1 w4 r)
    have "extends w1 w2" "extends w2 w3" "extends w3 w4"
      using no_cleanup [OF 5(2)] CleanupOrphans_emits [OF 5(3)] status_reads [OF 5(4)] by (blast intro: emits_extends)+
    then show ?thesis using 5(1,5) unfolding extends_iff by auto
  qed
  then show ?thesis by (auto intro: extendsI)
qed

lemma fetched_in_trace:
  assumes "component_reconcile M A schedule K ns name w = out"
    and "events w1 = events w @ [EGet (cmp_gvk K) ns name (Inr cr)]"
    and "cmp_apply K cr (component_client K cr) w1 = (r, tc, w2)"
    and "CleanupOrphans M A schedule tc KonfluxOwnerLabel (o_name cr) (cmp_cleanupGVKs K) (cmp_opts K) w2 = (c, w3)"
    and "cmp_status K res cr w3 = (s, w4)" and "events (out_world out) = events w4 @ tail"
  shows "EGet (cmp_gvk K) ns name (Inr cr) \<in> set (added w (out_world out))"
proof -
  have "extends w1 w2" "extends w2 w3" "extends w3 w4"
    using no_cleanup [OF assms(3)] CleanupOrphans_emits [OF assms(4)] status_reads [OF assms(5)]
    by (blast intro: emits_extends)+
  then have "events (out_world out) = events w @ EGet (cmp_gvk K) ns name (Inr cr) # added w1 w2 @ added w2 w3 @ added w3 w4 @ tail"
    using assms(2,6) by (simp add: extends_iff)
  from addedI [OF this] show ?thesis by simp
qed

lemma deletes_after_phase:
  assumes run: "component_reconcile M A schedule K ns name w = out" and del: "EDelete item d \<in> set (added w (out_world out))"
  obtains cr w1 res tc w2 g items where "EGet (cmp_gvk K) ns name (Inr cr) \<in> set (added w (out_world out))"
    "cmp_apply K cr (component_client K cr) w1 = (Inr res, tc, w2)"
    "\<And>p opts obj r. EPatch p opts obj r \<in> set (added w (out_world out)) \<longleftrightarrow> EPatch p opts obj r \<in> set (added w1 w2)"
    "g \<in> set (cmp_cleanupGVKs K)"
    "EList (list_gvk g) [(KonfluxOwnerLabel, o_name cr)] (Inr items) \<in> set (added w (out_world out))" "item \<in> set items"
    "is_orphan M tc (fold (\<lambda>opt. opt) (cmp_opts K) \<lparr> ClusterScopedAllowList = None \<rparr>) g item"
proof (cases rule: reconcile_trace [OF run])
  case (1 e)
  with del show ?thesis by simp
next
  case (2 cr w1 r tc w2 w3 tail)
  have phase_events: "e \<in> set (added w1 w2) \<Longrightarrow> \<not> is_cleanup e" for e
    using no_cleanup [OF 2(1)] emits_added by blast
  have del': "EDelete item d \<in> set (added w2 w3)"
    using del 2(3,4) phase_events [of "EDelete item d"] by (auto simp: is_cleanup_def)
  then obtain res c where r: "r = Inr res" and cl: "CleanupOrphans M A schedule tc KonfluxOwnerLabel (o_name cr)
      (cmp_cleanupGVKs K) (cmp_opts K) w2 = (c, w3)"
    using 2(2) by auto
  let ?J = "cleanup_frame M A tc KonfluxOwnerLabel (o_name cr) (cmp_opts K)"
  have cleanup_events: "e \<in> set (added w2 w3) \<Longrightarrow> cleanup_event ?J (cmp_cleanupGVKs K) (added w2 w3) e" for e
    using CleanupOrphans_emits [OF cl] emits_added by blast
  from cleanup_events [OF del'] obtain g items where g: "g \<in> set (cmp_cleanupGVKs K)" "orphan ?J g item"
    "EList (list_gvk g) (sel ?J) (Inr items) \<in> set (added w2 w3)" "item \<in> set items"
    by (auto simp: cleanup_event_def)
  have "EPatch p opts obj x \<notin> set (added w2 w3)" for p opts obj x
    using cleanup_events [of "EPatch p opts obj x"] by (auto simp: cleanup_event_simps)
  then show ?thesis
    using 2(3,4) g r
    by (intro that [OF _ 2(1) [unfolded r] _ g(1) _ g(4)]) (auto simp: sel_def cleanup_frame_def orphan_def)
qed

lemma deletes_only_orphans:
  assumes run: "component_reconcile M A schedule K ns name w = out" and del: "EDelete item d \<in> set (added w (out_world out))"
  shows "\<exists>cr g items. EGet (cmp_gvk K) ns name (Inr cr) \<in> set (added w (out_world out)) \<and>
    g \<in> set (cmp_cleanupGVKs K) \<and>
    EList (list_gvk g) [(KonfluxOwnerLabel, o_name cr)] (Inr items) \<in> set (added w (out_world out)) \<and> item \<in> set items \<and>
    IsControlledBy M item cr \<and>
    IsAllowed (ClusterScopedAllowList (fold (\<lambda>opt. opt) (cmp_opts K) \<lparr> ClusterScopedAllowList = None \<rparr>)) g
      (o_namespace item) (o_name item) \<and>
    (\<forall>p opts obj obj'. EPatch p opts obj (Inr obj') \<in> set (added w (out_world out)) \<longrightarrow> key_of M obj' \<noteq> item_key g item)"
proof (rule deletes_after_phase [OF run del])
  fix cr w1 res tc w2 g items
  assume phase: "cmp_apply K cr (component_client K cr) w1 = (Inr res, tc, w2)"
    and patches: "\<And>p opts obj r. EPatch p opts obj r \<in> set (added w (out_world out)) \<longleftrightarrow> EPatch p opts obj r \<in> set (added w1 w2)"
    and orphan: "is_orphan M tc (fold (\<lambda>opt. opt) (cmp_opts K) \<lparr> ClusterScopedAllowList = None \<rparr>) g item"
    and found: "EGet (cmp_gvk K) ns name (Inr cr) \<in> set (added w (out_world out))" "g \<in> set (cmp_cleanupGVKs K)"
      "EList (list_gvk g) [(KonfluxOwnerLabel, o_name cr)] (Inr items) \<in> set (added w (out_world out))" "item \<in> set items"
  have tc: "ownership tc = ownership (component_client K cr)" by (rule keeps_ownership [OF phase])
  from orphan have "item_key g item \<notin> tracked tc" "IsControlledBy M item cr"
    "IsAllowed (ClusterScopedAllowList (fold (\<lambda>opt. opt) (cmp_opts K) \<lparr> ClusterScopedAllowList = None \<rparr>)) g
      (o_namespace item) (o_name item)"
    by (auto simp: is_orphan_def tc component_client_def NewClientWithOwnership_def)
  moreover have "key_of M obj' \<noteq> item_key g item" if "EPatch p opts obj (Inr obj') \<in> set (added w (out_world out))" for p opts obj obj'
    using that patches tracks_applied [OF phase, of p opts obj obj'] calculation(1) by auto
  ultimately show ?thesis using found by blast
qed

lemma success_writes_status:
  assumes run: "component_reconcile M A schedule K ns name w = out" and ok: "out_err out = None" "out_cr out = Some cr'"
  obtains cr res w3 cr1 w4 where "EGet (cmp_gvk K) ns name (Inr cr) \<in> set (events w3)" "extends w w3"
    "cmp_status K res cr w3 = (Inr (cr1, out_result out), w4)"
    "events (out_world out) = events w4 @ [EStatusUpdate cr1 (Inr cr')]"
proof (cases rule: reconcile_cases [OF run])
  case (5 cr w1 tc res w2 w3 cr1 res1 w4 r)
  have "r = Inr cr'" "res1 = out_result out" using 5(6) ok by (cases r, auto)+
  moreover have "extends w1 w2" "extends w2 w3"
    using no_cleanup [OF 5(2)] CleanupOrphans_emits [OF 5(3)] by (auto intro: emits_extends)
  then have ev3: "events w3 = events w @ EGet (cmp_gvk K) ns name (Inr cr) # added w1 w2 @ added w2 w3"
    using 5(1) by (simp add: extends_iff)
  then have "EGet (cmp_gvk K) ns name (Inr cr) \<in> set (events w3)" by simp
  moreover from ev3 have "extends w w3" by (rule extendsI)
  ultimately show ?thesis using 5(4,5) that by blast
qed (use ok in auto)

lemma failure_reported:
  assumes laws: "condition_laws M" and run: "component_reconcile M A schedule K ns name w = out" and bad: "out_err out = Some e" "out_cr out \<noteq> None"
  shows "\<exists>before cr1 r. events (out_world out) = before @ [EStatusUpdate cr1 r] \<and>
    (r = Inl e \<or> (\<exists>c. conds cr1 TypeReady = Some c \<and> cstatus c = CFalse \<and>
       (\<exists>operation. cmessage c = operation @ '': '' @ error_text e)))"
proof -
  have handled: ?thesis if "out = Handle M A cr e' reason operation w'" for cr e' reason operation w'
    using Handle_obtain [of M A cr e' reason operation w'] that bad(1)
    by (elim meta_allE meta_impE)
      (auto simp: SetFailedCondition_def conds_SetCondition [OF laws] intro!: exI)
  show ?thesis
  proof (cases rule: reconcile_cases [OF run])
    case (5 cr w1 tc res w2 w3 cr1 res1 w4 r)
    with bad have "r = Inl e" by (cases r) auto
    with 5(5) show ?thesis by blast
  qed (use bad handled in auto)
qed

end

locale strict_reconciler = reconcile_laws +
  assumes reports_failure: "cmp_apply K cr tc w = (r, tc', w') \<Longrightarrow> EPatch p opts obj (Inl e) \<in> set (added w w') \<Longrightarrow> \<exists>x. r = Inl x"
begin

lemma failed_patch_stops:
  assumes run: "component_reconcile M A schedule K ns name w = out"
    and fail: "EPatch p opts obj (Inl e) \<in> set (added w (out_world out))"
  shows "out_err out \<noteq> None \<and> (\<forall>item d. EDelete item d \<notin> set (added w (out_world out)))"
proof (cases rule: reconcile_trace [OF run])
  case (1 e)
  with fail show ?thesis by simp
next
  case (2 cr w1 r tc w2 w3 tail)
  have "EPatch p opts obj (Inl e) \<notin> set (added w2 w3)"
    using 2(2) CleanupOrphans_emits emits_added cleanup_event_simps(1) by fastforce
  with fail 2(3,4) have "EPatch p opts obj (Inl e) \<in> set (added w1 w2)" by auto
  from reports_failure [OF 2(1) this] 2(2) have "w3 = w2" "out_err out \<noteq> None" by auto
  moreover have "EDelete item d \<notin> set (added w1 w2)" for item d
    using emits_added [OF no_cleanup [OF 2(1)], of "EDelete item d"] by (auto simp: is_cleanup_def)
  ultimately show ?thesis using 2(3,4) by auto
qed

end

section \<open>Status from Deployments\<close>

lemma deployments_status_reads: "deployments_status M A res cr w = (s, w') \<Longrightarrow> emits is_read w w'"
proof -
  assume run: "deployments_status M A res cr w = (s, w')"
  then obtain r where "UpdateComponentStatuses M A cr w = (r, w')"
    by (auto simp: deployments_status_def split: prod.splits sum.splits)
  from UpdateComponentStatuses_events [OF this] show ?thesis by (auto simp: emits_one is_read_def)
qed

locale deployment_reconciler = reconcile_laws +
  fixes A :: "'a api"
  assumes status_of_deployments: "cmp_status K = deployments_status M A"
begin

lemma success_reports_readiness:
  assumes laws: "condition_laws M" and run: "component_reconcile M A schedule K ns name w = out"
    and ok: "out_err out = None" "out_cr out = Some cr'"
  shows "\<exists>cr ds cr1 before. events (out_world out) = before @
      [EList deployment_list_gvk [(KonfluxOwnerLabel, o_name cr)] (Inr ds), EStatusUpdate cr1 (Inr cr')] \<and>
    EGet (cmp_gvk K) ns name (Inr cr) \<in> set before \<and> o_name cr1 = o_name cr \<and> o_uid cr1 = o_uid cr \<and> o_body cr1 = o_body cr \<and>
    (IsConditionTrue M cr1 TypeReady \<longleftrightarrow> list_all IsDeploymentReady ds)"
proof (rule success_writes_status [OF run ok])
  fix cr res w3 cr1 w4
  assume fetched: "EGet (cmp_gvk K) ns name (Inr cr) \<in> set (events w3)"
    and status: "cmp_status K res cr w3 = (Inr (cr1, out_result out), w4)"
    and last: "events (out_world out) = events w4 @ [EStatusUpdate cr1 (Inr cr')]"
  from status have "UpdateComponentStatuses M A cr w3 = (Inr cr1, w4)"
    by (auto simp: status_of_deployments deployments_status_def split: prod.splits sum.splits)
  with laws obtain ds ready where
    ev: "events w4 = events w3 @ [EList deployment_list_gvk [(KonfluxOwnerLabel, o_name cr)] (Inr ds)]" and
    c: "conds cr1 = (conds (set_all_conditions M DeploymentCondition ds cr) |` seen_or_ready ds) (TypeReady \<mapsto> ready)"
      "cstatus ready = (if list_all IsDeploymentReady ds then CTrue else CFalse)" and
    same: "o_name cr1 = o_name cr" "o_body cr1 = o_body cr" "o_uid cr1 = o_uid cr"
    by (rule UpdateComponentStatuses_conds)
  have "IsConditionTrue M cr1 TypeReady \<longleftrightarrow> list_all IsDeploymentReady ds"
    using c by (simp add: IsConditionTrue_conds [OF laws])
  then show ?thesis using fetched ev last same by fastforce
qed

end

end
