(* ===== verification/Component_Reconcilers.thy ===== *)
theory Component_Reconcilers
  imports Reconciler
begin

text \<open>
  The reconcilers of the components without side resources: RBAC, CLI, application API, cert-manager,
  enterprise contract and namespace lister (\<open>internal/controller/*\<close>). Each is a \<open>component_def\<close> whose
  apply phase runs the embedded manifests, after customisation, and whose status is that of its
  Deployments; each interprets \<open>manifest_reconciler\<close>.
\<close>

definition keep_all :: "kobj \<Rightarrow> kobj option result" where
  "keep_all obj = Inr (Some obj)"

section \<open>RBAC, CLI and application API\<close>

definition rbac_applyManifests where
  "rbac_applyManifests M A S = apply_manifests M A S RBAC ''failed to get manifests for RBAC'' keep_all"

definition rbac_component :: "machinery \<Rightarrow> 's api \<Rightarrow> object_store \<Rightarrow> 's component_def" where
  "rbac_component M A S = \<lparr> cmp_gvk = konflux_gvk ''KonfluxRBAC'', cmp_component = component_name RBAC,
     cmp_fieldManager = ''konflux-rbac-controller'', cmp_cleanupGVKs = [], cmp_opts = [WithClusterScopedAllowList None],
     cmp_apply = (\<lambda>cr tc w. manifests_phase (rbac_applyManifests M A S tc w)),
     cmp_status = deployments_status M A \<rparr>"

definition cli_applyManifests where
  "cli_applyManifests M A S = apply_manifests M A S CLI ''failed to get manifests for CLI'' keep_all"

definition cli_component :: "machinery \<Rightarrow> 's api \<Rightarrow> object_store \<Rightarrow> 's component_def" where
  "cli_component M A S = \<lparr> cmp_gvk = konflux_gvk ''KonfluxCLI'', cmp_component = component_name CLI,
     cmp_fieldManager = ''konflux-cli-controller'', cmp_cleanupGVKs = [], cmp_opts = [],
     cmp_apply = (\<lambda>cr tc w. manifests_phase (cli_applyManifests M A S tc w)),
     cmp_status = deployments_status M A \<rparr>"

definition applicationapi_applyManifests where
  "applicationapi_applyManifests M A S =
     apply_manifests M A S ApplicationAPI ''failed to get parsed manifests for ApplicationAPI'' keep_all"

definition applicationapi_component :: "machinery \<Rightarrow> 's api \<Rightarrow> object_store \<Rightarrow> 's component_def" where
  "applicationapi_component M A S = \<lparr> cmp_gvk = konflux_gvk ''KonfluxApplicationAPI'', cmp_component = component_name ApplicationAPI,
     cmp_fieldManager = ''konflux-applicationapi-controller'', cmp_cleanupGVKs = [], cmp_opts = [],
     cmp_apply = (\<lambda>cr tc w. manifests_phase (applicationapi_applyManifests M A S tc w)),
     cmp_status = deployments_status M A \<rparr>"

section \<open>Cert-manager\<close>

definition clusterIssuerGVK :: gvk where
  "clusterIssuerGVK = mk_gvk ''cert-manager.io'' ''v1'' ''ClusterIssuer''"
definition certificateGVK :: gvk where
  "certificateGVK = mk_gvk ''cert-manager.io'' ''v1'' ''Certificate''"

definition CertManagerCleanupGVKs :: "gvk list" where
  "CertManagerCleanupGVKs = [clusterIssuerGVK, certificateGVK]"

definition CertManagerClusterScopedAllowList :: allow_list where
  "CertManagerClusterScopedAllowList = Some [(clusterIssuerGVK,
     [''konflux-bootstrap-issuer'', ''konflux-issuer'', ''self-signed-cluster-issuer'', ''ca-issuer''])]"

definition cert_manager_spec_of :: "kobj \<Rightarrow> cert_manager_spec" where
  "cert_manager_spec_of cr = (case o_body cr of BKonfluxCR (CertManagerSpec s) \<Rightarrow> s | _ \<Rightarrow> \<lparr> createClusterIssuer = None \<rparr>)"

definition certmanager_applyManifests where
  "certmanager_applyManifests M A S = apply_manifests M A S CertManager ''failed to get parsed manifests for CertManager'' keep_all"

definition certmanager_component :: "machinery \<Rightarrow> 's api \<Rightarrow> object_store \<Rightarrow> 's component_def" where
  "certmanager_component M A S = \<lparr> cmp_gvk = konflux_gvk ''KonfluxCertManager'', cmp_component = component_name CertManager,
     cmp_fieldManager = ''konflux-cert-manager-controller'', cmp_cleanupGVKs = CertManagerCleanupGVKs,
     cmp_opts = [WithClusterScopedAllowList CertManagerClusterScopedAllowList],
     cmp_apply = (\<lambda>cr tc w. if ShouldCreateClusterIssuer (cert_manager_spec_of cr)
                            then manifests_phase (certmanager_applyManifests M A S tc w)
                            else (Inr no_requeue, tc, w)),
     cmp_status = deployments_status M A \<rparr>"

section \<open>Enterprise contract\<close>

definition ecPolicyGVK :: gvk where
  "ecPolicyGVK = mk_gvk ''appstudio.redhat.com'' ''v1alpha1'' ''EnterpriseContractPolicy''"

definition enterprise_contract_spec_of :: "kobj \<Rightarrow> enterprise_contract_spec" where
  "enterprise_contract_spec_of cr =
     (case o_body cr of BKonfluxCR (EnterpriseContractSpec s) \<Rightarrow> s | _ \<Rightarrow> \<lparr> ec_skipPolicies = False \<rparr>)"

definition ec_prepare :: "enterprise_contract_spec \<Rightarrow> kobj \<Rightarrow> kobj option result" where
  "ec_prepare spec obj = (if ec_skipPolicies spec \<and> o_gvk obj = ecPolicyGVK then Inr None else Inr (Some obj))"

definition enterprisecontract_applyManifests where
  "enterprisecontract_applyManifests M A S spec =
     apply_manifests M A S EnterpriseContract ''failed to get parsed manifests for EnterpriseContract'' (ec_prepare spec)"

definition enterprisecontract_component :: "machinery \<Rightarrow> 's api \<Rightarrow> object_store \<Rightarrow> 's component_def" where
  "enterprisecontract_component M A S = \<lparr> cmp_gvk = konflux_gvk ''KonfluxEnterpriseContract'', cmp_component = component_name EnterpriseContract,
     cmp_fieldManager = ''konflux-enterprisecontract-controller'', cmp_cleanupGVKs = [ecPolicyGVK],
     cmp_opts = [WithClusterScopedAllowList None],
     cmp_apply = (\<lambda>cr tc w. manifests_phase (enterprisecontract_applyManifests M A S (enterprise_contract_spec_of cr) tc w)),
     cmp_status = deployments_status M A \<rparr>"

section \<open>Namespace lister\<close>

definition logLevelToEnvValue :: "(log_level \<times> string) list" where
  "logLevelToEnvValue = [(LogLevelDebug, ''-4''), (LogLevelInfo, ''0''), (LogLevelWarn, ''4''), (LogLevelError, ''8'')]"

definition resolveLogLevelEnvValue :: "log_level \<Rightarrow> string result" where
  "resolveLogLevelEnvValue level =
     (if level = [] then Inr []
      else (case map_of logLevelToEnvValue level of
              None \<Rightarrow> Inl (NewError (''unsupported logLevel '' @ quoted level))
            | Some v \<Rightarrow> Inr v))"

definition namespace_lister_spec_of :: "kobj \<Rightarrow> namespace_lister_spec" where
  "namespace_lister_spec_of cr = (case o_body cr of BKonfluxCR (KonfluxNamespaceListerSpec s) \<Rightarrow> s | _ \<Rightarrow> NamespaceListerSpec)"

definition applyNamespaceListerCustomizations :: "merge_libs \<Rightarrow> deployment \<Rightarrow> namespace_lister_spec \<Rightarrow> deployment result" where
  "applyNamespaceListerCustomizations L d spec =
     (let d1 = (case nl_namespaceLister spec of None \<Rightarrow> d
                | Some nl \<Rightarrow> if nld_replicas nl > 0 then d\<lparr> dep_replicas := Some (nld_replicas nl) \<rparr> else d);
          containerSpec = (case nl_namespaceLister spec of None \<Rightarrow> None | Some nl \<Rightarrow> nld_namespaceLister nl)
      in case resolveLogLevelEnvValue (nl_logLevel spec) of
           Inl e \<Rightarrow> Inl (Errorf ''invalid namespace-lister spec'' e)
         | Inr logLevelValue \<Rightarrow>
             (case ApplyToDeployment L (Some (BuildPodOverlay \<lparr> Replicas = 0 \<rparr>
                 [WithContainerBuilder ''namespace-lister''
                    [FromContainerSpec containerSpec, WithOptionalEnvOverride ''CACHE_RESYNC_PERIOD'' (cacheResyncPeriod spec),
                     WithOptionalEnvOverride ''LOG_LEVEL'' logLevelValue]])) d1 of
                (Some e, d2) \<Rightarrow> Inl e
              | (None, d2) \<Rightarrow> Inr d2))"

text \<open>A customisation of the Deployments among the manifests.\<close>

definition customize_deployment :: "(string \<Rightarrow> deployment \<Rightarrow> deployment result) \<Rightarrow> kobj \<Rightarrow> kobj result" where
  "customize_deployment f obj = (case o_body obj of
     BDeployment d \<Rightarrow> (case f (o_name obj) d of
         Inl e \<Rightarrow> Inl (Errorf (''failed to apply customizations to deployment '' @ o_name obj) e)
       | Inr d' \<Rightarrow> Inr (obj\<lparr> o_body := BDeployment d' \<rparr>))
   | _ \<Rightarrow> Inr obj)"

definition namespacelister_prepare :: "merge_libs \<Rightarrow> namespace_lister_spec \<Rightarrow> kobj \<Rightarrow> kobj option result" where
  "namespacelister_prepare L spec obj =
     (case customize_deployment (\<lambda>name d. applyNamespaceListerCustomizations L d spec) obj of
        Inl e \<Rightarrow> Inl e | Inr obj' \<Rightarrow> Inr (Some obj'))"

definition namespacelister_applyManifests where
  "namespacelister_applyManifests M L A S spec =
     apply_manifests M A S NamespaceLister ''failed to get parsed manifests for NamespaceLister'' (namespacelister_prepare L spec)"

definition namespacelister_component :: "machinery \<Rightarrow> merge_libs \<Rightarrow> 's api \<Rightarrow> object_store \<Rightarrow> 's component_def" where
  "namespacelister_component M L A S = \<lparr> cmp_gvk = konflux_gvk ''KonfluxNamespaceLister'', cmp_component = component_name NamespaceLister,
     cmp_fieldManager = ''konflux-namespacelister-controller'', cmp_cleanupGVKs = [], cmp_opts = [WithClusterScopedAllowList None],
     cmp_apply = (\<lambda>cr tc w. manifests_phase (namespacelister_applyManifests M L A S (namespace_lister_spec_of cr) tc w)),
     cmp_status = deployments_status M A \<rparr>"

text \<open>The reconcilers of this theory.\<close>

definition simple_components :: "machinery \<Rightarrow> merge_libs \<Rightarrow> 's api \<Rightarrow> object_store \<Rightarrow> 's component_def list" where
  "simple_components M L A S = [rbac_component M A S, cli_component M A S, applicationapi_component M A S,
     certmanager_component M A S, enterprisecontract_component M A S, namespacelister_component M L A S]"

section \<open>Reconcilers that only apply manifests\<close>

text \<open>
  A reconciler whose apply phase only sends server-side applies of objects it owns.
\<close>

locale manifest_reconciler = strict_reconciler M K + deployment_reconciler M K A
  for M :: machinery and K :: "'s component_def" and A :: "'s api" +
  assumes only_applies: "cmp_apply K cr tc w = (r, tc', w') \<Longrightarrow> emits (owned_apply M tc) w w'"
begin

lemma writes_only_owned:
  assumes run: "component_reconcile M A schedule K ns name w = out" and e: "e \<in> set (added w (out_world out))"
  shows "is_read e \<or> is_cleanup e \<or>
    (\<exists>cr. EGet (cmp_gvk K) ns name (Inr cr) \<in> set (added w (out_world out)) \<and> owned_apply M (component_client K cr) e)"
proof (cases rule: reconcile_trace [OF run])
  case (1 e)
  with e show ?thesis by (simp add: is_read_def)
next
  case (2 cr w1 r tc w2 w3 tail)
  have "cleanup_event J gvks es e \<Longrightarrow> is_read e \<or> is_cleanup e" for J :: "'s cleanup_call" and gvks es e
    by (simp add: cleanup_event_def is_read_def is_cleanup_def split: event.splits)
  then have "is_read e \<or> is_cleanup e" if "e \<in> set (added w2 w3)" for e
    using that 2(2) CleanupOrphans_emits emits_added by fastforce
  moreover have "is_status_event e \<Longrightarrow> is_read e \<or> is_cleanup e" for e
    by (simp add: is_status_event_def is_read_def is_cleanup_def split: event.splits)
  then have "e \<in> set tail \<Longrightarrow> is_read e \<or> is_cleanup e" using 2(4) by blast
  moreover have "is_read (EGet g ns' n x)" for g ns' n x by (simp add: is_read_def)
  ultimately show ?thesis using e 2(3) emits_added [OF only_applies [OF 2(1)], of e] by auto
qed

end

text \<open>The objects that pass \<open>prepare\<close>, in the order of the manifests.\<close>

fun prepared :: "(kobj \<Rightarrow> kobj option result) \<Rightarrow> kobj list \<Rightarrow> kobj list" where
  "prepared prepare [] = []"
| "prepared prepare (obj # objs) = (case prepare obj of
     Inr (Some obj') \<Rightarrow> obj' # prepared prepare objs
   | _ \<Rightarrow> prepared prepare objs)"

fun patched_objects :: "event list \<Rightarrow> kobj list" where
  "patched_objects [] = []"
| "patched_objects (EPatch p opts obj r # es) = obj # patched_objects es"
| "patched_objects (e # es) = patched_objects es"

lemma patched_objects_append [simp]: "patched_objects (es @ es') = patched_objects es @ patched_objects es'"
  by (induction es rule: patched_objects.induct) auto

lemma apply_objects_complete:
  "apply_objects M A c prepare objs tc w = (None, tc', w') \<Longrightarrow>
     list_all2 (\<lambda>obj owned. SetOwnership M tc obj = Inr owned) (prepared prepare objs) (patched_objects (added w w'))"
proof (induction objs arbitrary: tc w)
  case (Cons o1 objs)
  show ?case
  proof (cases "prepare o1")
    case (Inr kept)
    show ?thesis
    proof (cases kept)
      case (Some o2)
      obtain r1 tc1 w1 where a: "ApplyOwned M A o2 tc w = (r1, tc1, w1)" by (metis prod_cases3)
      with Cons.prems Inr Some obtain o3 where o3: "r1 = Inr o3"
        and rest: "apply_objects M A c prepare objs tc1 w1 = (None, tc', w')" by (cases r1) auto
      from ApplyOwned_ok [OF a [unfolded o3]] obtain owned where
        owned: "SetOwnership M tc o2 = Inr owned" "patched_objects (added w w1) = [owned]" by auto
      have "extends w w1" "extends w1 w'"
        using ApplyOwned_emits [OF a] apply_objects_keeps [OF rest] by (auto intro: emits_extends)
      then have "added w w' = added w w1 @ added w1 w'" by (rule added_trans)
      moreover have "SetOwnership M tc1 = SetOwnership M tc"
        using ApplyOwned_ownership [OF a] by (intro ext) (simp add: SetOwnership_def)
      ultimately show ?thesis using Cons.IH [OF rest] owned Inr Some by simp
    qed (use Cons Inr in simp)
  qed (use Cons.prems in simp)
qed simp

text \<open>An apply phase that runs the manifests of a component, or is skipped, satisfies the laws.\<close>

lemma manifests_phase_ran:
  assumes "manifests_phase (apply_manifests M A S c message prepare tc w) = (r, tc', w')"
  shows "\<exists>objs r0. apply_objects M A c prepare objs tc w = (r0, tc', w') \<and> (r0 \<noteq> None \<longrightarrow> (\<exists>x. r = Inl x))"
proof (cases "GetForComponent S c")
  case (Inl e)
  with assms show ?thesis by (intro exI [of _ "[]"]) (auto simp: apply_manifests_def manifests_phase_def)
next
  case (Inr objs)
  with assms show ?thesis
    by (intro exI [of _ objs]) (auto simp: apply_manifests_def manifests_phase_def split: prod.splits option.splits)
qed

lemma manifest_reconcilerI:
  assumes phase: "\<And>cr tc w. cmp_apply K cr tc w =
      (if P cr then manifests_phase (apply_manifests M A S c message (prepare cr) tc w) else (Inr no_requeue, tc, w))"
    and status: "cmp_status K = deployments_status M A"
  shows "manifest_reconciler M K A"
proof -
  have ran: "\<exists>objs r0. apply_objects M A c (prepare cr) objs tc w = (r0, tc', w') \<and> (r0 \<noteq> None \<longrightarrow> (\<exists>x. r = Inl x))"
    if "cmp_apply K cr tc w = (r, tc', w')" for cr tc w r tc' w'
    using that manifests_phase_ran [of M A S c message "prepare cr" tc w r tc' w']
    by (cases "P cr") (auto simp: phase intro: exI [of _ "[]"])
  show ?thesis
  proof (unfold_locales, goal_cases)
    case (1 cr tc w r tc' w')
    from ran [OF 1] show ?case using apply_objects_keeps by blast
  next
    case (2 cr tc w r tc' w')
    from ran [OF 2] have "emits (owned_apply M tc) w w'" using apply_objects_keeps by blast
    then show ?case by (rule emits_mono) (rule owned_apply_not_cleanup)
  next
    case (3 cr tc w r tc' w' p opts obj obj')
    from ran [OF 3(1)] show ?case using apply_objects_tracks 3(2) unfolding key_of_def by blast
  next
    case (4 res cr w s w')
    then show ?case by (simp add: status deployments_status_reads)
  next
    case (5 cr tc w r tc' w' p opts obj e)
    from ran [OF 5(1)] show ?case using apply_objects_fails 5(2) by blast
  next
    case 6
    show ?case by (rule status)
  next
    case (7 cr tc w r tc' w')
    from ran [OF 7] show ?case using apply_objects_keeps by blast
  qed
qed

interpretation rbac: manifest_reconciler M "rbac_component M A S" A for M A S
  by (rule manifest_reconcilerI [where P = "\<lambda>cr. True" and prepare = "\<lambda>cr. keep_all"])
    (simp_all add: rbac_component_def rbac_applyManifests_def)

interpretation cli: manifest_reconciler M "cli_component M A S" A for M A S
  by (rule manifest_reconcilerI [where P = "\<lambda>cr. True" and prepare = "\<lambda>cr. keep_all"])
    (simp_all add: cli_component_def cli_applyManifests_def)

interpretation appapi: manifest_reconciler M "applicationapi_component M A S" A for M A S
  by (rule manifest_reconcilerI [where P = "\<lambda>cr. True" and prepare = "\<lambda>cr. keep_all"])
    (simp_all add: applicationapi_component_def applicationapi_applyManifests_def)

interpretation certmanager: manifest_reconciler M "certmanager_component M A S" A for M A S
  by (rule manifest_reconcilerI [where P = "\<lambda>cr. ShouldCreateClusterIssuer (cert_manager_spec_of cr)"
        and prepare = "\<lambda>cr. keep_all" and S = S and c = CertManager
        and message = "''failed to get parsed manifests for CertManager''"])
    (simp_all add: certmanager_component_def certmanager_applyManifests_def)

interpretation ec: manifest_reconciler M "enterprisecontract_component M A S" A for M A S
  by (rule manifest_reconcilerI [where P = "\<lambda>cr. True" and prepare = "\<lambda>cr. ec_prepare (enterprise_contract_spec_of cr)"])
    (simp_all add: enterprisecontract_component_def enterprisecontract_applyManifests_def)

interpretation nslister: manifest_reconciler M "namespacelister_component M L A S" A for M L A S
  by (rule manifest_reconcilerI [where P = "\<lambda>cr. True" and prepare = "\<lambda>cr. namespacelister_prepare L (namespace_lister_spec_of cr)"])
    (simp_all add: namespacelister_component_def namespacelister_applyManifests_def)

lemma simple_component_manifests: "K \<in> set (simple_components M L A S) \<Longrightarrow> manifest_reconciler M K A"
  unfolding simple_components_def
  using rbac.manifest_reconciler_axioms cli.manifest_reconciler_axioms appapi.manifest_reconciler_axioms
    certmanager.manifest_reconciler_axioms ec.manifest_reconciler_axioms nslister.manifest_reconciler_axioms
  by auto

lemmas simple_component_strict = simple_component_manifests [THEN manifest_reconciler.axioms(1)]
lemmas simple_component_laws = simple_component_manifests [THEN manifest_reconciler.axioms(2)]
lemmas simple_component_client = simple_component_strict [THEN strict_reconciler.axioms(1)]

section \<open>Correctness of the reconcilers\<close>

text \<open>
  (C14) Every write these reconcilers send, deletions and status updates apart, is a forced server-side
  apply under the component's field manager of an object that the fetched resource has taken
  ownership of; they never create or update objects in another way.
\<close>

theorem component_writes_are_owned_applies:
  assumes "K \<in> set (simple_components M L A S)" and "component_reconcile M A schedule K ns name w = out"
    and "e \<in> set (added w (out_world out))"
  shows "(\<exists>g ns' n r. e = EGet g ns' n r) \<or> (\<exists>g s r. e = EList g s r) \<or> (\<exists>obj r. e = EDelete obj r) \<or> (\<exists>obj r. e = EStatusUpdate obj r) \<or>
    (\<exists>cr obj0 obj r. EGet (cmp_gvk K) ns name (Inr cr) \<in> set (added w (out_world out)) \<and>
       SetOwnership M (component_client K cr) obj0 = Inr obj \<and>
       e = EPatch SSAPatch \<lparr> FieldOwner = cmp_fieldManager K, ForceOwnership = True \<rparr> obj r)"
  using manifest_reconciler.writes_only_owned [OF simple_component_manifests [OF assms(1)] assms(2,3)]
  by (cases e) (auto simp: is_read_def is_cleanup_def owned_apply_def component_client_def NewClientWithOwnership_def)

text \<open>
  With \<open>spec.skipPolicies\<close> the enterprise contract reconciler leaves out exactly the policy
  objects: the objects it sends, in order, are the owned versions of the manifests that are not
  EnterpriseContractPolicies; without the flag, of all manifests.
\<close>

theorem enterprisecontract_applies_manifests:
  assumes "GetForComponent S EnterpriseContract = Inr objs"
    and "enterprisecontract_applyManifests M A S spec tc w = (None, tc', w')"
  shows "list_all2 (\<lambda>obj owned. SetOwnership M tc obj = Inr owned)
    (filter (\<lambda>obj. \<not> (ec_skipPolicies spec \<and> o_gvk obj = ecPolicyGVK)) objs) (patched_objects (added w w'))"
proof -
  have "prepared (ec_prepare spec) objs = filter (\<lambda>obj. \<not> (ec_skipPolicies spec \<and> o_gvk obj = ecPolicyGVK)) objs"
    by (induction objs) (auto simp: ec_prepare_def)
  moreover have "apply_objects M A EnterpriseContract (ec_prepare spec) objs tc w = (None, tc', w')"
    using assms by (simp add: enterprisecontract_applyManifests_def apply_manifests_def)
  ultimately show ?thesis using apply_objects_complete by metis
qed

section \<open>Concrete reconciles\<close>

text \<open>
  The enterprise contract with \<open>skipPolicies\<close>, on a cluster that still has a policy of an earlier
  reconcile.
\<close>

definition ex_ec :: kobj where
  "ex_ec = (new_object (konflux_gvk ''KonfluxEnterpriseContract'') [] ''ec''
     (BKonfluxCR (EnterpriseContractSpec \<lparr> ec_skipPolicies = True \<rparr>)))\<lparr> o_uid := ''u7'' \<rparr>"

definition ex_policy :: kobj where
  "ex_policy = (new_object ecPolicyGVK ''ns'' ''default'' (BUnstructured JNull))
     \<lparr> o_labels := [(KonfluxOwnerLabel, ''ec'')], o_ownerRefs := [controller_ref ex_ec] \<rparr>"

definition ex_config :: kobj where
  "ex_config = new_object (mk_gvk [] ''v1'' ''ConfigMap'') ''ns'' ''defaults'' (BConfigMap [])"

definition ex_store :: object_store where
  "ex_store = \<lparr> store_objects = [(EnterpriseContract, [new_object ecPolicyGVK ''ns'' ''default'' (BUnstructured JNull), ex_config])] \<rparr>"

definition ex_reconcile :: "kobj list api \<Rightarrow> kobj list outcome" where
  "ex_reconcile A = component_reconcile ref_machinery A [0, 0] (enterprisecontract_component ref_machinery A ex_store) []
     ''ec'' (start [ex_ec, ex_policy])"

lemmas ex_component_defs = ex_ec_def ex_policy_def ex_config_def ex_store_def konflux_gvk_def ecPolicyGVK_def
  GetForComponent_def deepCopyObjects_def

lemmas ex_run_defs = enterprisecontract_component_def enterprisecontract_applyManifests_def apply_manifests_def ec_prepare_def
  ex_component_defs ref_defs api_defs manifests_phase_def enterprise_contract_spec_of_def ApplyOwned_def ApplyObject_def
  SetOwnership_def component_client_def NewClientWithOwnership_def IsCustomResourceDefinition_def gvk_Empty_def
  component_name_def finish_reconcile_def deployments_status_def CleanupOrphans_one cleanupOrphansForGVK_def cleanup_item_def is_orphan_def
  IsAllowed_def item_key_def list_gvk_def emit_def UpdateComponentStatuses_def deployment_list_gvk_def tracked_gvk_def
  WithClusterScopedAllowList_def ex_reconcile_def component_reconcile_def reconcile_fetched_def added_def

lemma ex_member: "enterprisecontract_component M A S \<in> set (simple_components M L A S)"
  by (simp add: simple_components_def)

lemma ex_reconcile_deletes:
  "EDelete ex_policy None \<in> set (added (start [ex_ec, ex_policy]) (out_world (ex_reconcile ref_api)))"
  by (simp add: ex_run_defs SetDeploymentConditions_closed)

lemma ex_reconcile_succeeds: "out_err (ex_reconcile ref_api) = None" "out_cr (ex_reconcile ref_api) \<noteq> None"
  by (simp_all add: ex_run_defs SetDeploymentConditions_closed)

definition ex_readonly_api :: "kobj list api" where
  "ex_readonly_api = ref_api\<lparr> api_patch := (\<lambda>p opts obj s. (Inl (ApiError OtherError ''forbidden''), s)) \<rparr>"

lemma ex_reconcile_fails:
  "\<exists>p opts obj e. EPatch p opts obj (Inl e) \<in> set (added (start [ex_ec, ex_policy]) (out_world (ex_reconcile ex_readonly_api)))"
  "\<exists>e. out_err (ex_reconcile ex_readonly_api) = Some e" "out_cr (ex_reconcile ex_readonly_api) \<noteq> None"
  by (simp_all add: ex_run_defs ex_readonly_api_def HandleWithReason_def Handle_def Let_def)

theorem component_writes_are_owned_applies_witness:
  "\<exists>p opts obj e. EPatch p opts obj (Inl e) \<in> set (added (start [ex_ec, ex_policy]) (out_world (ex_reconcile ex_readonly_api))) \<and>
     p = SSAPatch \<and> FieldOwner opts = ''konflux-enterprisecontract-controller''"
proof -
  obtain p opts obj e where
    patch: "EPatch p opts obj (Inl e) \<in> set (added (start [ex_ec, ex_policy]) (out_world (ex_reconcile ex_readonly_api)))"
    using ex_reconcile_fails(1) by blast
  have "cmp_fieldManager (enterprisecontract_component ref_machinery ex_readonly_api ex_store) = ''konflux-enterprisecontract-controller''"
    by (simp add: enterprisecontract_component_def)
  with component_writes_are_owned_applies [OF ex_member refl patch [unfolded ex_reconcile_def]]
  have "p = SSAPatch" "FieldOwner opts = ''konflux-enterprisecontract-controller''" by auto
  with patch show ?thesis by blast
qed

theorem enterprisecontract_applies_manifests_witness:
  "\<exists>tc w'. enterprisecontract_applyManifests ref_machinery ref_api ex_store \<lparr> ec_skipPolicies = True \<rparr>
      (component_client (enterprisecontract_component ref_machinery ref_api ex_store) ex_ec) (start []) = (None, tc, w') \<and>
    length (patched_objects (added (start []) w')) = 1"
proof -
  let ?c = "component_client (enterprisecontract_component ref_machinery ref_api ex_store) ex_ec"
  have store: "GetForComponent ex_store EnterpriseContract =
      Inr [new_object ecPolicyGVK ''ns'' ''default'' (BUnstructured JNull), ex_config]"
    by (simp add: ex_store_def GetForComponent_def deepCopyObjects_def)
  obtain tc w' where run: "enterprisecontract_applyManifests ref_machinery ref_api ex_store \<lparr> ec_skipPolicies = True \<rparr> ?c (start [])
      = (None, tc, w')"
    by (simp add: ex_run_defs)
  have "length (filter (\<lambda>obj. \<not> (ec_skipPolicies \<lparr> ec_skipPolicies = True \<rparr> \<and> o_gvk obj = ecPolicyGVK))
      [new_object ecPolicyGVK ''ns'' ''default'' (BUnstructured JNull), ex_config]) = 1"
    by (simp add: ex_component_defs ref_defs)
  with enterprisecontract_applies_manifests [OF store run] run show ?thesis
    by (metis list_all2_lengthD)
qed

end
