(* ===== verification/Go_Time.thy ===== *)
theory Go_Time
  imports Prelude
begin

text \<open>
  The parts of Go's \<open>time\<close> package that the operator uses: instants, durations, and RFC 3339 text. An
  instant is the number of nanoseconds since 1970-01-01 UTC; a duration is a 64-bit number of
  nanoseconds, and \<open>Time.Sub\<close> saturates at its bounds. The calendar is the proleptic Gregorian one.
\<close>

type_synonym go_time = int
type_synonym duration = int

abbreviation Second :: duration where "Second \<equiv> 1000000000"
abbreviation Minute :: duration where "Minute \<equiv> 60000000000"
abbreviation Hour :: duration where "Hour \<equiv> 3600000000000"

definition time_Sub :: "go_time \<Rightarrow> go_time \<Rightarrow> duration" where
  "time_Sub t u = max (- (2 ^ 63)) (min (2 ^ 63 - 1) (t - u))"

lemma time_Sub_pos: "0 < time_Sub t u \<longleftrightarrow> u < t"
  by (auto simp: time_Sub_def)

lemma time_Sub_le: "k < 2 ^ 63 - 1 \<Longrightarrow> - (2 ^ 63) \<le> k \<Longrightarrow> time_Sub t u \<le> k \<longleftrightarrow> t - u \<le> k"
  by (auto simp: time_Sub_def)

lemma time_Sub_exact: "\<bar>t - u\<bar> < 2 ^ 63 \<Longrightarrow> time_Sub t u = t - u"
  by (auto simp: time_Sub_def)

section \<open>Calendar\<close>

definition leap :: "int \<Rightarrow> bool" where
  "leap y \<longleftrightarrow> y mod 4 = 0 \<and> (y mod 100 \<noteq> 0 \<or> y mod 400 = 0)"

definition month_lengths :: "int \<Rightarrow> int list" where
  "month_lengths y = [31, if leap y then 29 else 28, 31, 30, 31, 30, 31, 31, 30, 31, 30, 31]"

text \<open>Days between 1 January of year 0 and of year \<open>y\<close>.\<close>

definition days_before_year :: "int \<Rightarrow> int" where
  "days_before_year y = 365 * y + (y + 3) div 4 - (y + 99) div 100 + (y + 399) div 400"

lemma div_bounds: "0 < (k::int) \<Longrightarrow> k * (a div k) \<le> a \<and> a < k * (a div k) + k"
  using mult_div_mod_eq [of k a] pos_mod_bound [of k a] pos_mod_sign [of k a] by linarith

lemma div_up: "0 < (k::int) \<Longrightarrow> j = k - 1 \<Longrightarrow> (y + j) div k = y div k + (if y mod k = 0 then 0 else 1)"
proof (cases "y mod k = 0")
  case True
  assume k: "0 < k" and j: "j = k - 1"
  have "(y + j) div k = (k * (y div k) + j) div k" using True mult_div_mod_eq [of k y] by simp
  also have "\<dots> = y div k" using k j by (simp add: div_pos_pos_trivial)
  finally show ?thesis using True by simp
next
  case False
  assume k: "0 < k" and j: "j = k - 1"
  have r: "0 \<le> y mod k - 1" "y mod k - 1 < k" using k False pos_mod_sign [of k y] pos_mod_bound [of k y] by linarith+
  have "y + j = k * (y div k + 1) + (y mod k - 1)" using j mult_div_mod_eq [of k y] by (simp add: algebra_simps)
  then have "(y + j) div k = (k * (y div k + 1) + (y mod k - 1)) div k" by (rule arg_cong)
  also have "\<dots> = y div k + 1" using k r by (simp only: div_mult_self4 div_pos_pos_trivial)
  finally show ?thesis using False by simp
qed

lemma div_up_step:
  assumes k: "0 < (k::int)" and j: "j = k - 1"
  shows "(y + 1 + j) div k = (y + j) div k + (if y mod k = 0 then 1 else 0)"
proof -
  have "y + 1 + j = y + k" using j by simp
  then have "(y + 1 + j) div k = y div k + 1" using k by (simp only: div_add_self2)
  then show ?thesis using div_up [OF k j, of y] by simp
qed

definition year_of_days :: "int \<Rightarrow> int" where
  "year_of_days d = (let y = d * 400 div 146097 in
     if d < days_before_year y then y - 1
     else if days_before_year (y + 1) \<le> d then y + 1 else y)"

lemma days_before_year_step: "days_before_year (y + 1) = days_before_year y + (if leap y then 366 else 365)"
proof -
  have "y mod 100 = y mod 400 mod 100" "y mod 4 = y mod 100 mod 4" by (rule mod_mod_cancel [symmetric]; simp)+
  then have m: "y mod 400 = 0 \<Longrightarrow> y mod 100 = 0" "y mod 100 = 0 \<Longrightarrow> y mod 4 = 0" by simp_all
  have d: "(y + 1 + 3) div 4 = (y + 3) div 4 + (if y mod 4 = 0 then 1 else 0)"
    "(y + 1 + 99) div 100 = (y + 99) div 100 + (if y mod 100 = 0 then 1 else 0)"
    "(y + 1 + 399) div 400 = (y + 399) div 400 + (if y mod 400 = 0 then 1 else 0)"
    by (rule div_up_step; simp)+
  show ?thesis
    unfolding days_before_year_def d leap_def
    by (cases "y mod 400 = 0"; cases "y mod 100 = 0"; cases "y mod 4 = 0") (use m in auto)
qed

lemma days_before_year_bounds:
  "400 * days_before_year y \<le> 146097 * y + 699"
  "146097 * y - 396 \<le> 400 * days_before_year y"
proof -
  define a b c where "a = (y + 3) div 4" and "b = (y + 99) div 100" and "c = (y + 399) div 400"
  have "4 * a \<le> y + 3" "y + 3 < 4 * a + 4" "100 * b \<le> y + 99" "y + 99 < 100 * b + 100" "400 * c \<le> y + 399" "y + 399 < 400 * c + 400"
    using div_bounds [of 4 "y + 3"] div_bounds [of 100 "y + 99"] div_bounds [of 400 "y + 399"] unfolding a_def b_def c_def by auto
  moreover have "days_before_year y = 365 * y + a - b + c" unfolding days_before_year_def a_def b_def c_def ..
  ultimately show "400 * days_before_year y \<le> 146097 * y + 699" "146097 * y - 396 \<le> 400 * days_before_year y" by linarith+
qed

lemma year_of_days: "days_before_year (year_of_days d) \<le> d \<and> d < days_before_year (year_of_days d + 1)"
proof -
  define y where "y = d * 400 div 146097"
  have y: "146097 * y \<le> 400 * d" "400 * d < 146097 * y + 146097"
    using div_bounds [of 146097 "d * 400"] unfolding y_def by simp_all
  have "days_before_year (y - 1) \<le> d" using days_before_year_bounds(1) [of "y - 1"] y(1) by (simp add: algebra_simps)
  moreover have "d < days_before_year (y + 2)" using days_before_year_bounds(2) [of "y + 2"] y(2) by (simp add: algebra_simps)
  ultimately show ?thesis unfolding year_of_days_def Let_def y_def [symmetric] by (auto simp: algebra_simps)
qed

text \<open>Month (from 1) and day (from 0) of a day of the year.\<close>

fun month_day :: "int list \<Rightarrow> int \<Rightarrow> int \<Rightarrow> int \<times> int" where
  "month_day [] m d = (m, d)"
| "month_day (l # ls) m d = (if d < l then (m, d) else month_day ls (m + 1) (d - l))"

definition days_before_month :: "int \<Rightarrow> int \<Rightarrow> int" where
  "days_before_month y m = sum_list (take (nat (m - 1)) (month_lengths y))"

definition daysIn :: "int \<Rightarrow> int \<Rightarrow> int" where
  "daysIn y m = month_lengths y ! nat (m - 1)"

lemma month_day_correct:
  "0 \<le> d \<Longrightarrow> d < sum_list ls \<Longrightarrow> month_day ls m d = (m', d') \<Longrightarrow>
     m \<le> m' \<and> nat (m' - m) < length ls \<and> 0 \<le> d' \<and> d' < ls ! nat (m' - m) \<and> sum_list (take (nat (m' - m)) ls) + d' = d"
proof (induction ls arbitrary: m d)
  case (Cons l ls)
  show ?case
  proof (cases "d < l")
    case False
    with Cons.prems have "m + 1 \<le> m' \<and> nat (m' - (m + 1)) < length ls \<and> 0 \<le> d' \<and> d' < ls ! nat (m' - (m + 1)) \<and>
        sum_list (take (nat (m' - (m + 1))) ls) + d' = d - l"
      by (intro Cons.IH) auto
    moreover from this have "nat (m' - m) = Suc (nat (m' - (m + 1)))" by linarith
    ultimately show ?thesis by auto
  qed (use Cons.prems in auto)
qed simp

lemma sum_month_lengths: "sum_list (month_lengths y) = (if leap y then 366 else 365)"
  by (simp add: month_lengths_def)

abbreviation epoch_days :: int where "epoch_days \<equiv> 719528"

text \<open>The instant of a UTC date and time.\<close>

definition date_time :: "int \<Rightarrow> int \<Rightarrow> int \<Rightarrow> int \<Rightarrow> int \<Rightarrow> int \<Rightarrow> int \<Rightarrow> go_time" where
  "date_time year month day hour mn sec nsec =
     (((days_before_year year + days_before_month year month + day - 1 - epoch_days) * 86400) + hour * 3600 + mn * 60 + sec) * Second + nsec"

text \<open>The UTC date of an instant: year, month, day.\<close>

definition date_of :: "go_time \<Rightarrow> int \<times> int \<times> int" where
  "date_of t = (let d = t div (86400 * Second) + epoch_days; y = year_of_days d;
                    (m, i) = month_day (month_lengths y) 1 (d - days_before_year y)
                in (y, m, i + 1))"

lemma date_of_correct:
  assumes "date_of t = (y, m, d)"
  shows "1 \<le> m \<and> m \<le> 12 \<and> 1 \<le> d \<and> d \<le> daysIn y m \<and>
    days_before_year y + days_before_month y m + d - 1 - epoch_days = t div (86400 * Second)"
proof -
  define n where "n = t div (86400 * Second) + epoch_days"
  obtain i where y: "y = year_of_days n" and md: "month_day (month_lengths y) 1 (n - days_before_year y) = (m, i)" and d: "d = i + 1"
    using assms unfolding date_of_def Let_def n_def [symmetric] by (auto split: prod.splits)
  have "0 \<le> n - days_before_year y" "n - days_before_year y < sum_list (month_lengths y)"
    using year_of_days [of n] days_before_year_step [of y] by (simp_all add: y sum_month_lengths)
  from month_day_correct [OF this md] have
    "1 \<le> m \<and> nat (m - 1) < 12 \<and> 0 \<le> i \<and> i < daysIn y m \<and> days_before_month y m + i = n - days_before_year y"
    by (simp add: daysIn_def days_before_month_def month_lengths_def)
  then show ?thesis using d n_def by auto
qed

lemma date_time_date_of:
  assumes "date_of t = (y, m, d)"
  defines "s \<equiv> t div Second mod 86400"
  shows "date_time y m d (s div 3600) (s div 60 mod 60) (s mod 60) 0 = t - t mod Second"
proof -
  have days: "days_before_year y + days_before_month y m + d - 1 - epoch_days = t div Second div 86400"
    using date_of_correct [OF assms(1)] by (simp add: div_mult2_eq' mult.commute zdiv_zmult2_eq)
  have "s div 3600 = s div 60 div 60" by (simp add: zdiv_zmult2_eq [symmetric])
  moreover have "60 * (s div 60) + s mod 60 = s" "60 * (s div 60 div 60) + s div 60 mod 60 = s div 60" by (rule mult_div_mod_eq)+
  ultimately have "s div 3600 * 3600 + s div 60 mod 60 * 60 + s mod 60 = s" by linarith
  moreover have "t div Second div 86400 * 86400 + s = t div Second" unfolding s_def by simp
  ultimately have "(t div Second div 86400 * 86400) + s div 3600 * 3600 + s div 60 mod 60 * 60 + s mod 60 = t div Second" by linarith
  then show ?thesis unfolding date_time_def days by (simp add: minus_mod_eq_div_mult)
qed

section \<open>RFC 3339\<close>

definition pad :: "nat \<Rightarrow> string \<Rightarrow> string" where
  "pad n s = replicate (n - length s) (CHR ''0'') @ s"

text \<open>\<open>t.UTC().Format(time.RFC3339)\<close>: whole seconds, in UTC.\<close>

definition FormatRFC3339 :: "go_time \<Rightarrow> string" where
  "FormatRFC3339 t = (let (y, m, d) = date_of t; s = t div Second mod 86400
     in (if y < 0 then ''-'' else []) @ pad 4 (show_nat (nat \<bar>y\<bar>)) @ ''-'' @ pad 2 (show_nat (nat m)) @ ''-'' @ pad 2 (show_nat (nat d)) @ ''T'' @
        pad 2 (show_nat (nat (s div 3600))) @ '':'' @ pad 2 (show_nat (nat (s div 60 mod 60))) @ '':'' @ pad 2 (show_nat (nat (s mod 60))) @ ''Z'')"

definition is_digit :: "char \<Rightarrow> bool" where
  "is_digit c \<longleftrightarrow> c \<in> set ''0123456789''"

definition digit_value :: "char \<Rightarrow> int" where
  "digit_value c = of_char c - 48"

definition atoi :: "string \<Rightarrow> int" where
  "atoi s = foldl (\<lambda>x c. x * 10 + digit_value c) 0 s"

definition parseUint :: "string \<Rightarrow> int \<Rightarrow> int \<Rightarrow> int option" where
  "parseUint s mn mx = (if list_all is_digit s \<and> mn \<le> atoi s \<and> atoi s \<le> mx then Some (atoi s) else None)"

definition slice :: "string \<Rightarrow> nat \<Rightarrow> nat \<Rightarrow> string" where
  "slice s i j = take (j - i) (drop i s)"

text \<open>A fraction of a second after the seconds, at most nine digits of which count.\<close>

definition parse_fraction :: "string \<Rightarrow> int \<times> string" where
  "parse_fraction s = (case s of
     c # r \<Rightarrow> let ds = takeWhile is_digit r in
       if c = CHR ''.'' \<and> ds \<noteq> [] then (atoi (take 9 ds) * 10 ^ (9 - length (take 9 ds)), drop (length ds) r) else (0, s)
   | [] \<Rightarrow> (0, s))"

text \<open>The offset in seconds of a zone suffix: \<open>Z\<close> or \<open>+hh:mm\<close>.\<close>

definition parse_zone :: "string \<Rightarrow> int option" where
  "parse_zone s = (if s = ''Z'' then Some 0
     else if length s \<noteq> 6 then None
     else (case (parseUint (slice s 1 3) 0 23, parseUint (slice s 4 6) 0 59) of
             (Some hr, Some mm) \<Rightarrow>
               if (s ! 0 = CHR ''-'' \<or> s ! 0 = CHR ''+'') \<and> s ! 3 = CHR '':''
               then Some ((if s ! 0 = CHR ''-'' then -1 else 1) * (hr * 60 + mm) * 60) else None
           | _ \<Rightarrow> None))"

definition parseRFC3339 :: "string \<Rightarrow> go_time option" where
  "parseRFC3339 s =
     (if length s < 19 then None
      else (case (parseUint (slice s 0 4) 0 9999, parseUint (slice s 5 7) 1 12) of
        (Some year, Some month) \<Rightarrow>
          (case (parseUint (slice s 8 10) 1 (daysIn year month), parseUint (slice s 11 13) 0 23,
                 parseUint (slice s 14 16) 0 59, parseUint (slice s 17 19) 0 59) of
             (Some day, Some hour, Some mn, Some sec) \<Rightarrow>
               if s ! 4 = CHR ''-'' \<and> s ! 7 = CHR ''-'' \<and> s ! 10 = CHR ''T'' \<and> s ! 13 = CHR '':'' \<and> s ! 16 = CHR '':''
               then (case parse_fraction (drop 19 s) of
                       (nsec, rest) \<Rightarrow> (case parse_zone rest of
                          None \<Rightarrow> None
                        | Some offset \<Rightarrow> Some (date_time year month day hour mn sec nsec - offset * Second)))
               else None
           | _ \<Rightarrow> None)
      | _ \<Rightarrow> None))"

text \<open>
  \<open>time.Parse(time.RFC3339, s)\<close> tries the strict form first; what else the general layout parser of
  the library accepts is the parameter \<open>lenient\<close>.
\<close>

type_synonym time_parser = "string \<Rightarrow> go_time option"

definition ParseRFC3339 :: "time_parser \<Rightarrow> string \<Rightarrow> go_time option" where
  "ParseRFC3339 lenient s = (case parseRFC3339 s of Some t \<Rightarrow> Some t | None \<Rightarrow> lenient s)"

lemma digit_char: "n < 10 \<Longrightarrow> is_digit (''0123456789'' ! n) \<and> digit_value (''0123456789'' ! n) = int n"
proof -
  assume "n < 10"
  then have "n \<in> {0, 1, 2, 3, 4, 5, 6, 7, 8, 9}" by auto
  then show ?thesis by (elim insertE) (simp_all add: is_digit_def digit_value_def)
qed

lemma atoi_append: "atoi (s @ [c]) = atoi s * 10 + digit_value c"
  by (simp add: atoi_def)

lemma show_nat_digits: "list_all is_digit (show_nat n) \<and> atoi (show_nat n) = int n"
proof (induction n rule: show_nat.induct)
  case (1 n)
  show ?case
  proof (cases "n < 10")
    case True
    with digit_char [OF True] show ?thesis by (subst (1 2) show_nat.simps) (simp add: atoi_def)
  next
    case False
    have "n mod 10 < 10" by simp
    moreover have "show_nat n = show_nat (n div 10) @ [''0123456789'' ! (n mod 10)]" using False by (subst show_nat.simps) simp
    moreover have "int (n div 10) * 10 + int (n mod 10) = int n" by presburger
    ultimately show ?thesis using 1 [OF False] digit_char [of "n mod 10"] by (simp only: atoi_append) simp
  qed
qed

lemma pad_digits: "list_all is_digit (pad k (show_nat n)) \<and> atoi (pad k (show_nat n)) = int n"
proof -
  have "atoi (replicate j (CHR ''0'') @ s) = atoi s" for j s
    by (induction j) (simp_all add: atoi_def digit_value_def)
  moreover have "list_all is_digit (replicate j (CHR ''0''))" for j by (induction j) (simp_all add: is_digit_def)
  ultimately show ?thesis using show_nat_digits [of n] by (simp add: pad_def)
qed

lemma length_show_nat: "n < 10 ^ k \<Longrightarrow> 0 < k \<Longrightarrow> length (show_nat n) \<le> k"
proof (induction k arbitrary: n)
  case (Suc k)
  show ?case
  proof (cases "n < 10")
    case True
    then show ?thesis by (subst show_nat.simps) simp
  next
    case False
    then have "0 < k" using Suc.prems by (cases k) auto
    moreover have "n div 10 < 10 ^ k" using Suc.prems by (simp add: less_mult_imp_div_less mult.commute)
    ultimately show ?thesis using False Suc.IH [of "n div 10"] by (subst show_nat.simps) simp
  qed
qed simp

lemma length_pad: "n < 10 ^ k \<Longrightarrow> 0 < k \<Longrightarrow> length (pad k (show_nat n)) = k"
  using length_show_nat [of n k] by (simp add: pad_def)

lemma parseUint_pad: "0 \<le> n \<Longrightarrow> mn \<le> n \<Longrightarrow> n \<le> mx \<Longrightarrow> parseUint (pad k (show_nat (nat n))) mn mx = Some n"
  using pad_digits [of k "nat n"] by (simp add: parseUint_def)

lemma two_chars: "length xs = 2 \<Longrightarrow> \<exists>a b. xs = [a, b]"
  and four_chars: "length xs = 4 \<Longrightarrow> \<exists>a b c d. xs = [a, b, c, d]"
  by (auto simp: length_Suc_conv eval_nat_numeral)

lemma two_digits: "0 \<le> n \<Longrightarrow> n < 100 \<Longrightarrow> \<exists>a b. pad 2 (show_nat (nat n)) = [a, b]"
  by (rule two_chars) (simp add: length_pad nat_less_iff)

lemma four_digits: "0 \<le> n \<Longrightarrow> n < 10000 \<Longrightarrow> \<exists>a b c d. pad 4 (show_nat (nat n)) = [a, b, c, d]"
  by (rule four_chars) (simp add: length_pad nat_less_iff)

lemma daysIn_le: "1 \<le> m \<Longrightarrow> m \<le> 12 \<Longrightarrow> daysIn y m \<le> 31"
proof -
  assume "1 \<le> m" "m \<le> 12"
  then have "daysIn y m \<in> set (month_lengths y)"
    unfolding daysIn_def by (intro nth_mem) (simp add: month_lengths_def nat_less_iff)
  moreover have "\<forall>l \<in> set (month_lengths y). l \<le> 31" by (simp add: month_lengths_def)
  ultimately show ?thesis by blast
qed

text \<open>Instants of the years 0 to 9999, the ones RFC 3339 can express.\<close>

definition rfc3339_range :: "go_time \<Rightarrow> bool" where
  "rfc3339_range t \<longleftrightarrow> (case date_of t of (y, m, d) \<Rightarrow> 0 \<le> y \<and> y < 10000)"

lemma clock_bounds:
  assumes "0 \<le> s" "s < 86400"
  shows "0 \<le> s div (3600::int)" "s div 3600 < 24" "0 \<le> s div 60 mod 60" "s div 60 mod 60 < 60" "0 \<le> s mod 60" "s mod 60 < 60"
proof -
  show "0 \<le> s div 3600" using assms by (simp only: pos_imp_zdiv_nonneg_iff)
  have "3600 * (s div 3600) < 3600 * 24" using div_bounds [of 3600 s] assms by linarith
  then show "s div 3600 < 24" by simp
qed simp_all

lemma clock_fields:
  assumes "0 \<le> s" "s < (86400::int)"
  obtains h1 h2 n1 n2 s1 s2 where "pad 2 (show_nat (nat (s div 3600))) = [h1, h2]" "pad 2 (show_nat (nat (s div 60 mod 60))) = [n1, n2]"
    "pad 2 (show_nat (nat (s mod 60))) = [s1, s2]" "parseUint [h1, h2] 0 23 = Some (s div 3600)"
    "parseUint [n1, n2] 0 59 = Some (s div 60 mod 60)" "parseUint [s1, s2] 0 59 = Some (s mod 60)"
proof -
  note b = clock_bounds [OF assms]
  obtain h1 h2 where H: "pad 2 (show_nat (nat (s div 3600))) = [h1, h2]" using two_digits [OF b(1)] b(2) by auto
  obtain n1 n2 where N: "pad 2 (show_nat (nat (s div 60 mod 60))) = [n1, n2]" using two_digits [OF b(3)] b(4) by auto
  obtain s1 s2 where S: "pad 2 (show_nat (nat (s mod 60))) = [s1, s2]" using two_digits [OF b(5)] b(6) by auto
  show thesis
    using that [OF H N S] parseUint_pad [OF b(1) b(1), of 23 2] parseUint_pad [OF b(3) b(3), of 59 2]
      parseUint_pad [OF b(5) b(5), of 59 2] b(2,4,6)
    unfolding H N S by simp
qed

text \<open>Formatting and parsing an instant truncates it to the second.\<close>

lemma parse_format:
  assumes "rfc3339_range t"
  shows "ParseRFC3339 lenient (FormatRFC3339 t) = Some (t - t mod Second)"
proof -
  obtain y m d where date: "date_of t = (y, m, d)" by (metis prod_cases3)
  define s where "s = t div Second mod 86400"
  note c = date_of_correct [OF date]
  have y: "0 \<le> y" "y < 10000" using assms by (simp_all add: rfc3339_range_def date)
  have d: "1 \<le> d" "d \<le> 31" "d \<le> daysIn y m"
    using c daysIn_le [of m y] by auto
  have s: "0 \<le> s" "s < 86400" by (simp_all add: s_def)
  obtain y1 y2 y3 y4 where Y: "pad 4 (show_nat (nat y)) = [y1, y2, y3, y4]" using four_digits y by blast
  obtain m1 m2 where Mo: "pad 2 (show_nat (nat m)) = [m1, m2]" using two_digits [of m] c by auto
  obtain d1 d2 where D: "pad 2 (show_nat (nat d)) = [d1, d2]" using two_digits [of d] d by auto
  obtain h1 h2 n1 n2 s1 s2 where hms: "pad 2 (show_nat (nat (s div 3600))) = [h1, h2]" "pad 2 (show_nat (nat (s div 60 mod 60))) = [n1, n2]"
    "pad 2 (show_nat (nat (s mod 60))) = [s1, s2]"
    and clock: "parseUint [h1, h2] 0 23 = Some (s div 3600)"
    "parseUint [n1, n2] 0 59 = Some (s div 60 mod 60)" "parseUint [s1, s2] 0 59 = Some (s mod 60)"
    by (rule clock_fields [OF s])
  have form: "FormatRFC3339 t = [y1, y2, y3, y4, CHR ''-'', m1, m2, CHR ''-'', d1, d2, CHR ''T'', h1, h2, CHR '':'', n1, n2, CHR '':'', s1, s2, CHR ''Z'']"
    using y by (simp add: FormatRFC3339_def date s_def [symmetric] Y Mo D hms)
  have fields: "parseUint [y1, y2, y3, y4] 0 9999 = Some y" "parseUint [m1, m2] 1 12 = Some m" "parseUint [d1, d2] 1 (daysIn y m) = Some d"
    by (rule parseUint_pad [of y 0 9999 4, unfolded Y] parseUint_pad [of m 1 12 2, unfolded Mo] parseUint_pad [of d 1 "daysIn y m" 2, unfolded D];
      use y c d in linarith)+
  have "parseRFC3339 (FormatRFC3339 t) = Some (date_time y m d (s div 3600) (s div 60 mod 60) (s mod 60) 0)"
    by (simp add: form parseRFC3339_def slice_def fields clock parse_fraction_def parse_zone_def)
  then show ?thesis using date_time_date_of [OF date] by (simp add: ParseRFC3339_def s_def)
qed

end
