(* ===== verification/Konflux_Controller.thy ===== *)
theory Konflux_Controller
  imports Component_Reconcilers Go_Time
begin

text \<open>
  The top-level controller (\<open>internal/controller/konflux/konflux_controller.go\<close>): it applies one
  custom resource per component, deletes those of disabled optional components, copies the components'
  conditions into the Konflux resource, aggregates them, checks for cert-manager and maintains the
  \<open>konflux_up\<close> gauge. It has the common shape of \<open>Reconciler\<close> with two differences, its apply phase and
  its status phase; the deferred gauge update wraps the whole.
\<close>

section \<open>Names\<close>

definition imageControllerGVK :: gvk where "imageControllerGVK = konflux_gvk ''KonfluxImageController''"
definition internalRegistryGVK :: gvk where "internalRegistryGVK = konflux_gvk ''KonfluxInternalRegistry''"
definition defaultTenantGVK :: gvk where "defaultTenantGVK = konflux_gvk ''KonfluxDefaultTenant''"
definition segmentBridgeGVK :: gvk where "segmentBridgeGVK = konflux_gvk ''KonfluxSegmentBridge''"

definition konfluxCleanupGVKs :: "gvk list" where
  "konfluxCleanupGVKs = [imageControllerGVK, internalRegistryGVK, defaultTenantGVK, segmentBridgeGVK]"

definition konfluxClusterScopedAllowList :: allow_list where
  "konfluxClusterScopedAllowList = Some [
     (imageControllerGVK, [''konflux-image-controller'']),
     (internalRegistryGVK, [''konflux-internal-registry'']),
     (defaultTenantGVK, [''konflux-default-tenant'']),
     (segmentBridgeGVK, [''konflux-segment-bridge''])]"

section \<open>Component resources\<close>

text \<open>
  The objects that the \<open>applyKonflux...\<close> methods build from the Konflux resource; each method then
  hands its object to \<open>ApplyOwned\<close>. The common object literal is \<open>sub_cr\<close>.
\<close>

definition sub_cr :: "string \<Rightarrow> string \<Rightarrow> cr_spec \<Rightarrow> kobj" where
  "sub_cr kind name spec = new_object (konflux_gvk kind) [] name (BKonfluxCR spec)"

definition konflux_buildService :: "konflux_spec \<Rightarrow> kobj" where
  "konflux_buildService owner =
     (let config = (case konfluxBuildService owner of Some (Some c) \<Rightarrow> c | _ \<Rightarrow> BuildServiceConfigSpec);
          config = (if pipelineConfig config = None then config\<lparr> pipelineConfig := Some PipelineConfigSpec \<rparr> else config)
      in sub_cr ''KonfluxBuildService'' ''konflux-build-service''
           (BuildServiceSpec \<lparr> bs_config = config, bs_componentMetrics = ForwardedComponentMetrics owner \<rparr>))"

definition konflux_integrationService :: "konflux_spec \<Rightarrow> kobj" where
  "konflux_integrationService owner =
     (let config = (case konfluxIntegrationService owner of Some (Some c) \<Rightarrow> c | _ \<Rightarrow> IntegrationServiceConfigSpec)
      in sub_cr ''KonfluxIntegrationService'' ''konflux-integration-service''
           (IntegrationServiceSpec \<lparr> is_config = config, is_componentMetrics = ForwardedComponentMetrics owner \<rparr>))"

definition konflux_releaseService :: "konflux_spec \<Rightarrow> kobj" where
  "konflux_releaseService owner =
     (let config = (case konfluxReleaseService owner of Some (Some c) \<Rightarrow> c | _ \<Rightarrow> ReleaseServiceConfigSpec)
      in sub_cr ''KonfluxReleaseService'' ''konflux-release-service''
           (ReleaseServiceSpec \<lparr> rs_config = config, rs_componentMetrics = ForwardedComponentMetrics owner \<rparr>))"

definition konflux_ui :: "konflux_spec \<Rightarrow> kobj" where
  "konflux_ui owner =
     (let config = (case konfluxUI owner of Some (Some c) \<Rightarrow> c | _ \<Rightarrow> UIConfigSpec)
      in sub_cr ''KonfluxUI'' ''konflux-ui''
           (UISpec \<lparr> ui_config = config, ui_componentMetrics = ForwardedComponentMetrics owner \<rparr> None))"

definition konflux_rbac :: kobj where
  "konflux_rbac = sub_cr ''KonfluxRBAC'' ''konflux-rbac'' RBACSpec"

definition konflux_info :: "konflux_spec \<Rightarrow> kobj" where
  "konflux_info owner =
     (let spec = (case konfluxInfo owner of Some (Some s) \<Rightarrow> s | _ \<Rightarrow> InfoSpec);
          spec = (case banner spec of
                    Some items \<Rightarrow> if items = None \<or> items = Some [] then spec\<lparr> banner := None \<rparr> else spec
                  | None \<Rightarrow> spec)
      in sub_cr ''KonfluxInfo'' ''konflux-info'' (KonfluxInfoSpec spec))"

definition konflux_namespaceLister :: "konflux_spec \<Rightarrow> kobj" where
  "konflux_namespaceLister owner =
     sub_cr ''KonfluxNamespaceLister'' ''konflux-namespace-lister'' (KonfluxNamespaceListerSpec
       (case namespaceLister owner of Some (Some s) \<Rightarrow> s | _ \<Rightarrow> NamespaceListerSpec))"

definition konflux_enterpriseContract :: "konflux_spec \<Rightarrow> kobj" where
  "konflux_enterpriseContract owner =
     sub_cr ''KonfluxEnterpriseContract'' ''konflux-enterprise-contract'' (EnterpriseContractSpec
       \<lparr> ec_skipPolicies = (case enterpriseContract owner of Some skip \<Rightarrow> skip | None \<Rightarrow> False) \<rparr>)"

definition konflux_applicationAPI :: kobj where
  "konflux_applicationAPI = sub_cr ''KonfluxApplicationAPI'' ''konflux-application-api'' ApplicationAPISpec"

definition konflux_imageController :: "konflux_spec \<Rightarrow> kobj" where
  "konflux_imageController owner =
     (let config = (case imageController owner of
            Some c \<Rightarrow> (case icc_spec c of Some s \<Rightarrow> s | None \<Rightarrow> ImageControllerConfigSpec) | None \<Rightarrow> ImageControllerConfigSpec)
      in sub_cr ''KonfluxImageController'' ''konflux-image-controller''
           (ImageControllerSpec \<lparr> ic_config = config, ic_componentMetrics = ForwardedComponentMetrics owner \<rparr>))"

definition konflux_certManager :: "konflux_spec \<Rightarrow> kobj" where
  "konflux_certManager owner =
     sub_cr ''KonfluxCertManager'' ''konflux-cert-manager'' (CertManagerSpec
       \<lparr> createClusterIssuer = (case certManager owner of Some c \<Rightarrow> c | None \<Rightarrow> None) \<rparr>)"

definition konflux_internalRegistry :: kobj where
  "konflux_internalRegistry = sub_cr ''KonfluxInternalRegistry'' ''konflux-internal-registry'' InternalRegistrySpec"

definition konflux_defaultTenant :: kobj where
  "konflux_defaultTenant = sub_cr ''KonfluxDefaultTenant'' ''konflux-default-tenant'' DefaultTenantSpec"

definition konflux_segmentBridge :: "konflux_spec \<Rightarrow> kobj" where
  "konflux_segmentBridge owner =
     sub_cr ''KonfluxSegmentBridge'' ''konflux-segment-bridge'' (KonfluxSegmentBridgeSpec
       (case telemetry owner of Some t \<Rightarrow> (case tel_spec t of Some s \<Rightarrow> s | None \<Rightarrow> SegmentBridgeSpec) | None \<Rightarrow> SegmentBridgeSpec))"

definition konflux_cli :: kobj where
  "konflux_cli = sub_cr ''KonfluxCLI'' ''konflux-cli'' CLISpec"

section \<open>The apply phase\<close>

text \<open>
  The guarded applications in the order of the code: a disabled component is skipped, the first
  failure ends the phase with the operation \<open>apply <kind>\<close>.
\<close>

definition sub_crs :: "konflux_spec \<Rightarrow> (bool \<times> kobj) list" where
  "sub_crs owner = [
     (True, konflux_applicationAPI),
     (True, konflux_buildService owner),
     (True, konflux_integrationService owner),
     (True, konflux_releaseService owner),
     (True, konflux_ui owner),
     (True, konflux_rbac),
     (True, konflux_info owner),
     (True, konflux_namespaceLister owner),
     (True, konflux_enterpriseContract owner),
     (IsImageControllerEnabled owner, konflux_imageController owner),
     (True, konflux_certManager owner),
     (IsInternalRegistryEnabled owner, konflux_internalRegistry),
     (IsDefaultTenantEnabled owner, konflux_defaultTenant),
     (IsTelemetryEnabled owner, konflux_segmentBridge owner),
     (True, konflux_cli)]"

fun apply_sub_crs :: "machinery \<Rightarrow> 's api \<Rightarrow> (bool \<times> kobj) list \<Rightarrow> tracking_client \<Rightarrow> 's world \<Rightarrow>
    phase_result \<times> tracking_client \<times> 's world" where
  "apply_sub_crs M A [] tc w = (Inr no_requeue, tc, w)"
| "apply_sub_crs M A ((enabled, obj) # rest) tc w =
     (if enabled
      then (case ApplyOwned M A obj tc w of
              (Inl e, tc', w') \<Rightarrow> (Inl (e, ReasonApplyFailed, ''apply '' @ GetKind obj), tc', w')
            | (Inr obj', tc', w') \<Rightarrow> apply_sub_crs M A rest tc' w')
      else apply_sub_crs M A rest tc w)"

section \<open>The status phase\<close>

text \<open>
  The fetched component resources in the order of the code, with the guard, the kind, the name and
  the condition prefix.
\<close>

record status_step =
  st_enabled :: bool
  st_kind :: string
  st_name :: string
  st_prefix :: string

definition status_steps :: "konflux_spec \<Rightarrow> status_step list" where
  "status_steps owner = map (\<lambda>(b, k, n, p). \<lparr> st_enabled = b, st_kind = k, st_name = n, st_prefix = p \<rparr>) [
     (True, ''KonfluxBuildService'', ''konflux-build-service'', ''build-service''),
     (True, ''KonfluxIntegrationService'', ''konflux-integration-service'', ''integration-service''),
     (True, ''KonfluxReleaseService'', ''konflux-release-service'', ''release-service''),
     (True, ''KonfluxUI'', ''konflux-ui'', ''ui''),
     (True, ''KonfluxRBAC'', ''konflux-rbac'', ''rbac''),
     (True, ''KonfluxInfo'', ''konflux-info'', ''info''),
     (True, ''KonfluxNamespaceLister'', ''konflux-namespace-lister'', ''namespace-lister''),
     (True, ''KonfluxEnterpriseContract'', ''konflux-enterprise-contract'', ''enterprise-contract''),
     (True, ''KonfluxApplicationAPI'', ''konflux-application-api'', ''application-api''),
     (True, ''KonfluxCLI'', ''konflux-cli'', ''cli''),
     (IsImageControllerEnabled owner, ''KonfluxImageController'', ''konflux-image-controller'', ''image-controller''),
     (True, ''KonfluxCertManager'', ''konflux-cert-manager'', ''cert-manager''),
     (IsInternalRegistryEnabled owner, ''KonfluxInternalRegistry'', ''konflux-internal-registry'', ''internal-registry''),
     (IsDefaultTenantEnabled owner, ''KonfluxDefaultTenant'', ''konflux-default-tenant'', ''default-tenant''),
     (IsTelemetryEnabled owner, ''KonfluxSegmentBridge'', ''konflux-segment-bridge'', ''segment-bridge'')]"

text \<open>The UI URL is copied from the status of the UI resource.\<close>

definition ui_ingress_status :: "kobj \<Rightarrow> ingress_status option" where
  "ui_ingress_status ui = (case o_body ui of BKonfluxCR (UISpec s i) \<Rightarrow> i | _ \<Rightarrow> None)"

definition propagate_UIURL :: "kobj \<Rightarrow> kobj \<Rightarrow> kobj" where
  "propagate_UIURL ui konflux = (case ui_ingress_status ui of
     None \<Rightarrow> konflux
   | Some i \<Rightarrow> konflux\<lparr> o_body := BKonflux (konflux_spec_of konflux) (ist_url i) \<rparr>)"

fun collect_statuses :: "machinery \<Rightarrow> 's api \<Rightarrow> status_step list \<Rightarrow> kobj \<Rightarrow> sub_cr_status list \<Rightarrow> 's world \<Rightarrow>
    ((kobj \<times> go_error \<times> string \<times> string) + (kobj \<times> sub_cr_status list)) \<times> 's world" where
  "collect_statuses M A [] konflux subCRStatuses w = (Inr (konflux, subCRStatuses), w)"
| "collect_statuses M A (s # steps) konflux subCRStatuses w =
     (if st_enabled s
      then (case k_get A (konflux_gvk (st_kind s)) [] (st_name s) w of
              (Inl e, w') \<Rightarrow> (Inl (konflux, e, ReasonSubCRStatusFailed, ''get '' @ st_kind s @ '' status''), w')
            | (Inr sub, w') \<Rightarrow> (case CopySubCRStatus M konflux sub (st_prefix s) of (konflux', status) \<Rightarrow>
                collect_statuses M A steps
                  (if st_kind s = ''KonfluxUI'' then propagate_UIURL sub konflux' else konflux')
                  (subCRStatuses @ [status]) w'))
      else collect_statuses M A steps konflux subCRStatuses w)"


definition checkCertManagerAvailability :: "machinery \<Rightarrow> cluster_info \<Rightarrow> kobj \<Rightarrow> kobj \<times> ctrl_result" where
  "checkCertManagerAvailability M ci konflux =
     (let (konflux', result) = (case HasCertManager ci of
            Inl err \<Rightarrow> (SetCondition M konflux (mk_condition ConditionTypeCertManagerAvailable CUnknown
                ReasonCertManagerInstallationCheckFailed (''Failed to check cert-manager availability: '' @ error_text err)),
                \<lparr> RequeueAfter = 30 * Second \<rparr>)
          | Inr certManagerInstalled \<Rightarrow>
              if \<not> certManagerInstalled
              then (SetCondition M konflux (mk_condition ConditionTypeCertManagerAvailable CFalse
                ReasonCertManagerNotInstalled
                ''cert-manager CRDs are not installed. Several Konflux components require cert-manager to create Certificate resources for TLS. Please install cert-manager before proceeding.''),
                \<lparr> RequeueAfter = 60 * Second \<rparr>)
              else (SetCondition M konflux (mk_condition ConditionTypeCertManagerAvailable CTrue
                ReasonCertManagerInstalled ''cert-manager CRDs are installed''), no_requeue))
      in (OverrideReadyIfDependencyFalse M konflux' [\<lparr> do_ConditionType = ConditionTypeCertManagerAvailable,
             do_Reason = ReasonCertManagerNotInstalled,
             do_Message = ''cert-manager CRDs are not installed. Some components require cert-manager to function properly.'' \<rparr>],
          result))"

definition konflux_status :: "machinery \<Rightarrow> 's api \<Rightarrow> cluster_info \<Rightarrow> ctrl_result \<Rightarrow> kobj \<Rightarrow> 's world \<Rightarrow> status_result \<times> 's world" where
  "konflux_status M A ci res konflux w =
     (case collect_statuses M A (status_steps (konflux_spec_of konflux)) konflux [] w of
        (Inl failure, w') \<Rightarrow> (Inl failure, w')
      | (Inr (konflux', subCRStatuses), w') \<Rightarrow>
          (Inr (checkCertManagerAvailability M ci (SetAggregatedReadyCondition M konflux' subCRStatuses)), w'))"

section \<open>Reconcile\<close>

definition konflux_component :: "machinery \<Rightarrow> 's api \<Rightarrow> cluster_info \<Rightarrow> 's component_def" where
  "konflux_component M A ci = \<lparr> cmp_gvk = konflux_gvk ''Konflux'', cmp_component = ''konflux'', cmp_fieldManager = ''konflux-controller'',
     cmp_cleanupGVKs = konfluxCleanupGVKs, cmp_opts = [WithClusterScopedAllowList konfluxClusterScopedAllowList],
     cmp_apply = (\<lambda>konflux tc w. apply_sub_crs M A (sub_crs (konflux_spec_of konflux)) tc w),
     cmp_status = konflux_status M A ci \<rparr>"

definition SetKonfluxUp :: "bool \<Rightarrow> 's world \<Rightarrow> 's world" where
  "SetKonfluxUp ready w = emit (EGauge ready) (cluster w) w"

text \<open>
  The deferred update of the gauge runs on every path on which the resource was fetched; when the
  resource does not exist the gauge is set to 0, and another error of the fetch leaves it alone.
\<close>

definition konflux_Reconcile :: "machinery \<Rightarrow> 's api \<Rightarrow> nat list \<Rightarrow> cluster_info \<Rightarrow> string \<Rightarrow> string \<Rightarrow> 's world \<Rightarrow> 's outcome" where
  "konflux_Reconcile M A schedule ci ns name w =
     (case k_get A (konflux_gvk ''Konflux'') ns name w of
        (Inl e, w1) \<Rightarrow> \<lparr> out_result = no_requeue, out_err = IgnoreNotFound e, out_cr = None,
           out_world = (if IsNotFound e then SetKonfluxUp False w1 else w1) \<rparr>
      | (Inr konflux, w1) \<Rightarrow>
          let out = reconcile_fetched M A schedule (konflux_component M A ci) konflux w1
          in (case out_cr out of
                None \<Rightarrow> out
              | Some konflux' \<Rightarrow> out\<lparr> out_world := SetKonfluxUp (IsReady M konflux') (out_world out) \<rparr>))"

section \<open>The Konflux controller is a reconciler\<close>

definition enabled_objects :: "(bool \<times> kobj) list \<Rightarrow> kobj list" where
  "enabled_objects xs = map snd (filter fst xs)"

lemma apply_sub_crs_objects:
  "apply_sub_crs M A xs tc w = (r, tc', w') \<Longrightarrow>
     \<exists>r0. apply_objects M A c keep_all (enabled_objects xs) tc w = (r0, tc', w') \<and> (r0 = None \<longleftrightarrow> (\<exists>res. r = Inr res))"
proof (induction M A xs tc w rule: apply_sub_crs.induct)
  case (2 M A enabled obj rest tc w)
  show ?case
  proof (cases enabled)
    case True
    obtain r1 tc1 w1 where a: "ApplyOwned M A obj tc w = (r1, tc1, w1)" by (metis prod_cases3)
    show ?thesis
    proof (cases r1)
      case (Inl e)
      with True a 2(3) show ?thesis by (auto simp: enabled_objects_def keep_all_def)
    next
      case (Inr obj')
      with True a 2(3) have "apply_sub_crs M A rest tc1 w1 = (r, tc', w')" by simp
      from 2(1) [OF True a [symmetric] Inr refl this] True a Inr show ?thesis
        by (auto simp: enabled_objects_def keep_all_def)
    qed
  next
    case False
    with 2(2,3) show ?thesis by (simp add: enabled_objects_def)
  qed
qed (auto simp: enabled_objects_def)

lemma collect_statuses_reads:
  "collect_statuses M A steps konflux ss w = (r, w') \<Longrightarrow> emits is_read w w'"
proof (induction steps arbitrary: konflux ss w)
  case (Cons s steps)
  show ?case
  proof (cases "st_enabled s")
    case True
    obtain g w1 where get: "k_get A (konflux_gvk (st_kind s)) [] (st_name s) w = (g, w1)" by fastforce
    have one: "emits is_read w w1" using k_call_emits(1) [OF get] by (simp add: is_read_def)
    show ?thesis
    proof (cases g)
      case (Inl e)
      with Cons.prems True get one show ?thesis by simp
    next
      case (Inr sub)
      with Cons.prems True get have "\<exists>k ss'. collect_statuses M A steps k ss' w1 = (r, w')"
        by (auto split: prod.splits)
      with Cons.IH one show ?thesis by (blast intro: emits_trans)
    qed
  qed (use Cons in simp)
qed simp

interpretation konflux: strict_reconciler M "konflux_component M A ci" for M A ci
proof (unfold_locales, goal_cases)
  case (1 cr tc w r tc' w')
  then show ?case using apply_sub_crs_objects apply_objects_keeps by (fastforce simp: konflux_component_def)
next
  case (2 cr tc w r tc' w')
  then obtain r0 where "apply_objects M A RBAC keep_all (enabled_objects (sub_crs (konflux_spec_of cr))) tc w = (r0, tc', w')"
    using apply_sub_crs_objects by (fastforce simp: konflux_component_def)
  then have "emits (owned_apply M tc) w w'" using apply_objects_keeps by blast
  then show ?case by (rule emits_mono) (rule owned_apply_not_cleanup)
next
  case (3 cr tc w r tc' w' p opts obj obj')
  then obtain r0 where "apply_objects M A RBAC keep_all (enabled_objects (sub_crs (konflux_spec_of cr))) tc w = (r0, tc', w')"
    using apply_sub_crs_objects by (fastforce simp: konflux_component_def)
  from apply_objects_tracks [OF this 3(2)] show ?case by (simp add: key_of_def)
next
  case (4 res cr w s w')
  then show ?case
    by (auto simp: konflux_component_def konflux_status_def split: prod.splits sum.splits dest!: collect_statuses_reads)
next
  case (5 cr tc w r tc' w' p opts obj e)
  then obtain r0 where "apply_objects M A RBAC keep_all (enabled_objects (sub_crs (konflux_spec_of cr))) tc w = (r0, tc', w')"
      "r0 = None \<longleftrightarrow> (\<exists>res. r = Inr res)"
    using apply_sub_crs_objects by (fastforce simp: konflux_component_def)
  with apply_objects_fails [OF this(1) 5(2)] show ?case by (cases r) auto
qed

text \<open>The outcome of \<open>konflux_Reconcile\<close> is that of the common shape, followed by the gauge.\<close>

definition gauge_of :: "machinery \<Rightarrow> kobj option \<Rightarrow> event list \<Rightarrow> bool" where
  "gauge_of M cr tail \<longleftrightarrow> (case cr of Some k \<Rightarrow> tail = [EGauge (IsReady M k)] | None \<Rightarrow> tail = [] \<or> tail = [EGauge False])"

lemma konflux_Reconcile_shape:
  assumes "konflux_Reconcile M A schedule ci ns name w = out"
  obtains out1 tail where "component_reconcile M A schedule (konflux_component M A ci) ns name w = out1"
    "out_err out = out_err out1" "out_cr out = out_cr out1" "out_result out = out_result out1"
    "added w (out_world out) = added w (out_world out1) @ tail" "events (out_world out) = events (out_world out1) @ tail"
    "gauge_of M (out_cr out) tail"
proof -
  obtain g w1 where get: "k_get A (konflux_gvk ''Konflux'') ns name w = (g, w1)" by fastforce
  have gvk: "cmp_gvk (konflux_component M A ci) = konflux_gvk ''Konflux''" by (simp add: konflux_component_def)
  let ?out1 = "component_reconcile M A schedule (konflux_component M A ci) ns name w"
  have "extends w (out_world ?out1)"
    by (rule konflux.reconcile_extends)
  then have added: "events (out_world out) = events (out_world ?out1) @ tail \<Longrightarrow>
      added w (out_world out) = added w (out_world ?out1) @ tail" for tail
    by (intro addedI) (simp add: extends_iff)
  show ?thesis
  proof (cases g)
    case (Inl e)
    then show ?thesis
      using that [of ?out1 "if IsNotFound e then [EGauge False] else []"] added assms get gvk
      by (auto simp: konflux_Reconcile_def component_reconcile_def SetKonfluxUp_def gauge_of_def)
  next
    case (Inr konflux)
    then have out1: "?out1 = reconcile_fetched M A schedule (konflux_component M A ci) konflux w1"
      using get gvk by (simp add: component_reconcile_def)
    show ?thesis
    proof (cases "out_cr ?out1")
      case None
      then show ?thesis using that [of ?out1 "[]"] added assms get Inr out1
        by (auto simp: konflux_Reconcile_def Let_def gauge_of_def)
    next
      case (Some k)
      then show ?thesis using that [of ?out1 "[EGauge (IsReady M k)]"] added assms get Inr out1
        by (auto simp: konflux_Reconcile_def Let_def SetKonfluxUp_def gauge_of_def)
    qed
  qed
qed

section \<open>What a successful reconcile reports\<close>

definition enabled_steps :: "konflux_spec \<Rightarrow> status_step list" where
  "enabled_steps owner = filter st_enabled (status_steps owner)"

text \<open>
  The resources fetched for the steps: \<open>subs\<close> are the answers to the fetches of \<open>steps\<close>, in order.
\<close>

definition fetched :: "event list \<Rightarrow> status_step list \<Rightarrow> kobj list \<Rightarrow> bool" where
  "fetched es steps subs \<longleftrightarrow>
     es = map2 (\<lambda>s sub. EGet (konflux_gvk (st_kind s)) [] (st_name s) (Inr sub)) steps subs \<and> length steps = length subs"

text \<open>One step of the collection, and the whole as a fold.\<close>

definition copy_step :: "machinery \<Rightarrow> status_step \<times> kobj \<Rightarrow> kobj \<Rightarrow> kobj" where
  "copy_step M ss konflux = (case ss of (s, sub) \<Rightarrow>
     let konflux' = fst (CopySubCRStatus M konflux sub (st_prefix s))
     in if st_kind s = ''KonfluxUI'' then propagate_UIURL sub konflux' else konflux')"

lemma collect_statuses_ok:
  "collect_statuses M A steps konflux ss w = (Inr (konflux', ss'), w') \<Longrightarrow>
     \<exists>subs. fetched (added w w') (filter st_enabled steps) subs \<and> extends w w' \<and>
       konflux' = fold (copy_step M) (zip (filter st_enabled steps) subs) konflux \<and>
       ss' = ss @ map2 (\<lambda>s sub. \<lparr> scs_Name = st_prefix s, scs_Ready = IsConditionTrue M sub TypeReady \<rparr>) (filter st_enabled steps) subs"
proof (induction steps arbitrary: konflux ss w)
  case Nil
  then show ?case by (auto simp: fetched_def)
next
  case (Cons s steps)
  show ?case
  proof (cases "st_enabled s")
    case False
    with Cons show ?thesis by simp
  next
    case True
    obtain g w1 where get: "k_get A (konflux_gvk (st_kind s)) [] (st_name s) w = (g, w1)" by fastforce
    with Cons.prems True obtain sub where g: "g = Inr sub" by (cases g) auto
    obtain k1 st where copy: "CopySubCRStatus M konflux sub (st_prefix s) = (k1, st)" by fastforce
    have rest: "collect_statuses M A steps (copy_step M (s, sub) konflux) (ss @ [st]) w1 = (Inr (konflux', ss'), w')"
      using Cons.prems True get g copy by (simp add: copy_step_def Let_def split: if_splits)
    from Cons.IH [OF rest] obtain subs where subs: "fetched (added w1 w') (filter st_enabled steps) subs" "extends w1 w'"
      "konflux' = fold (copy_step M) (zip (filter st_enabled steps) subs) (copy_step M (s, sub) konflux)"
      "ss' = (ss @ [st]) @ map2 (\<lambda>s sub. \<lparr> scs_Name = st_prefix s, scs_Ready = IsConditionTrue M sub TypeReady \<rparr>) (filter st_enabled steps) subs"
      by blast
    have "added w w' = added w w1 @ added w1 w'" "extends w w'"
      using k_call_extends(1) [OF get] subs(2) by (auto intro: added_trans extends_trans)
    then show ?thesis
      using True subs g k_call_added(1) [OF get] CopySubCRStatus_result(1) [OF copy]
      by (intro exI [of _ "sub # subs"]) (simp add: fetched_def)
  qed
qed

lemma propagate_UIURL_simps [simp]:
  "GetConditions (propagate_UIURL ui konflux) = GetConditions konflux"
  "conds (propagate_UIURL ui konflux) = conds konflux"
  "o_generation (propagate_UIURL ui konflux) = o_generation konflux"
  by (auto simp: propagate_UIURL_def GetConditions_def conds_def split: option.splits intro!: ext)

lemma checkCertManager_ready:
  assumes "condition_laws M" and "checkCertManagerAvailability M ci konflux = (konflux', res)"
  shows "IsReady M konflux' \<longleftrightarrow> IsReady M konflux \<and> HasCertManager ci \<noteq> Inr False"
    and "\<exists>c. conds konflux' ConditionTypeCertManagerAvailable = Some c \<and>
      cstatus c = (case HasCertManager ci of Inl e \<Rightarrow> CUnknown | Inr b \<Rightarrow> if b then CTrue else CFalse)"
    and "res = (case HasCertManager ci of Inl e \<Rightarrow> \<lparr> RequeueAfter = 30 * Second \<rparr>
      | Inr b \<Rightarrow> if b then no_requeue else \<lparr> RequeueAfter = 60 * Second \<rparr>)"
    and "t \<noteq> TypeReady \<Longrightarrow> t \<noteq> ConditionTypeCertManagerAvailable \<Longrightarrow> conds konflux' t = conds konflux t"
  using assms(2)
  by (auto simp: checkCertManagerAvailability_def Let_def find_condition [OF assms(1)] conds_SetCondition [OF assms(1)]
      IsReady_IsConditionTrue IsConditionTrue_SetCondition [OF assms(1)] split: sum.splits if_splits)

text \<open>Reading the ghost trace: what the status phase of a successful reconcile did.\<close>

lemma konflux_success:
  assumes run: "konflux_Reconcile M A schedule ci ns name w = out" and ok: "out_err out = None" "out_cr out = Some k'"
  obtains k w3 subs k1 k2 w4 where
    "EGet (konflux_gvk ''Konflux'') ns name (Inr k) \<in> set (events w3)" "extends w w3"
    "fetched (added w3 w4) (enabled_steps (konflux_spec_of k)) subs" "extends w3 w4"
    "k1 = SetAggregatedReadyCondition M (fold (copy_step M) (zip (enabled_steps (konflux_spec_of k)) subs) k)
       (map2 (\<lambda>s sub. \<lparr> scs_Name = st_prefix s, scs_Ready = IsConditionTrue M sub TypeReady \<rparr>) (enabled_steps (konflux_spec_of k)) subs)"
    "checkCertManagerAvailability M ci k1 = (k2, out_result out)"
    "events (out_world out) = events w4 @ [EStatusUpdate k2 (Inr k'), EGauge (IsReady M k')]"
proof (rule konflux_Reconcile_shape [OF run])
  fix out1 tail
  assume shape: "component_reconcile M A schedule (konflux_component M A ci) ns name w = out1"
    "out_err out = out_err out1" "out_cr out = out_cr out1" "out_result out = out_result out1"
    "events (out_world out) = events (out_world out1) @ tail" "gauge_of M (out_cr out) tail"
  show ?thesis
  proof (rule konflux.success_writes_status [OF shape(1)])
    show "out_err out1 = None" "out_cr out1 = Some k'" using ok shape(2,3) by simp_all
  next
    fix cr res w3 cr1 w4
    assume get: "EGet (cmp_gvk (konflux_component M A ci)) ns name (Inr cr) \<in> set (events w3)" and w3: "extends w w3"
      and status: "cmp_status (konflux_component M A ci) res cr w3 = (Inr (cr1, out_result out1), w4)"
      and last: "events (out_world out1) = events w4 @ [EStatusUpdate cr1 (Inr k')]"
    from status obtain k0 ss where coll: "collect_statuses M A (status_steps (konflux_spec_of cr)) cr [] w3 = (Inr (k0, ss), w4)"
      and check: "checkCertManagerAvailability M ci (SetAggregatedReadyCondition M k0 ss) = (cr1, out_result out1)"
      by (auto simp: konflux_component_def konflux_status_def split: prod.splits sum.splits)
    have "cmp_gvk (konflux_component M A ci) = konflux_gvk ''Konflux''" by (simp add: konflux_component_def)
    moreover have "tail = [EGauge (IsReady M k')]" using shape(6) ok(2) by (simp add: gauge_of_def)
    ultimately show ?thesis
      using collect_statuses_ok [OF coll] check get w3 last shape(4,5)
      by (elim exE conjE) (rule that [of cr w3 w4], auto simp: enabled_steps_def)
  qed
qed

subsection \<open>The copied conditions\<close>

lemma HasPrefix_dot_unique:
  assumes "HasPrefix t (p @ ''.'')" and "HasPrefix t (q @ ''.'')" and "CHR ''.'' \<notin> set p" and "CHR ''.'' \<notin> set q"
  shows "p = q"
proof -
  obtain x where x: "t = p @ CHR ''.'' # x" using assms(1) by (auto simp: HasPrefix_iff)
  obtain y where y: "t = q @ CHR ''.'' # y" using assms(2) by (auto simp: HasPrefix_iff)
  have "takeWhile (\<lambda>c. c \<noteq> CHR ''.'') (r @ CHR ''.'' # z) = r" if "CHR ''.'' \<notin> set r" for r z
    using that by (induction r) auto
  with x y assms(3,4) show ?thesis by metis
qed

lemma conds_copy_step: "conds (copy_step M (s, sub) k) = conds (fst (CopySubCRStatus M k sub (st_prefix s)))"
  by (simp add: copy_step_def Let_def)

lemma copy_step_frame:
  assumes "condition_laws M" and "\<not> HasPrefix t (st_prefix s @ ''.'')"
  shows "conds (copy_step M (s, sub) k) t = conds k t"
  using CopySubCRStatus_frame [OF assms(1) _ assms(2)] by (metis conds_copy_step prod.collapse)

lemma fold_copy_frame:
  assumes "condition_laws M" and "\<forall>(s, sub) \<in> set xs. \<not> HasPrefix t (st_prefix s @ ''.'')"
  shows "conds (fold (copy_step M) xs k) t = conds k t"
  using assms(2) copy_step_frame [OF assms(1)] by (induction xs arbitrary: k) auto

lemma fold_copy_types:
  assumes laws: "condition_laws M"
  shows "distinct (map (st_prefix \<circ> fst) xs) \<Longrightarrow> \<forall>(s, sub) \<in> set xs. CHR ''.'' \<notin> set (st_prefix s) \<Longrightarrow>
    (s, sub) \<in> set xs \<Longrightarrow> HasPrefix t (st_prefix s @ ''.'') \<Longrightarrow>
    t \<in> dom (conds (fold (copy_step M) xs k)) \<longleftrightarrow> t \<in> prefixed_type (st_prefix s) ` set (GetConditions sub)"
proof (induction xs arbitrary: k)
  case (Cons x xs)
  show ?case
  proof (cases "x = (s, sub)")
    case True
    have "\<not> HasPrefix t (st_prefix s' @ ''.'')" if "(s', sub') \<in> set xs" for s' sub'
      using Cons.prems True that HasPrefix_dot_unique [of t "st_prefix s" "st_prefix s'"] by (force simp: image_iff)
    then have "conds (fold (copy_step M) xs (copy_step M x k)) t = conds (copy_step M x k) t"
      by (intro fold_copy_frame [OF laws]) auto
    moreover obtain k' st where copy: "CopySubCRStatus M k sub (st_prefix s) = (k', st)" by fastforce
    then have "conds (copy_step M x k) = conds k'" by (simp add: True conds_copy_step)
    ultimately show ?thesis
      using CopySubCRStatus_types [OF laws copy] Cons.prems(4) by (auto simp: domIff)
  next
    case False
    with Cons show ?thesis by auto
  qed
qed simp

lemma status_prefixes:
  "distinct (map st_prefix (enabled_steps owner))" "s \<in> set (enabled_steps owner) \<Longrightarrow> CHR ''.'' \<notin> set (st_prefix s)"
proof -
  have "distinct (map st_prefix (status_steps owner))" by (simp add: status_steps_def)
  then show "distinct (map st_prefix (enabled_steps owner))" unfolding enabled_steps_def by (rule distinct_map_filter)
  have "list_all (\<lambda>s. CHR ''.'' \<notin> set (st_prefix s)) (status_steps owner)" by (simp add: status_steps_def)
  then show "s \<in> set (enabled_steps owner) \<Longrightarrow> CHR ''.'' \<notin> set (st_prefix s)"
    by (simp add: enabled_steps_def list_all_iff)
qed

lemma reserved_types: "HasPrefix t (p @ ''.'') \<Longrightarrow> t \<noteq> TypeReady \<and> t \<noteq> ConditionTypeCertManagerAvailable"
proof -
  assume "HasPrefix t (p @ ''.'')"
  then have "CHR ''.'' \<in> set t" by (auto simp: HasPrefix_iff)
  then show ?thesis by auto
qed

lemma IsReady_aggregated_map2:
  "condition_laws M \<Longrightarrow> length steps = length subs \<Longrightarrow>
   IsReady M (SetAggregatedReadyCondition M k
     (map2 (\<lambda>s sub. \<lparr> scs_Name = st_prefix s, scs_Ready = IsConditionTrue M sub TypeReady \<rparr>) steps subs)) \<longleftrightarrow>
   (\<forall>sub \<in> set subs. IsConditionTrue M sub TypeReady)"
  by (auto simp: IsReady_aggregated set_zip all_set_conv_all_nth)

lemma conds_aggregated: "condition_laws M \<Longrightarrow> t \<noteq> TypeReady \<Longrightarrow> conds (SetAggregatedReadyCondition M k ss) t = conds k t"
  by (auto simp: SetAggregatedReadyCondition_def conds_SetCondition split: prod.splits)

section \<open>Correctness of the Konflux controller\<close>

text \<open>
  (C1) A successful reconcile of Konflux ends by fetching the resource of every enabled component, in
  order, and an accepted status update followed by the gauge. The written \<open>Ready\<close> is True exactly when
  every fetched component is Ready and cert-manager is not known to be missing; the
  \<open>CertManagerAvailable\<close> condition and the requeue time follow the outcome of the check.
\<close>

theorem konflux_success_ready:
  assumes laws: "condition_laws M" and run: "konflux_Reconcile M A schedule ci ns name w = out"
    and ok: "out_err out = None" "out_cr out = Some k'"
  shows "\<exists>k subs k2 before es. events (out_world out) = before @ es @ [EStatusUpdate k2 (Inr k'), EGauge (IsReady M k')] \<and>
    EGet (konflux_gvk ''Konflux'') ns name (Inr k) \<in> set before \<and>
    fetched es (enabled_steps (konflux_spec_of k)) subs \<and>
    (IsReady M k2 \<longleftrightarrow> (\<forall>sub \<in> set subs. IsConditionTrue M sub TypeReady) \<and> HasCertManager ci \<noteq> Inr False) \<and>
    (\<exists>c. conds k2 ConditionTypeCertManagerAvailable = Some c \<and>
       cstatus c = (case HasCertManager ci of Inl e \<Rightarrow> CUnknown | Inr b \<Rightarrow> if b then CTrue else CFalse)) \<and>
    RequeueAfter (out_result out) = (case HasCertManager ci of Inl e \<Rightarrow> 30 * Second | Inr b \<Rightarrow> if b then 0 else 60 * Second)"
proof (rule konflux_success [OF run ok])
  fix k w3 subs k1 k2 w4
  assume get: "EGet (konflux_gvk ''Konflux'') ns name (Inr k) \<in> set (events w3)"
    and subs: "fetched (added w3 w4) (enabled_steps (konflux_spec_of k)) subs" and ext: "extends w3 w4"
    and k1: "k1 = SetAggregatedReadyCondition M (fold (copy_step M) (zip (enabled_steps (konflux_spec_of k)) subs) k)
       (map2 (\<lambda>s sub. \<lparr> scs_Name = st_prefix s, scs_Ready = IsConditionTrue M sub TypeReady \<rparr>) (enabled_steps (konflux_spec_of k)) subs)"
    and check: "checkCertManagerAvailability M ci k1 = (k2, out_result out)"
    and last: "events (out_world out) = events w4 @ [EStatusUpdate k2 (Inr k'), EGauge (IsReady M k')]"
  from subs have "length (enabled_steps (konflux_spec_of k)) = length subs" by (simp add: fetched_def)
  then have "IsReady M k1 \<longleftrightarrow> (\<forall>sub \<in> set subs. IsConditionTrue M sub TypeReady)"
    unfolding k1 by (rule IsReady_aggregated_map2 [OF laws])
  moreover have "events (out_world out) = events w3 @ added w3 w4 @ [EStatusUpdate k2 (Inr k'), EGauge (IsReady M k')]"
    using last ext by (simp add: extends_iff)
  moreover have "RequeueAfter (out_result out) =
      (case HasCertManager ci of Inl e \<Rightarrow> 30 * Second | Inr b \<Rightarrow> if b then 0 else 60 * Second)"
    unfolding checkCertManager_ready(3) [OF laws check] by (simp add: no_requeue_def split: sum.split)
  ultimately show ?thesis
    using get subs checkCertManager_ready(1,2) [OF laws check]
    by (intro exI [of _ k] exI [of _ subs] exI [of _ k2] exI [of _ "events w3"] exI [of _ "added w3 w4"]) simp
qed

text \<open>
  (C9) The status a successful reconcile of Konflux writes mirrors every enabled component: under the
  component's prefix it has exactly the condition types of the fetched component resource.
\<close>

theorem konflux_success_mirrors_components:
  assumes laws: "condition_laws M" and run: "konflux_Reconcile M A schedule ci ns name w = out"
    and ok: "out_err out = None" "out_cr out = Some k'"
  shows "\<exists>k subs k2. EGet (konflux_gvk ''Konflux'') ns name (Inr k) \<in> set (events (out_world out)) \<and>
    EStatusUpdate k2 (Inr k') \<in> set (events (out_world out)) \<and>
    length subs = length (enabled_steps (konflux_spec_of k)) \<and>
    (\<forall>(s, sub) \<in> set (zip (enabled_steps (konflux_spec_of k)) subs).
       EGet (konflux_gvk (st_kind s)) [] (st_name s) (Inr sub) \<in> set (events (out_world out)) \<and>
       {t \<in> ctype ` set (GetConditions k2). HasPrefix t (st_prefix s @ ''.'')} =
         prefixed_type (st_prefix s) ` set (GetConditions sub))"
proof (rule konflux_success [OF run ok])
  fix k w3 subs k1 k2 w4
  let ?steps = "enabled_steps (konflux_spec_of k)"
  assume get: "EGet (konflux_gvk ''Konflux'') ns name (Inr k) \<in> set (events w3)"
    and subs: "fetched (added w3 w4) ?steps subs" and ext: "extends w3 w4"
    and k1: "k1 = SetAggregatedReadyCondition M (fold (copy_step M) (zip ?steps subs) k)
       (map2 (\<lambda>s sub. \<lparr> scs_Name = st_prefix s, scs_Ready = IsConditionTrue M sub TypeReady \<rparr>) ?steps subs)"
    and check: "checkCertManagerAvailability M ci k1 = (k2, out_result out)"
    and last: "events (out_world out) = events w4 @ [EStatusUpdate k2 (Inr k'), EGauge (IsReady M k')]"
  have len: "length ?steps = length subs" using subs by (simp add: fetched_def)
  have ev: "events (out_world out) = events w3 @ added w3 w4 @ [EStatusUpdate k2 (Inr k'), EGauge (IsReady M k')]"
    using last ext by (simp add: extends_iff)
  have zip_fst: "map (st_prefix \<circ> fst) (zip ?steps subs) = map st_prefix ?steps"
    by (metis len map_fst_zip map_map)
  have types: "{t \<in> dom (conds k2). HasPrefix t (st_prefix s @ ''.'')} = prefixed_type (st_prefix s) ` set (GetConditions sub)"
    if "(s, sub) \<in> set (zip ?steps subs)" for s sub
  proof -
    have "t \<in> dom (conds k2) \<longleftrightarrow> t \<in> prefixed_type (st_prefix s) ` set (GetConditions sub)" if p: "HasPrefix t (st_prefix s @ ''.'')" for t
    proof -
      have "conds k2 t = conds (fold (copy_step M) (zip ?steps subs) k) t"
        using reserved_types [OF p] checkCertManager_ready(4) [OF laws check] conds_aggregated [OF laws] by (simp add: k1)
      moreover have "distinct (map (st_prefix \<circ> fst) (zip ?steps subs))" unfolding zip_fst by (rule status_prefixes(1))
      moreover have "\<forall>(s, sub) \<in> set (zip ?steps subs). CHR ''.'' \<notin> set (st_prefix s)"
        using status_prefixes(2) by (auto dest: set_zip_leftD)
      ultimately show ?thesis
        using fold_copy_types [OF laws _ _ \<open>(s, sub) \<in> set (zip ?steps subs)\<close> p] by (metis domIff)
    qed
    then show ?thesis using HasPrefix_prefixed_type by blast
  qed
  have gets: "EGet (konflux_gvk (st_kind s)) [] (st_name s) (Inr sub) \<in> set (events (out_world out))"
    if "(s, sub) \<in> set (zip ?steps subs)" for s sub
    using subs that by (force simp: fetched_def ev)
  have "\<forall>(s, sub) \<in> set (zip ?steps subs).
      EGet (konflux_gvk (st_kind s)) [] (st_name s) (Inr sub) \<in> set (events (out_world out)) \<and>
      {t \<in> ctype ` set (GetConditions k2). HasPrefix t (st_prefix s @ ''.'')} = prefixed_type (st_prefix s) ` set (GetConditions sub)"
    by (clarify, intro conjI gets types [unfolded dom_conds])
  moreover have "EGet (konflux_gvk ''Konflux'') ns name (Inr k) \<in> set (events (out_world out))"
    "EStatusUpdate k2 (Inr k') \<in> set (events (out_world out))"
    using get by (simp_all add: ev)
  ultimately show ?thesis
    by (rule_tac x = k in exI, rule_tac x = subs in exI, rule_tac x = k2 in exI) (intro conjI len [symmetric])
qed

text \<open>
  The status update answers with the conditions it was sent, as the API server does for an update of
  the status subresource.
\<close>

definition status_update_keeps_conditions :: "'s api \<Rightarrow> bool" where
  "status_update_keeps_conditions A \<longleftrightarrow>
     (\<forall>obj s obj' s'. api_status_update A obj s = (Inr obj', s') \<longrightarrow> GetConditions obj' = GetConditions obj)"

lemma k_status_update_keeps: "status_update_keeps_conditions A \<Longrightarrow> k_status_update A obj w = (Inr obj', w') \<Longrightarrow>
    IsReady M obj' = IsReady M obj"
proof -
  assume keeps: "status_update_keeps_conditions A" and "k_status_update A obj w = (Inr obj', w')"
  then obtain s' where "api_status_update A obj (cluster w) = (Inr obj', s')"
    by (auto simp: k_status_update_def split: prod.splits)
  with keeps have "GetConditions obj' = GetConditions obj" unfolding status_update_keeps_conditions_def by blast
  then show ?thesis by (simp add: IsReady_def)
qed

lemma Handle_not_ready:
  assumes "condition_laws M" and "status_update_keeps_conditions A" and "out_cr (Handle M A cr e reason operation w) = Some k"
  shows "\<not> IsReady M k"
proof -
  let ?k = "SetFailedCondition M cr TypeReady reason (Errorf operation e)"
  obtain r w' where up: "k_status_update A ?k w = (r, w')" by fastforce
  have "\<not> IsReady M ?k"
    by (simp add: IsReady_IsConditionTrue SetFailedCondition_def IsConditionTrue_SetCondition [OF assms(1)])
  moreover have "k = after_update ?k r" using assms(3) up by (simp add: Handle_def Let_def)
  ultimately show ?thesis
    using k_status_update_keeps [OF assms(2), of ?k w _ w' M] up by (cases r) (auto simp: after_update_def)
qed


section \<open>What the Konflux controller deletes\<close>

text \<open>
  The answer to a patch and the object with its controller reference set have the kind, namespace and
  name of the object given.
\<close>

definition same_identity :: "kobj \<Rightarrow> kobj \<Rightarrow> bool" where
  "same_identity a b \<longleftrightarrow> o_gvk a = o_gvk b \<and> o_namespace a = o_namespace b \<and> o_name a = o_name b"

definition identity_laws :: "machinery \<Rightarrow> 's api \<Rightarrow> bool" where
  "identity_laws M A \<longleftrightarrow>
     (\<forall>p opts obj s obj' s'. api_patch A p opts obj s = (Inr obj', s') \<longrightarrow> same_identity obj' obj) \<and>
     (\<forall>owner obj obj'. SetControllerReference M owner obj = Inr obj' \<longrightarrow> same_identity obj' obj)"

lemma ApplyOwned_identity:
  assumes laws: "identity_laws M A" and run: "ApplyOwned M A obj tc w = (Inr obj', tc', w')"
  shows "same_identity obj' obj"
proof -
  obtain cfg owned where own: "ownership tc = Some cfg" "SetOwnership M tc obj = Inr owned"
    using ApplyOwned_ok [OF run] by blast
  have 1: "same_identity owned obj"
  proof (cases "IsCustomResourceDefinition obj")
    case True
    then show ?thesis using SetOwnership_labels [OF own(2,1)] by (simp add: same_identity_def)
  next
    case False
    then obtain obj1 where "SetControllerReference M (Owner cfg) obj1 = Inr owned" "same_identity obj1 obj"
      using own by (auto simp: SetOwnership_def Let_def IsCustomResourceDefinition_def same_identity_def split: sum.splits if_splits)
    then show ?thesis using laws unfolding identity_laws_def same_identity_def by metis
  qed
  from run own obtain s s' where "api_patch A SSAPatch \<lparr> FieldOwner = FieldManager cfg, ForceOwnership = True \<rparr> owned s = (Inr obj', s')"
    by (auto simp: ApplyOwned_def ApplyObject_def k_patch_def split: prod.splits sum.splits)
  with laws have "same_identity obj' owned" unfolding identity_laws_def by blast
  with 1 show ?thesis by (simp add: same_identity_def)
qed

lemma apply_objects_all_tracked:
  assumes laws: "identity_laws M A"
  shows "apply_objects M A c keep_all objs tc w = (None, tc', w') \<Longrightarrow> obj \<in> set objs \<Longrightarrow> \<not> gvk_Empty (o_gvk obj) \<Longrightarrow>
    item_key (o_gvk obj) obj \<in> tracked tc'"
proof (induction objs arbitrary: tc w)
  case (Cons o1 objs)
  obtain r1 tc1 w1 where a: "ApplyOwned M A o1 tc w = (r1, tc1, w1)" by (metis prod_cases3)
  have keep: "keep_all o1 = Inr (Some o1)" by (simp add: keep_all_def)
  with a Cons.prems(1) obtain o3 where o3: "r1 = Inr o3" and rest: "apply_objects M A c keep_all objs tc1 w1 = (None, tc', w')"
    by (cases r1) auto
  show ?case
  proof (cases "obj = o1")
    case True
    have "same_identity o3 obj" using ApplyOwned_identity [OF laws a [unfolded o3]] True by simp
    moreover have "tc1 = track M o3 tc" using ApplyOwned_ok [OF a [unfolded o3]] by auto
    ultimately have "item_key (o_gvk obj) obj \<in> tracked tc1"
      using Cons.prems(3) by (simp add: item_key_def same_identity_def tracked_gvk_def)
    then show ?thesis using apply_objects_keeps [OF rest] by blast
  next
    case False
    then show ?thesis using Cons.IH [OF rest] Cons.prems by simp
  qed
qed simp

lemma konflux_enabled_tracked:
  assumes laws: "identity_laws M A"
    and run: "cmp_apply (konflux_component M A ci) k tc w = (Inr res, tc', w')"
    and obj: "(True, obj) \<in> set (sub_crs (konflux_spec_of k))" "\<not> gvk_Empty (o_gvk obj)"
  shows "item_key (o_gvk obj) obj \<in> tracked tc'"
proof -
  from run have "apply_sub_crs M A (sub_crs (konflux_spec_of k)) tc w = (Inr res, tc', w')"
    by (simp add: konflux_component_def)
  from apply_sub_crs_objects [OF this, of RBAC]
  have "apply_objects M A RBAC keep_all (enabled_objects (sub_crs (konflux_spec_of k))) tc w = (None, tc', w')" by auto
  moreover have "obj \<in> set (enabled_objects (sub_crs (konflux_spec_of k)))"
    using obj(1) by (force simp: enabled_objects_def)
  ultimately show ?thesis by (rule apply_objects_all_tracked [OF laws _ _ obj(2)])
qed

definition optional_components :: "konflux_spec \<Rightarrow> (string \<times> string \<times> bool) list" where
  "optional_components spec = [
     (''KonfluxImageController'', ''konflux-image-controller'', IsImageControllerEnabled spec),
     (''KonfluxInternalRegistry'', ''konflux-internal-registry'', IsInternalRegistryEnabled spec),
     (''KonfluxDefaultTenant'', ''konflux-default-tenant'', IsDefaultTenantEnabled spec),
     (''KonfluxSegmentBridge'', ''konflux-segment-bridge'', IsTelemetryEnabled spec)]"

lemma konflux_gvk_eq: "konflux_gvk a = konflux_gvk b \<longleftrightarrow> a = b"
  by (simp add: konflux_gvk_def mk_gvk_def)

lemma optional_components_cases:
  "x \<in> set (optional_components spec) \<longleftrightarrow>
     x = (''KonfluxImageController'', ''konflux-image-controller'', IsImageControllerEnabled spec) \<or>
     x = (''KonfluxInternalRegistry'', ''konflux-internal-registry'', IsInternalRegistryEnabled spec) \<or>
     x = (''KonfluxDefaultTenant'', ''konflux-default-tenant'', IsDefaultTenantEnabled spec) \<or>
     x = (''KonfluxSegmentBridge'', ''konflux-segment-bridge'', IsTelemetryEnabled spec)"
  by (simp only: optional_components_def list.set insert_iff empty_iff simp_thms)

lemmas optional_gvks = imageControllerGVK_def internalRegistryGVK_def defaultTenantGVK_def segmentBridgeGVK_def

lemma allow_list_lookup:
  "IsAllowed konfluxClusterScopedAllowList imageControllerGVK [] n \<longleftrightarrow> n = ''konflux-image-controller''"
  "IsAllowed konfluxClusterScopedAllowList internalRegistryGVK [] n \<longleftrightarrow> n = ''konflux-internal-registry''"
  "IsAllowed konfluxClusterScopedAllowList defaultTenantGVK [] n \<longleftrightarrow> n = ''konflux-default-tenant''"
  "IsAllowed konfluxClusterScopedAllowList segmentBridgeGVK [] n \<longleftrightarrow> n = ''konflux-segment-bridge''"
  by (simp_all add: IsAllowed_def konfluxClusterScopedAllowList_def optional_gvks konflux_gvk_eq)

lemma konflux_allowed:
  assumes "g \<in> set konfluxCleanupGVKs" and "IsAllowed konfluxClusterScopedAllowList g [] n"
  shows "\<exists>kind b. (kind, n, b) \<in> set (optional_components spec) \<and> g = konflux_gvk kind"
proof -
  from assms(1) consider "g = imageControllerGVK" | "g = internalRegistryGVK" | "g = defaultTenantGVK" | "g = segmentBridgeGVK"
    unfolding konfluxCleanupGVKs_def by fastforce
  then show ?thesis
  proof cases
    case 1
    with assms(2) show ?thesis unfolding optional_components_cases imageControllerGVK_def [symmetric]
      by (simp only: allow_list_lookup prod.inject) (metis imageControllerGVK_def)
  next
    case 2
    with assms(2) show ?thesis unfolding optional_components_cases
      by (simp only: allow_list_lookup prod.inject) (metis internalRegistryGVK_def)
  next
    case 3
    with assms(2) show ?thesis unfolding optional_components_cases
      by (simp only: allow_list_lookup prod.inject) (metis defaultTenantGVK_def)
  next
    case 4
    with assms(2) show ?thesis unfolding optional_components_cases
      by (simp only: allow_list_lookup prod.inject) (metis segmentBridgeGVK_def)
  qed
qed

lemma optional_in_sub_crs:
  "(IsImageControllerEnabled spec, konflux_imageController spec) \<in> set (sub_crs spec)"
  "(IsInternalRegistryEnabled spec, konflux_internalRegistry) \<in> set (sub_crs spec)"
  "(IsDefaultTenantEnabled spec, konflux_defaultTenant) \<in> set (sub_crs spec)"
  "(IsTelemetryEnabled spec, konflux_segmentBridge spec) \<in> set (sub_crs spec)"
  unfolding sub_crs_def by simp_all

definition is_sub_cr :: "kobj \<Rightarrow> string \<Rightarrow> string \<Rightarrow> bool" where
  "is_sub_cr obj kind n \<longleftrightarrow> o_gvk obj = konflux_gvk kind \<and> o_namespace obj = [] \<and> o_name obj = n"

lemma is_sub_cr_optional:
  "is_sub_cr (konflux_imageController spec) ''KonfluxImageController'' ''konflux-image-controller''"
  "is_sub_cr konflux_internalRegistry ''KonfluxInternalRegistry'' ''konflux-internal-registry''"
  "is_sub_cr konflux_defaultTenant ''KonfluxDefaultTenant'' ''konflux-default-tenant''"
  "is_sub_cr (konflux_segmentBridge spec) ''KonfluxSegmentBridge'' ''konflux-segment-bridge''"
  by (simp_all add: is_sub_cr_def konflux_imageController_def konflux_internalRegistry_def konflux_defaultTenant_def
      konflux_segmentBridge_def sub_cr_def new_object_def Let_def)

lemma konflux_optional_sub_cr:
  assumes "(kind, n, True) \<in> set (optional_components spec)"
  shows "\<exists>obj. (True, obj) \<in> set (sub_crs spec) \<and> is_sub_cr obj kind n"
proof -
  from assms consider
      "kind = ''KonfluxImageController''" "n = ''konflux-image-controller''" "IsImageControllerEnabled spec"
    | "kind = ''KonfluxInternalRegistry''" "n = ''konflux-internal-registry''" "IsInternalRegistryEnabled spec"
    | "kind = ''KonfluxDefaultTenant''" "n = ''konflux-default-tenant''" "IsDefaultTenantEnabled spec"
    | "kind = ''KonfluxSegmentBridge''" "n = ''konflux-segment-bridge''" "IsTelemetryEnabled spec"
    unfolding optional_components_cases prod.inject by argo
  then show ?thesis
    by cases (use optional_in_sub_crs [of spec] is_sub_cr_optional in \<open>metis (full_types)\<close>)+
qed

text \<open>
  (C2) Konflux deletes a component resource only when the component is optional and disabled. A deleted
  cluster-scoped object is controlled by the fetched Konflux resource, is one of the four optional
  component resources by name, and that component is disabled in the fetched spec; an enabled
  component, and everything that always exists, survives every reconcile.
\<close>

theorem konflux_deletes_only_disabled:
  assumes laws: "identity_laws M A" and run: "konflux_Reconcile M A schedule ci ns name w = out"
    and del: "EDelete item d \<in> set (added w (out_world out))" and scope: "o_namespace item = []"
  shows "\<exists>k kind. EGet (konflux_gvk ''Konflux'') ns name (Inr k) \<in> set (added w (out_world out)) \<and> IsControlledBy M item k \<and>
    (kind, o_name item, False) \<in> set (optional_components (konflux_spec_of k))"
proof (rule konflux_Reconcile_shape [OF run])
  fix out1 tail
  assume shape: "component_reconcile M A schedule (konflux_component M A ci) ns name w = out1"
    "added w (out_world out) = added w (out_world out1) @ tail" "gauge_of M (out_cr out) tail"
  have "EDelete item d \<in> set (added w (out_world out1))"
    using del shape(2,3) by (auto simp: gauge_of_def split: option.splits)
  then show ?thesis
  proof (rule konflux.deletes_after_phase [OF shape(1)])
    fix k w1 res tc w2 g items
    assume get: "EGet (cmp_gvk (konflux_component M A ci)) ns name (Inr k) \<in> set (added w (out_world out1))"
      and phase: "cmp_apply (konflux_component M A ci) k (component_client (konflux_component M A ci) k) w1 = (Inr res, tc, w2)"
      and g: "g \<in> set (cmp_cleanupGVKs (konflux_component M A ci))"
      and orphan: "is_orphan M tc (fold (\<lambda>opt. opt) (cmp_opts (konflux_component M A ci)) \<lparr> ClusterScopedAllowList = None \<rparr>) g item"
    have "ownership tc = ownership (component_client (konflux_component M A ci) k)" by (rule konflux.keeps_ownership [OF phase])
    with orphan have item: "item_key g item \<notin> tracked tc" "IsControlledBy M item k"
      "IsAllowed konfluxClusterScopedAllowList g [] (o_name item)"
      by (auto simp: is_orphan_def scope component_client_def NewClientWithOwnership_def konflux_component_def
          WithClusterScopedAllowList_def)
    from g have "g \<in> set konfluxCleanupGVKs" by (simp add: konflux_component_def)
    from konflux_allowed [OF this item(3)] obtain kind b where
      opt: "(kind, o_name item, b) \<in> set (optional_components (konflux_spec_of k))" "g = konflux_gvk kind" by blast
    have "\<not> b"
    proof
      assume b
      with opt(1) have "(kind, o_name item, True) \<in> set (optional_components (konflux_spec_of k))" by simp
      from konflux_optional_sub_cr [OF this] obtain obj where obj: "(True, obj) \<in> set (sub_crs (konflux_spec_of k))"
        "o_gvk obj = konflux_gvk kind" "o_namespace obj = []" "o_name obj = o_name item"
        unfolding is_sub_cr_def by blast
      have "\<not> gvk_Empty (o_gvk obj)" using obj(2) by (simp add: konflux_gvk_def mk_gvk_def gvk_Empty_def)
      from konflux_enabled_tracked [OF laws phase obj(1) this] item(1) obj opt(2) scope
      show False by (simp add: item_key_def)
    qed
    moreover have "EGet (konflux_gvk ''Konflux'') ns name (Inr k) \<in> set (added w (out_world out))"
      using get shape(2) by (simp add: konflux_component_def)
    ultimately show ?thesis using item(2) opt(1) by auto
  qed
qed

text \<open>
  (C10) When applying a component resource fails, the reconcile of Konflux returns an error and deletes
  nothing, so a transient failure cannot tear down components.
\<close>

theorem konflux_failed_apply_deletes_nothing:
  assumes run: "konflux_Reconcile M A schedule ci ns name w = out"
    and fail: "EPatch p opts obj (Inl e) \<in> set (added w (out_world out))"
  shows "out_err out \<noteq> None \<and> (\<forall>item d. EDelete item d \<notin> set (added w (out_world out)))"
proof (rule konflux_Reconcile_shape [OF run])
  fix out1 tail
  assume shape: "component_reconcile M A schedule (konflux_component M A ci) ns name w = out1"
    "out_err out = out_err out1" "added w (out_world out) = added w (out_world out1) @ tail" "gauge_of M (out_cr out) tail"
  have tail: "EPatch p opts obj x \<notin> set tail" "EDelete item d \<notin> set tail" for p opts obj x item d
    using shape(4) by (auto simp: gauge_of_def split: option.splits)
  with fail shape(3) have "EPatch p opts obj (Inl e) \<in> set (added w (out_world out1))" by auto
  from konflux.failed_patch_stops [OF shape(1) this] show ?thesis using shape(2,3) tail by auto
qed

section \<open>A concrete reconcile\<close>

text \<open>
  A cluster with a Konflux resource of default spec, an internal registry left from an earlier spec,
  and components that are all Ready.
\<close>

definition ex_ci :: cluster_info where
  "ex_ci = \<lparr> ci_discovery = \<lparr> ServerResourcesForGroupVersion = (\<lambda>gv. Inr [''Certificate'', ''Issuer'', ''ClusterIssuer'']),
     ServerVersion = Inr None \<rparr>, ci_platform = DefaultPlatform \<rparr>"

definition ex_konflux :: kobj where
  "ex_konflux = (new_object (konflux_gvk ''Konflux'') [] ''konflux'' (BKonflux KonfluxSpec []))\<lparr> o_uid := ''u1'' \<rparr>"

definition ex_registry :: kobj where
  "ex_registry = konflux_internalRegistry\<lparr> o_labels := [(KonfluxOwnerLabel, ''konflux'')], o_ownerRefs := [controller_ref ex_konflux] \<rparr>"

definition ex_component :: "gvk \<Rightarrow> string \<Rightarrow> kobj" where
  "ex_component g n = (new_object g [] n (BKonfluxCR RBACSpec))\<lparr> o_conditions := [mk_condition TypeReady CTrue [] []] \<rparr>"

definition ex_kapi :: "unit api" where
  "ex_kapi = \<lparr>
     api_get = (\<lambda>g ns n s. (Inr (if g = konflux_gvk ''Konflux'' then ex_konflux else ex_component g n), s)),
     api_list = (\<lambda>c lg sel s. (Inr (if lg = list_gvk internalRegistryGVK then [ex_registry] else []), s)),
     api_list_in = (\<lambda>ns lg sel s. (Inr [], s)),
     api_patch = (\<lambda>p opts obj s. (Inr obj, s)), api_create = (\<lambda>obj s. (Inr obj, s)), api_update = (\<lambda>obj s. (Inr obj, s)),
     api_delete = (\<lambda>c obj s. (None, s)), api_status_update = (\<lambda>obj s. (Inr obj, s)),
     api_create_or_update = (\<lambda>obj f s. (f obj, s)), api_create_token = (\<lambda>ns n seconds s. (Inr ([], None), s)),
     api_now = (\<lambda>s. (0, s)) \<rparr>"

definition ex_empty :: "unit world" where
  "ex_empty = \<lparr> cluster = (), events = [] \<rparr>"

definition ex_krun :: "unit outcome" where
  "ex_krun = konflux_Reconcile ref_machinery ex_kapi [] ex_ci [] ''konflux'' ex_empty"

lemma ex_ApplyOwned:
  assumes "ownership tc = Some cfg"
  shows "\<exists>obj' w'. ApplyOwned ref_machinery ex_kapi obj tc w = (Inr obj', track ref_machinery obj' tc, w') \<and> same_identity obj' obj"
  using assms
  by (simp add: ApplyOwned_def ApplyObject_def SetOwnership_def Let_def ref_machinery_def k_patch_def ex_kapi_def same_identity_def)

lemma ex_apply_sub_crs:
  "ownership tc = Some cfg \<Longrightarrow> list_all (\<lambda>(b, obj). \<not> gvk_Empty (o_gvk obj)) xs \<Longrightarrow>
   \<exists>tc' w'. apply_sub_crs ref_machinery ex_kapi xs tc w = (Inr no_requeue, tc', w') \<and> ownership tc' = Some cfg \<and>
     tracked tc' = tracked tc \<union> (\<lambda>obj. item_key (o_gvk obj) obj) ` set (enabled_objects xs)"
proof (induction xs arbitrary: tc w)
  case (Cons x xs)
  obtain b obj where x: "x = (b, obj)" by fastforce
  show ?case
  proof (cases b)
    case True
    obtain obj' w1 where a: "ApplyOwned ref_machinery ex_kapi obj tc w = (Inr obj', track ref_machinery obj' tc, w1)"
      and same: "same_identity obj' obj" using ex_ApplyOwned [OF Cons.prems(1)] by blast
    have "ownership (track ref_machinery obj' tc) = Some cfg" using Cons.prems(1) by simp
    from Cons.IH [OF this, of w1] Cons.prems(2) obtain tc' w' where
      "apply_sub_crs ref_machinery ex_kapi xs (track ref_machinery obj' tc) w1 = (Inr no_requeue, tc', w')" "ownership tc' = Some cfg"
      "tracked tc' = tracked (track ref_machinery obj' tc) \<union> (\<lambda>obj. item_key (o_gvk obj) obj) ` set (enabled_objects xs)"
      by auto
    then show ?thesis using a x True same Cons.prems(2)
      by (auto simp: enabled_objects_def item_key_def same_identity_def tracked_gvk_def)
  next
    case False
    with Cons x show ?thesis by (auto simp: enabled_objects_def)
  qed
qed (simp add: enabled_objects_def)

lemma ex_ready: "IsConditionTrue ref_machinery (ex_component g n) TypeReady"
  by (simp add: IsConditionTrue_def ref_machinery_def ex_component_def GetConditions_def new_object_def mk_condition_def)

lemma ex_collect:
  "list_all (\<lambda>s. st_kind s \<noteq> ''Konflux'') steps \<Longrightarrow> list_all scs_Ready ss \<Longrightarrow>
   \<exists>k' ss' w'. collect_statuses ref_machinery ex_kapi steps k ss w = (Inr (k', ss'), w') \<and> list_all scs_Ready ss'"
proof (induction steps arbitrary: k ss w)
  case (Cons s steps)
  have get: "k_get ex_kapi (konflux_gvk (st_kind s)) [] (st_name s) w =
      (Inr (ex_component (konflux_gvk (st_kind s)) (st_name s)), emit (EGet (konflux_gvk (st_kind s)) [] (st_name s)
        (Inr (ex_component (konflux_gvk (st_kind s)) (st_name s)))) () w)"
    using Cons.prems(1) by (simp add: k_get_def ex_kapi_def konflux_gvk_eq)
  obtain k1 st where copy: "CopySubCRStatus ref_machinery k (ex_component (konflux_gvk (st_kind s)) (st_name s)) (st_prefix s) = (k1, st)"
    by fastforce
  then have "scs_Ready st" using CopySubCRStatus_result(1) ex_ready by fastforce
  with Cons get copy show ?case by (auto simp: list_all_append)
qed auto

lemma o_gvk_sub_cr [simp]: "o_gvk (sub_cr kind n spec) = konflux_gvk kind" "o_namespace (sub_cr kind n spec) = []"
  "o_name (sub_cr kind n spec) = n"
  by (simp_all add: sub_cr_def new_object_def)

lemma konflux_gvk_nonempty [simp]: "\<not> gvk_Empty (konflux_gvk kind)"
  by (simp add: konflux_gvk_def mk_gvk_def gvk_Empty_def)

lemmas sub_cr_defs = konflux_applicationAPI_def konflux_buildService_def konflux_integrationService_def konflux_releaseService_def
  konflux_ui_def konflux_rbac_def konflux_info_def konflux_namespaceLister_def konflux_enterpriseContract_def
  konflux_imageController_def konflux_certManager_def konflux_internalRegistry_def konflux_defaultTenant_def
  konflux_segmentBridge_def konflux_cli_def

lemma sub_crs_nonempty: "list_all (\<lambda>(b, obj). \<not> gvk_Empty (o_gvk obj)) (sub_crs owner)"
  by (simp add: sub_crs_def sub_cr_defs Let_def)

lemma ex_spec: "konflux_spec_of ex_konflux = KonfluxSpec"
  by (simp add: konflux_spec_of_def ex_konflux_def new_object_def)

lemma ex_registry_untracked: "item_key internalRegistryGVK ex_registry \<notin>
    (\<lambda>obj. item_key (o_gvk obj) obj) ` set (enabled_objects (sub_crs KonfluxSpec))"
  by (simp add: enabled_objects_def sub_crs_def sub_cr_defs Let_def item_key_def internalRegistryGVK_def konflux_gvk_eq
      IsInternalRegistryEnabled_def IsImageControllerEnabled_def IsDefaultTenantEnabled_def IsTelemetryEnabled_def KonfluxSpec_def)

lemma list_gvk_eq: "list_gvk a = list_gvk b \<longleftrightarrow> a = b"
  by (cases a, cases b) (simp add: list_gvk_def)

lemma ex_cleanup_konflux:
  assumes "ownership tc = ownership (component_client (konflux_component ref_machinery ex_kapi ex_ci) ex_konflux)"
    and "item_key internalRegistryGVK ex_registry \<notin> tracked tc"
  shows "\<exists>w'. CleanupOrphans ref_machinery ex_kapi [] tc KonfluxOwnerLabel ''konflux'' konfluxCleanupGVKs
      [WithClusterScopedAllowList konfluxClusterScopedAllowList] w = (None, w') \<and>
    EDelete ex_registry None \<in> set (events w')"
proof -
  have list: "k_list ex_kapi c (list_gvk g) s w = (Inr (if g = internalRegistryGVK then [ex_registry] else []),
      emit (EList (list_gvk g) s (Inr (if g = internalRegistryGVK then [ex_registry] else []))) () w)" for c g s w
    by (simp add: k_list_def ex_kapi_def list_gvk_eq)
  have "IsControlledBy ref_machinery ex_registry ex_konflux" by (simp add: ref_machinery_def ex_registry_def)
  moreover have ns: "o_namespace ex_registry = []" "o_name ex_registry = ''konflux-internal-registry''"
    by (simp_all add: ex_registry_def konflux_internalRegistry_def)
  ultimately have orphan: "is_orphan ref_machinery tc \<lparr> ClusterScopedAllowList = konfluxClusterScopedAllowList \<rparr> internalRegistryGVK ex_registry"
    using assms by (simp add: is_orphan_def component_client_def NewClientWithOwnership_def allow_list_lookup)
  have del: "cleanup_item ref_machinery ex_kapi tc \<lparr> ClusterScopedAllowList = konfluxClusterScopedAllowList \<rparr> c internalRegistryGVK ex_registry w =
      (None, emit (EDelete ex_registry None) () w)" for c w
    using orphan by (simp add: cleanup_item_def k_delete_def ex_kapi_def)
  have ne: "imageControllerGVK \<noteq> internalRegistryGVK" "defaultTenantGVK \<noteq> internalRegistryGVK" "segmentBridgeGVK \<noteq> internalRegistryGVK"
    by (simp_all add: optional_gvks konflux_gvk_eq)
  show ?thesis
    by (simp add: CleanupOrphans_in_turn konfluxCleanupGVKs_def WithClusterScopedAllowList_def cleanupOrphansForGVK_def list ne del)
qed

lemma ex_krun_facts: "\<exists>k'. out_err ex_krun = None \<and> out_cr ex_krun = Some k' \<and> IsReady ref_machinery k' \<and>
    EDelete ex_registry None \<in> set (events (out_world ex_krun)) \<and> (\<exists>before. events (out_world ex_krun) = before @ [EGauge True])"
proof -
  let ?K = "konflux_component ref_machinery ex_kapi ex_ci"
  let ?w1 = "emit (EGet (konflux_gvk ''Konflux'') [] ''konflux'' (Inr ex_konflux)) () ex_empty"
  have get: "k_get ex_kapi (konflux_gvk ''Konflux'') [] ''konflux'' ex_empty = (Inr ex_konflux, ?w1)"
    by (simp add: k_get_def ex_kapi_def)
  have own: "\<exists>cfg. ownership (component_client ?K ex_konflux) = Some cfg" "tracked (component_client ?K ex_konflux) = {}"
    by (simp_all add: component_client_def NewClientWithOwnership_def)
  then obtain cfg tc w2 where ap: "cmp_apply ?K ex_konflux (component_client ?K ex_konflux) ?w1 = (Inr no_requeue, tc, w2)"
    and tc: "ownership tc = ownership (component_client ?K ex_konflux)" "item_key internalRegistryGVK ex_registry \<notin> tracked tc"
    using ex_apply_sub_crs [OF _ sub_crs_nonempty [of KonfluxSpec], of "component_client ?K ex_konflux" _ ?w1] ex_registry_untracked
    by (force simp: konflux_component_def ex_spec)
  obtain w3 where cl: "CleanupOrphans ref_machinery ex_kapi [] tc KonfluxOwnerLabel ''konflux'' konfluxCleanupGVKs
      [WithClusterScopedAllowList konfluxClusterScopedAllowList] w2 = (None, w3)" and del: "EDelete ex_registry None \<in> set (events w3)"
    using ex_cleanup_konflux [OF tc] by blast
  have kinds: "list_all (\<lambda>s. st_kind s \<noteq> ''Konflux'') (status_steps KonfluxSpec)" by (simp add: status_steps_def)
  obtain k0 ss w4 where coll: "collect_statuses ref_machinery ex_kapi (status_steps KonfluxSpec) ex_konflux [] w3 = (Inr (k0, ss), w4)"
    and ss: "list_all scs_Ready ss" using ex_collect [OF kinds, of "[]" ex_konflux w3] by auto
  obtain k2 res where check: "checkCertManagerAvailability ref_machinery ex_ci (SetAggregatedReadyCondition ref_machinery k0 ss) = (k2, res)"
    by fastforce
  have cm: "HasCertManager ex_ci = Inr True" by (simp add: HasCertManager_def HasAllResources_def ex_ci_def)
  have ready: "IsReady ref_machinery k2"
    using checkCertManager_ready(1) [OF ref_machinery_laws check] ss cm
    by (simp add: IsReady_aggregated [OF ref_machinery_laws] list_all_iff)
  have status: "cmp_status ?K no_requeue ex_konflux w3 = (Inr (k2, res), w4)"
    using coll check by (simp add: konflux_component_def konflux_status_def ex_spec)
  have up: "k_status_update ex_kapi k2 w4 = (Inr k2, emit (EStatusUpdate k2 (Inr k2)) () w4)"
    by (simp add: k_status_update_def ex_kapi_def)
  have name: "o_name ex_konflux = ''konflux''" by (simp add: ex_konflux_def new_object_def)
  have shape: "cmp_cleanupGVKs ?K = konfluxCleanupGVKs" "cmp_opts ?K = [WithClusterScopedAllowList konfluxClusterScopedAllowList]"
    by (simp_all add: konflux_component_def)
  have "reconcile_fetched ref_machinery ex_kapi [] ?K ex_konflux ?w1 =
      \<lparr> out_result = res, out_err = None, out_cr = Some k2, out_world = emit (EStatusUpdate k2 (Inr k2)) () w4 \<rparr>"
    by (simp add: reconcile_fetched_def ap finish_reconcile_def name shape cl status up)
  then have run: "ex_krun = \<lparr> out_result = res, out_err = None, out_cr = Some k2,
      out_world = SetKonfluxUp True (emit (EStatusUpdate k2 (Inr k2)) () w4) \<rparr>"
    by (simp add: ex_krun_def konflux_Reconcile_def get ready)
  have "extends w3 w4" using collect_statuses_reads [OF coll] by (rule emits_extends)
  with del have "EDelete ex_registry None \<in> set (events w4)" by (simp add: extends_iff)
  with ready show ?thesis by (simp add: run SetKonfluxUp_def)
qed

lemma ex_laws: "identity_laws ref_machinery ex_kapi" "status_update_keeps_conditions ex_kapi"
  by (auto simp: identity_laws_def status_update_keeps_conditions_def same_identity_def ref_machinery_def ex_kapi_def)

theorem konflux_success_ready_witness:
  "condition_laws ref_machinery \<and> (\<exists>before es k2 k'.
     events (out_world ex_krun) = before @ es @ [EStatusUpdate k2 (Inr k'), EGauge (IsReady ref_machinery k')])"
proof -
  obtain k' where ok: "out_err ex_krun = None" "out_cr ex_krun = Some k'" using ex_krun_facts by blast
  from konflux_success_ready [OF ref_machinery_laws ex_krun_def [symmetric] ok] show ?thesis using ref_machinery_laws by blast
qed

theorem konflux_success_mirrors_components_witness:
  "\<exists>k2 k'. out_cr ex_krun = Some k' \<and> EStatusUpdate k2 (Inr k') \<in> set (events (out_world ex_krun))"
proof -
  obtain k' where ok: "out_err ex_krun = None" "out_cr ex_krun = Some k'" using ex_krun_facts by blast
  from konflux_success_mirrors_components [OF ref_machinery_laws ex_krun_def [symmetric] ok]
  have "\<exists>k2. EStatusUpdate k2 (Inr k') \<in> set (events (out_world ex_krun))" by (elim exE conjE) (rule exI)
  with ok(2) show ?thesis by blast
qed


theorem konflux_deletes_only_disabled_witness:
  "EDelete ex_registry None \<in> set (added ex_empty (out_world ex_krun)) \<and>
   (\<exists>k kind. (kind, o_name ex_registry, False) \<in> set (optional_components (konflux_spec_of k)))"
proof -
  have del: "EDelete ex_registry None \<in> set (added ex_empty (out_world ex_krun))"
    using ex_krun_facts by (auto simp: added_def ex_empty_def)
  have "o_namespace ex_registry = []" by (simp add: ex_registry_def konflux_internalRegistry_def)
  from konflux_deletes_only_disabled [OF ex_laws(1) ex_krun_def [symmetric] del this] del show ?thesis by blast
qed

definition ex_readonly_kapi :: "unit api" where
  "ex_readonly_kapi = ex_kapi\<lparr> api_patch := (\<lambda>p opts obj s. (Inl (ApiError OtherError ''forbidden''), s)) \<rparr>"

definition ex_failed_krun :: "unit outcome" where
  "ex_failed_krun = konflux_Reconcile ref_machinery ex_readonly_kapi [] ex_ci [] ''konflux'' ex_empty"

lemma ex_failed_krun_patch:
  "\<exists>p opts obj e. EPatch p opts obj (Inl e) \<in> set (added ex_empty (out_world ex_failed_krun))"
proof -
  have "\<exists>obj e opts w'. ApplyOwned ref_machinery ex_readonly_kapi konflux_applicationAPI tc w = (Inl e, tc, w') \<and>
      events w' = events w @ [EPatch SSAPatch opts obj (Inl e)]" if "ownership tc = Some cfg" for tc cfg w
    using that by (simp add: ApplyOwned_def ApplyObject_def SetOwnership_def Let_def ref_machinery_def k_patch_def ex_readonly_kapi_def)
  moreover have "ownership (component_client (konflux_component ref_machinery ex_readonly_kapi ex_ci) ex_konflux) \<noteq> None"
    by (simp add: component_client_def NewClientWithOwnership_def)
  ultimately obtain obj e opts w' where
    a: "ApplyOwned ref_machinery ex_readonly_kapi konflux_applicationAPI
        (component_client (konflux_component ref_machinery ex_readonly_kapi ex_ci) ex_konflux)
        (emit (EGet (konflux_gvk ''Konflux'') [] ''konflux'' (Inr ex_konflux)) () ex_empty) =
      (Inl e, component_client (konflux_component ref_machinery ex_readonly_kapi ex_ci) ex_konflux, w')"
    and w': "EPatch SSAPatch opts obj (Inl e) \<in> set (events w')"
    by (metis in_set_conv_decomp not_None_eq)
  have get: "k_get ex_readonly_kapi (konflux_gvk ''Konflux'') [] ''konflux'' ex_empty =
      (Inr ex_konflux, emit (EGet (konflux_gvk ''Konflux'') [] ''konflux'' (Inr ex_konflux)) () ex_empty)"
    by (simp add: k_get_def ex_readonly_kapi_def ex_kapi_def)
  have ph: "cmp_apply (konflux_component ref_machinery ex_readonly_kapi ex_ci) ex_konflux tc w =
      apply_sub_crs ref_machinery ex_readonly_kapi (sub_crs KonfluxSpec) tc w" for tc w
    by (simp add: konflux_component_def ex_spec)
  obtain rest where subs: "sub_crs KonfluxSpec = (True, konflux_applicationAPI) # rest" by (simp add: sub_crs_def)
  have fetched: "reconcile_fetched ref_machinery ex_readonly_kapi [] (konflux_component ref_machinery ex_readonly_kapi ex_ci) ex_konflux
      (emit (EGet (konflux_gvk ''Konflux'') [] ''konflux'' (Inr ex_konflux)) () ex_empty) =
      Handle ref_machinery ex_readonly_kapi ex_konflux e ReasonApplyFailed (''apply '' @ GetKind konflux_applicationAPI) w'"
    by (simp add: reconcile_fetched_def ph subs a HandleWithReason_def)
  obtain cr1 r where h: "events (out_world (Handle ref_machinery ex_readonly_kapi ex_konflux e ReasonApplyFailed
      (''apply '' @ GetKind konflux_applicationAPI) w')) = events w' @ [EStatusUpdate cr1 r]"
    using Handle_events by blast
  have "set (events w') \<subseteq> set (events (out_world ex_failed_krun))"
    unfolding ex_failed_krun_def konflux_Reconcile_def get
    using h by (auto simp: fetched SetKonfluxUp_def Let_def split: option.splits)
  with w' have "EPatch SSAPatch opts obj (Inl e) \<in> set (added ex_empty (out_world ex_failed_krun))"
    by (auto simp: added_def ex_empty_def)
  then show ?thesis by blast
qed

theorem konflux_failed_apply_deletes_nothing_witness:
  "out_err ex_failed_krun \<noteq> None \<and> EDelete ex_registry None \<notin> set (added ex_empty (out_world ex_failed_krun))"
proof -
  obtain p opts obj e where "EPatch p opts obj (Inl e) \<in> set (added ex_empty (out_world ex_failed_krun))"
    using ex_failed_krun_patch by blast
  from konflux_failed_apply_deletes_nothing [OF ex_failed_krun_def [symmetric] this] show ?thesis by blast
qed

end
