(* ===== verification/Go_Paths.thy ===== *)
theory Go_Paths
  imports Kube_Types
begin

text \<open>
  The parts of Go's \<open>strings\<close> and \<open>path/filepath\<close> (Unix) that the override tool uses. Strings are
  ASCII here: \<open>strings.ToLower\<close> and \<open>strings.TrimSpace\<close> act on the ASCII letters and white space.
\<close>

section \<open>Strings\<close>

definition is_space :: "char \<Rightarrow> bool" where
  "is_space c \<longleftrightarrow> (let n = of_char c :: nat in 9 \<le> n \<and> n \<le> 13 \<or> n = 32)"

definition TrimSpace :: "string \<Rightarrow> string" where
  "TrimSpace s = rev (dropWhile is_space (rev (dropWhile is_space s)))"

definition is_upper :: "char \<Rightarrow> bool" where
  "is_upper c \<longleftrightarrow> 65 \<le> (of_char c :: nat) \<and> (of_char c :: nat) \<le> 90"

definition ToLower :: "string \<Rightarrow> string" where
  "ToLower s = map (\<lambda>c. if is_upper c then char_of ((of_char c :: nat) + 32) else c) s"

fun Split :: "string \<Rightarrow> char \<Rightarrow> string list" where
  "Split [] c = [[]]"
| "Split (x # xs) c = (if x = c then [] # Split xs c
     else (case Split xs c of [] \<Rightarrow> [[x]] | y # ys \<Rightarrow> (x # y) # ys))"

definition Contains :: "string \<Rightarrow> string \<Rightarrow> bool" where
  "Contains s t \<longleftrightarrow> list_ex (\<lambda>i. HasPrefix (drop i s) t) [0..<Suc (length s)]"

text \<open>\<open>strings.LastIndex\<close> of a one-byte string: -1 when it does not occur.\<close>

fun LastIndex :: "string \<Rightarrow> char \<Rightarrow> int" where
  "LastIndex [] c = - 1"
| "LastIndex (x # xs) c = (let i = LastIndex xs c in if i \<ge> 0 then i + 1 else if x = c then 0 else - 1)"

section \<open>Paths\<close>

definition IsAbs :: "string \<Rightarrow> bool" where
  "IsAbs p \<longleftrightarrow> HasPrefix p ''/''"

text \<open>
  \<open>filepath.Clean\<close> on the elements between the separators: empty elements and \<open>.\<close> disappear, \<open>..\<close>
  removes the element before it, or the \<open>..\<close> itself at the root. The accumulator is reversed.
\<close>

fun clean_elems :: "bool \<Rightarrow> string list \<Rightarrow> string list \<Rightarrow> string list" where
  "clean_elems rooted acc [] = rev acc"
| "clean_elems rooted acc (e # es) =
     (if e = [] \<or> e = ''.'' then clean_elems rooted acc es
      else if e = ''..'' then
        (case acc of
           [] \<Rightarrow> clean_elems rooted (if rooted then [] else [''..'']) es
         | a # as \<Rightarrow> clean_elems rooted (if a = ''..'' then ''..'' # acc else as) es)
      else clean_elems rooted (e # acc) es)"

definition path_elems :: "string \<Rightarrow> string list" where
  "path_elems p = clean_elems (IsAbs p) [] (Split p (CHR ''/''))"

definition Clean :: "string \<Rightarrow> string" where
  "Clean p = (if p = [] then ''.''
     else if IsAbs p then ''/'' @ Join (path_elems p) ''/''
     else if path_elems p = [] then ''.'' else Join (path_elems p) ''/'')"

definition PathJoin :: "string \<Rightarrow> string \<Rightarrow> string" where
  "PathJoin a b = (if a \<noteq> [] then Clean (a @ ''/'' @ b) else if b \<noteq> [] then Clean b else [])"

text \<open>\<open>filepath.Dir\<close>: everything before the last separator, cleaned.\<close>

definition Dir :: "string \<Rightarrow> string" where
  "Dir p = Clean (take (nat (LastIndex p (CHR ''/'') + 1)) p)"

fun strip_common :: "string list \<Rightarrow> string list \<Rightarrow> string list \<times> string list" where
  "strip_common (x # xs) (y # ys) = (if x = y then strip_common xs ys else (x # xs, y # ys))"
| "strip_common xs ys = (xs, ys)"

text \<open>
  \<open>filepath.Rel\<close> on cleaned paths: up from the remaining elements of the base, then down the remaining
  elements of the target.
\<close>

definition Rel :: "string \<Rightarrow> string \<Rightarrow> string result" where
  "Rel basepath targpath =
     (if Clean basepath = Clean targpath then Inr ''.''
      else if IsAbs (Clean basepath) \<noteq> IsAbs (Clean targpath)
      then Inl (NewError (''Rel: can't make '' @ targpath @ '' relative to '' @ basepath))
      else (case strip_common (path_elems basepath) (path_elems targpath) of (bs, ts) \<Rightarrow>
        if bs \<noteq> [] \<and> hd bs = ''..''
        then Inl (NewError (''Rel: can't make '' @ targpath @ '' relative to '' @ basepath))
        else Inr (Join (map (\<lambda>b. ''..'') bs @ ts) ''/'')))"

section \<open>Facts about strings\<close>

lemma Split_nonempty [simp]: "Split s c \<noteq> []"
  by (induction s) (auto split: list.splits)

lemma Split_no_sep: "c \<notin> set s \<Longrightarrow> Split s c = [s]"
  by (induction s) (auto split: list.splits)

lemma Split_append: "Split (s @ c # t) c = Split s c @ Split t c"
  by (induction s) (auto split: list.splits)

lemma Split_elems: "e \<in> set (Split s c) \<Longrightarrow> c \<notin> set e"
  by (induction s arbitrary: e) (auto split: list.splits if_splits)

lemma Join_Split: "Join (Split s c) [c] = s"
proof (induction s)
  case (Cons x xs)
  obtain y ys where s: "Split xs c = y # ys" by (cases "Split xs c") auto
  with Cons show ?case by (cases ys) auto
qed simp

lemma LastIndex_ge: "LastIndex s c \<ge> - 1"
  by (induction s) (auto simp: Let_def)

lemma LastIndex_less: "LastIndex s c < int (length s)"
  by (induction s) (auto simp: Let_def)

lemma LastIndex_none: "LastIndex s c = - 1 \<longleftrightarrow> c \<notin> set s"
proof (induction s)
  case (Cons x s)
  with LastIndex_ge [of s c] show ?case by (auto simp: Let_def)
qed simp

lemma LastIndex_append: "LastIndex (s @ t) c = (if c \<in> set t then int (length s) + LastIndex t c else LastIndex s c)"
proof (induction s)
  case Nil
  then show ?case using LastIndex_none [of t c] by auto
next
  case (Cons x s)
  have "c \<in> set t \<Longrightarrow> LastIndex t c \<ge> 0" using LastIndex_ge [of t c] LastIndex_none [of t c] by linarith
  with Cons show ?case by (auto simp: Let_def)
qed

lemma TrimSpace_id:
  assumes "s \<noteq> []" and "\<not> is_space (hd s)" and "\<not> is_space (last s)"
  shows "TrimSpace s = s"
proof -
  have "dropWhile is_space s = s" using assms(1,2) by (cases s) auto
  moreover have "dropWhile is_space (rev s) = rev s"
    using assms(1,3) by (cases "rev s") (auto simp: hd_rev [symmetric] last_rev)
  ultimately show ?thesis by (simp add: TrimSpace_def)
qed

lemma ToLower_append [simp]: "ToLower (s @ t) = ToLower s @ ToLower t"
  by (simp add: ToLower_def)

lemma not_upper_lowered: "is_upper c \<Longrightarrow> \<not> is_upper (char_of ((of_char c :: nat) + 32))"
  by (auto simp: is_upper_def)

lemma ToLower_idem [simp]: "ToLower (ToLower s) = ToLower s"
  using not_upper_lowered by (auto simp: ToLower_def)

lemma ToLower_sep: "\<not> is_upper c \<Longrightarrow> (of_char c :: nat) < 97 \<Longrightarrow> c \<in> set (ToLower s) \<longleftrightarrow> c \<in> set s"
  by (auto simp: ToLower_def is_upper_def image_iff)

lemma ToLower_Nil [simp]: "ToLower s = [] \<longleftrightarrow> s = []"
  by (simp add: ToLower_def)

section \<open>Facts about paths\<close>

text \<open>A directory entry's name: not empty, no separator, neither \<open>.\<close> nor \<open>..\<close>.\<close>

definition proper_elem :: "string \<Rightarrow> bool" where
  "proper_elem e \<longleftrightarrow> e \<noteq> [] \<and> e \<noteq> ''.'' \<and> e \<noteq> ''..'' \<and> CHR ''/'' \<notin> set e"

text \<open>
  \<open>path_under root p\<close>: the absolute path \<open>p\<close> denotes \<open>root\<close> or something below it, after all \<open>.\<close> and
  \<open>..\<close> elements have been resolved.
\<close>

definition path_under :: "string \<Rightarrow> string \<Rightarrow> bool" where
  "path_under root p \<longleftrightarrow> IsAbs p \<and> take (length (path_elems root)) (path_elems p) = path_elems root"

lemma path_under_iff: "path_under root p \<longleftrightarrow> IsAbs p \<and> (\<exists>ts. path_elems p = path_elems root @ ts)"
  unfolding path_under_def by (metis append_eq_conv_conj append_take_drop_id)

lemma path_under_refl: "IsAbs p \<Longrightarrow> path_under p p"
  by (simp add: path_under_def)

lemma path_under_trans: "path_under a b \<Longrightarrow> path_under b c \<Longrightarrow> path_under a c"
  unfolding path_under_iff by (metis append.assoc)

lemma Split_Join:
  assumes "ts \<noteq> []" and "\<forall>t \<in> set ts. c \<notin> set t"
  shows "Split (Join ts [c]) c = ts"
  using assms
proof (induction ts rule: induct_list012)
  case (3 x y ys)
  then have "Split (x @ c # Join (y # ys) [c]) c = Split x c @ Split (Join (y # ys) [c]) c"
    by (simp only: Split_append)
  with 3 show ?case by (simp add: Split_no_sep)
qed (simp_all add: Split_no_sep)

lemma clean_elems_append:
  "clean_elems r acc (es @ fs) = clean_elems r (rev (clean_elems r acc es)) fs"
  by (induction es arbitrary: acc) (auto split: list.splits)

lemma clean_elems_proper: "\<forall>e \<in> set es. proper_elem e \<Longrightarrow> clean_elems r acc es = rev acc @ es"
  by (induction es arbitrary: acc) (auto simp: proper_elem_def)

text \<open>What holds of every element kept so far and of every new name holds of the result.\<close>

lemma clean_elems_all:
  assumes "\<forall>e \<in> set acc. P e" and "\<forall>e \<in> set es. e \<noteq> [] \<longrightarrow> e \<noteq> ''.'' \<longrightarrow> e \<noteq> ''..'' \<longrightarrow> P e"
    and "r \<or> P ''..''"
  shows "\<forall>e \<in> set (clean_elems r acc es). P e"
  using assms(1,2)
proof (induction es arbitrary: acc)
  case (Cons e es)
  obtain acc' where step: "clean_elems r acc (e # es) = clean_elems r acc' es"
    and acc': "\<forall>e \<in> set acc'. P e"
  proof -
    consider "e = [] \<or> e = ''.''" | "e = ''..''" | "e \<noteq> []" "e \<noteq> ''.''" "e \<noteq> ''..''" by blast
    then show thesis
    proof cases
      case 1
      then show thesis using Cons.prems(1) that [of acc] by simp
    next
      case 2
      show thesis
      proof (cases acc)
        case Nil
        with 2 assms(3) show thesis using that [of "if r then [] else [''..'']"] by (cases r) simp_all
      next
        case (Cons a as)
        with 2 Cons.prems(1) show thesis using that [of "if a = ''..'' then ''..'' # acc else as"]
          by (cases "a = ''..''") simp_all
      qed
    next
      case 3
      then show thesis using Cons.prems that [of "e # acc"] by simp
    qed
  qed
  show ?case unfolding step using Cons.prems(2) by (intro Cons.IH [OF acc']) simp
qed simp

lemma clean_elems_rooted:
  assumes "\<forall>e \<in> set acc. proper_elem e" and "\<forall>e \<in> set es. CHR ''/'' \<notin> set e"
  shows "\<forall>e \<in> set (clean_elems True acc es). proper_elem e"
  using assms by (intro clean_elems_all) (auto simp: proper_elem_def)

lemma clean_elems_names:
  assumes "\<forall>e \<in> set acc. e \<noteq> [] \<and> CHR ''/'' \<notin> set e" and "\<forall>e \<in> set es. CHR ''/'' \<notin> set e"
  shows "\<forall>e \<in> set (clean_elems r acc es). e \<noteq> [] \<and> CHR ''/'' \<notin> set e"
  using assms by (intro clean_elems_all) auto

lemma path_elems_proper: "IsAbs p \<Longrightarrow> e \<in> set (path_elems p) \<Longrightarrow> proper_elem e"
  using clean_elems_rooted [of "[]" "Split p (CHR ''/'')"] Split_elems
  by (auto simp: path_elems_def)

lemma IsAbs_append [simp]: "p \<noteq> [] \<Longrightarrow> IsAbs (p @ q) \<longleftrightarrow> IsAbs p"
  by (cases p) (auto simp: IsAbs_def HasPrefix_def)

lemma IsAbs_Cons [simp]: "IsAbs (CHR ''/'' # p)" "\<not> IsAbs []"
  by (auto simp: IsAbs_def HasPrefix_def)

lemma path_elems_join:
  "p \<noteq> [] \<Longrightarrow> path_elems (p @ CHR ''/'' # q) =
     clean_elems (IsAbs p) (rev (path_elems p)) (Split q (CHR ''/''))"
  by (simp add: path_elems_def Split_append clean_elems_append)

lemma path_elems_root: "path_elems (CHR ''/'' # q) = clean_elems True [] (Split q (CHR ''/''))"
  by (simp add: path_elems_def)

lemma path_elems_abs:
  assumes "\<forall>t \<in> set ts. proper_elem t"
  shows "path_elems (CHR ''/'' # Join ts ''/'') = ts"
proof (cases "ts = []")
  case False
  have "Split (Join ts ''/'') (CHR ''/'') = ts"
    using assms by (intro Split_Join [OF False]) (auto simp: proper_elem_def)
  then show ?thesis using assms by (simp add: path_elems_root clean_elems_proper)
qed (simp add: path_elems_root)

lemma Clean_abs: "IsAbs p \<Longrightarrow> Clean p = CHR ''/'' # Join (path_elems p) ''/''"
  by (auto simp: Clean_def)

lemma Clean_abs_elems [simp]: "IsAbs p \<Longrightarrow> IsAbs (Clean p)" "IsAbs p \<Longrightarrow> path_elems (Clean p) = path_elems p"
  by (simp_all add: Clean_abs path_elems_abs path_elems_proper)

lemma Clean_Clean_abs: "IsAbs p \<Longrightarrow> Clean (Clean p) = Clean p"
  by (simp add: Clean_abs path_elems_abs path_elems_proper)

lemma Join_IsAbs:
  assumes "\<forall>e \<in> set es. e \<noteq> [] \<and> CHR ''/'' \<notin> set e"
  shows "\<not> IsAbs (Join es ''/'')"
proof (cases "(es, ''/'')" rule: Join.cases)
  case (2 x sep)
  with assms show ?thesis by (cases x) (auto simp: IsAbs_def HasPrefix_def)
next
  case (3 x y ys sep)
  with assms show ?thesis by (cases x) (auto simp: IsAbs_def HasPrefix_def)
qed simp_all

lemma Clean_IsAbs [simp]: "IsAbs (Clean p) \<longleftrightarrow> IsAbs p"
proof (cases "IsAbs p")
  case False
  have "\<forall>e \<in> set (path_elems p). e \<noteq> [] \<and> CHR ''/'' \<notin> set e"
    unfolding path_elems_def by (rule clean_elems_names) (auto dest: Split_elems)
  from Join_IsAbs [OF this] False show ?thesis by (simp add: Clean_def IsAbs_def HasPrefix_def)
qed simp

lemma PathJoin_abs: "IsAbs a \<Longrightarrow> IsAbs (PathJoin a b)"
  by (cases "a = []") (auto simp: PathJoin_def)

lemma PathJoin_elems:
  assumes "IsAbs a"
  shows "path_elems (PathJoin a b) = clean_elems True (rev (path_elems a)) (Split b (CHR ''/''))"
proof -
  have ne: "a \<noteq> []" using assms by auto
  then have "IsAbs (a @ CHR ''/'' # b)" using assms by simp
  with ne assms show ?thesis by (simp add: PathJoin_def path_elems_join)
qed

lemma PathJoin_proper: "IsAbs a \<Longrightarrow> proper_elem e \<Longrightarrow> path_elems (PathJoin a e) = path_elems a @ [e]"
  by (simp add: PathJoin_elems Split_no_sep clean_elems_proper proper_elem_def)

lemma PathJoin_under: "IsAbs a \<Longrightarrow> proper_elem e \<Longrightarrow> path_under a (PathJoin a e)"
  by (simp add: path_under_def PathJoin_abs PathJoin_proper)

lemma strip_common_eq: "strip_common xs ys = (us, vs) \<Longrightarrow> \<exists>ps. xs = ps @ us \<and> ys = ps @ vs"
proof (induction xs ys rule: strip_common.induct)
  case (1 x xs y ys)
  then show ?case by (fastforce split: if_splits intro: exI [of _ "x # _"])
qed auto

lemma strip_common_append [simp]: "strip_common xs (xs @ ts) = ([], ts)"
  by (induction xs) (auto simp: strip_common.simps)

lemma Rel_down:
  assumes "IsAbs b" and "path_elems p = path_elems b @ ts" and "IsAbs p"
  shows "Rel b p = Inr (if ts = [] then ''.'' else Join ts ''/'')"
proof -
  have "Join ts ''/'' \<noteq> []" if "ts \<noteq> []"
  proof -
    have "hd ts \<noteq> []" using that path_elems_proper [OF assms(3), of "hd ts"] assms(2)
      by (cases ts) (auto simp: proper_elem_def)
    with that show ?thesis by (cases "(ts, ''/'')" rule: Join.cases) auto
  qed
  moreover have "Clean b = Clean p \<longleftrightarrow> ts = []"
  proof
    assume "Clean b = Clean p"
    then have "path_elems (Clean b) = path_elems (Clean p)" by simp
    with assms show "ts = []" by simp
  qed (use assms in \<open>simp add: Clean_abs\<close>)
  ultimately show ?thesis using assms by (simp add: Rel_def)
qed

lemma Join_dotdot: "Join (''..'' # ts) ''/'' = ''..'' @ (if ts = [] then [] else CHR ''/'' # Join ts ''/'')"
  by (cases ts) auto

text \<open>A relative path that does not start with \<open>..\<close> leads below its base.\<close>

lemma Rel_confined:
  assumes "IsAbs b" and "Rel b p = Inr rel" and "\<not> HasPrefix rel ''..''"
  shows "path_under b p"
proof (cases "Clean b = Clean p")
  case True
  then have "IsAbs p" using assms(1) Clean_IsAbs by metis
  moreover have "path_elems b = path_elems p"
    using True Clean_abs_elems(2) [of b] Clean_abs_elems(2) [of p] assms(1) \<open>IsAbs p\<close> by metis
  ultimately show ?thesis by (simp add: path_under_def)
next
  case False
  obtain us vs where s: "strip_common (path_elems b) (path_elems p) = (us, vs)" by fastforce
  from assms(2) False s have abs: "IsAbs (Clean p)" and rel: "rel = Join (map (\<lambda>b. ''..'') us @ vs) ''/''"
    using assms(1) by (auto simp: Rel_def split: if_splits)
  have "us = []"
  proof (cases us)
    case (Cons u us')
    then have "HasPrefix rel ''..''" by (simp add: rel Join_dotdot HasPrefix_def)
    with assms(3) show ?thesis by simp
  qed simp
  moreover obtain ps where "path_elems b = ps @ us" "path_elems p = ps @ vs"
    using strip_common_eq [OF s] by auto
  moreover have "IsAbs p" using abs by simp
  ultimately show ?thesis by (simp add: path_under_def)
qed

section \<open>Indices, quoting and JSON text\<close>

text \<open>\<open>strings.Index\<close> of a one-byte string.\<close>

fun Index :: "string \<Rightarrow> char \<Rightarrow> int" where
  "Index [] c = - 1"
| "Index (x # xs) c = (if x = c then 0 else let i = Index xs c in if i \<ge> 0 then i + 1 else - 1)"

lemma Index_found: "c \<in> set s \<Longrightarrow> Index s c = int (length (takeWhile (\<lambda>x. x \<noteq> c) s))"
  by (induction s) (auto simp: Let_def)

lemma Index_none: "c \<notin> set s \<Longrightarrow> Index s c = - 1"
  by (induction s) (auto simp: Let_def)

lemma Index_append: "c \<notin> set s \<Longrightarrow> Index (s @ c # t) c = int (length s)"
  by (subst Index_found) (simp_all add: takeWhile_append)

definition hex_digit :: "nat \<Rightarrow> char" where
  "hex_digit n = ''0123456789abcdef'' ! n"

abbreviation dquote :: char where "dquote \<equiv> CHR 0x22"
abbreviation backslash :: char where "backslash \<equiv> CHR 0x5C"

text \<open>\<open>strconv.Quote\<close>, the verb \<open>%q\<close>, on ASCII strings.\<close>

definition quote_char :: "char \<Rightarrow> string" where
  "quote_char c = (let n = of_char c :: nat in
     if c = dquote \<or> c = backslash then [backslash, c]
     else if 32 \<le> n \<and> n < 127 then [c]
     else (case map_of [(7, CHR ''a''), (8, CHR ''b''), (9, CHR ''t''), (10, CHR ''n''), (11, CHR ''v''),
                        (12, CHR ''f''), (13, CHR ''r'')] n of
             Some e \<Rightarrow> [backslash, e]
           | None \<Rightarrow> [backslash, CHR ''x'', hex_digit (n div 16), hex_digit (n mod 16)]))"

definition strconv_Quote :: "string \<Rightarrow> string" where
  "strconv_Quote s = dquote # concat (map quote_char s) @ [dquote]"

text \<open>
  A string as \<open>encoding/json\<close> writes it: short escapes for quote, backslash and the usual control
  characters, \<open>\\u00XX\<close> for the others and for the HTML characters \<open><\<close>, \<open>>\<close>, \<open>&\<close>.
\<close>

definition json_char :: "char \<Rightarrow> string" where
  "json_char c = (let n = of_char c :: nat in
     if c = dquote \<or> c = backslash then [backslash, c]
     else if 32 \<le> n \<and> c \<notin> {CHR ''<'', CHR ''>'', CHR ''&''} then [c]
     else (case map_of [(8, CHR ''b''), (9, CHR ''t''), (10, CHR ''n''), (12, CHR ''f''), (13, CHR ''r'')] n of
             Some e \<Rightarrow> [backslash, e]
           | None \<Rightarrow> backslash # ''u00'' @ [hex_digit (n div 16), hex_digit (n mod 16)]))"

definition json_string :: "string \<Rightarrow> string" where
  "json_string s = dquote # concat (map json_char s) @ [dquote]"

text \<open>
  \<open>json.MarshalIndent(v, "", "  ")\<close> of the values the repository marshals: one element per line,
  indented by two spaces per level; empty arrays and objects on one line.
\<close>

fun MarshalIndent :: "nat \<Rightarrow> json \<Rightarrow> string" where
  "MarshalIndent d JNull = ''null''"
| "MarshalIndent d (JBool b) = (if b then ''true'' else ''false'')"
| "MarshalIndent d (JInt i) = show_int i"
| "MarshalIndent d (JString s) = json_string s"
| "MarshalIndent d (JArray xs) = (if xs = [] then ''[]''
     else ''['' @ Join (map (\<lambda>x. CHR 0x0A # replicate (2 * Suc d) (CHR '' '') @ MarshalIndent (Suc d) x) xs) '',''
       @ CHR 0x0A # replicate (2 * d) (CHR '' '') @ '']'')"
| "MarshalIndent d (JObject kvs) = (if kvs = [] then ''{}''
     else ''{'' @ Join (map (\<lambda>kv. CHR 0x0A # replicate (2 * Suc d) (CHR '' '') @ json_string (fst kv) @ '': ''
         @ MarshalIndent (Suc d) (snd kv)) kvs) '',''
       @ CHR 0x0A # replicate (2 * d) (CHR '' '') @ ''}'')"

end
