(* ===== verification/Overrides.thy ===== *)
theory Overrides
  imports Go_Paths
begin

text \<open>
  The override tool, \<open>pkg/overrides/overrides.go\<close> and its command \<open>cmd/overrides/main.go\<close>: it
  validates a list of per-component overrides, rewrites GitHub URLs and image references in a copy of
  the upstream kustomizations, rebuilds manifests and replaces image strings in them.

  The file system, the \<open>kustomize\<close>/\<open>kubectl\<close> commands and the YAML packages are parameters: \<open>'o os\<close>
  answers reads from its state and may refuse or garble every call; \<open>yaml_lib\<close> parses and prints. Each
  call that changes the file system appends an \<open>os_event\<close> to the run's trace. \<open>filepath.WalkDir\<close> is
  taken as the list of its visits, fixed when the walk starts.
\<close>

section \<open>Data\<close>

record RemoteGit =
  Repo :: string
  Ref :: string

record GitRule =
  SourceRepo :: string
  Remote :: "RemoteGit option"
  LocalPath :: string

record ImageOverride =
  Orig :: string
  Replacement :: string

record ComponentOverride =
  Name :: string
  Git :: "GitRule list"
  Images :: "ImageOverride list"

record ApplyStats =
  GitKustomizationsUpdated :: int
  KustomizationImagesPatched :: int
  ManifestYAMLsImageTextReplaced :: int
  ComponentsRebuilt :: int

definition no_stats :: ApplyStats where
  "no_stats = \<lparr> GitKustomizationsUpdated = 0, KustomizationImagesPatched = 0,
     ManifestYAMLsImageTextReplaced = 0, ComponentsRebuilt = 0 \<rparr>"

record Runner =
  UpstreamDir :: string
  ManifestsDir :: string
  TmpDir :: string
  Overrides_of :: "ComponentOverride list"

section \<open>Image references and repository names\<close>

definition isOCIImageDigest :: "string \<Rightarrow> bool" where
  "isOCIImageDigest s \<longleftrightarrow> list_ex (\<lambda>prefix. HasPrefix s prefix) [''sha256:'', ''sha512:'', ''sha384:'']"

definition parseImageReference :: "string \<Rightarrow> string \<times> string \<times> string" where
  "parseImageReference s0 = (let s = TrimSpace s0; at = Index s (CHR ''@'') in
     if at \<ge> 0 then
       (let name = take (nat at) s; rest = drop (nat at + 1) s in
        if isOCIImageDigest rest then (name, [], rest) else (name, rest, []))
     else (let i = LastIndex s (CHR '':'') in
        if i > LastIndex s (CHR ''/'') then (take (nat i) s, drop (nat i + 1) s, [])
        else (s, ''latest'', [])))"

definition splitImageReference :: "string \<Rightarrow> string \<times> string" where
  "splitImageReference outputImage = (case parseImageReference outputImage of (n, t, d) \<Rightarrow>
     if d \<noteq> [] then (n, []) else (n, t))"

definition imageRefMatchesOrgRepo :: "string \<Rightarrow> string \<Rightarrow> bool" where
  "imageRefMatchesOrgRepo imageRef orgRepo0 = (let orgRepo = ToLower (TrimSpace orgRepo0) in
     if orgRepo = [] \<or> \<not> Contains orgRepo ''/'' then False
     else HasSuffix (ToLower (fst (parseImageReference (TrimSpace imageRef)))) (''/'' @ orgRepo))"

definition imageNameFromMap :: "(string \<times> json) list \<Rightarrow> string" where
  "imageNameFromMap im = (case map_of im ''name'' of
     Some (JString v) \<Rightarrow> v
   | _ \<Rightarrow> (case map_of im ''newName'' of Some (JString v) \<Rightarrow> v | _ \<Rightarrow> []))"

definition normalizeOrgRepo :: "string \<Rightarrow> string \<Rightarrow> string result" where
  "normalizeOrgRepo input field =
     (let r0 = TrimSpace (TrimSuffix (TrimSuffix input ''.git'') ''/'');
          r = TrimPrefix r0 ''https://github.com/'' in
      case Split r (CHR ''/'') of
        [org, repo] \<Rightarrow> if org = [] \<or> repo = []
          then Inl (NewError (field @ '' must be org/repo or https://github.com/org/repo''))
          else Inr (ToLower (org @ ''/'' @ repo))
      | _ \<Rightarrow> Inl (NewError (field @ '' must be org/repo or https://github.com/org/repo'')))"

text \<open>
  The match of \<open>^https://github\\.com/([^/]+/[^/]+)(/[^?]+)(\\?ref=[^&]*)?$\<close>. The classes leave no
  choice: both names end at the next slash, the suffix ends at the first question mark or at the end.
\<close>

definition githubURLParts :: "string \<Rightarrow> (string \<times> string) option" where
  "githubURLParts url =
     (if \<not> HasPrefix url ''https://github.com/'' then None else
      let r = drop (length ''https://github.com/'') url;
          org = takeWhile (\<lambda>c. c \<noteq> CHR ''/'') r; r1 = dropWhile (\<lambda>c. c \<noteq> CHR ''/'') r;
          repo = takeWhile (\<lambda>c. c \<noteq> CHR ''/'') (tl r1); r2 = dropWhile (\<lambda>c. c \<noteq> CHR ''/'') (tl r1);
          path = takeWhile (\<lambda>c. c \<noteq> CHR ''?'') (tl r2); query = dropWhile (\<lambda>c. c \<noteq> CHR ''?'') (tl r2) in
      if org \<noteq> [] \<and> r1 \<noteq> [] \<and> repo \<noteq> [] \<and> r2 \<noteq> [] \<and> path \<noteq> [] \<and>
         (query = [] \<or> HasPrefix query ''?ref='' \<and> CHR ''&'' \<notin> set (drop (length ''?ref='') query))
      then Some (ToLower (org @ ''/'' @ repo), ''/'' @ path) else None)"

fun firstMatchingRule :: "string \<Rightarrow> GitRule list \<Rightarrow> GitRule option" where
  "firstMatchingRule orgRepo [] = None"
| "firstMatchingRule orgRepo (r # rs) = (case normalizeOrgRepo (SourceRepo r) ''sourceRepo'' of
     Inl e \<Rightarrow> firstMatchingRule orgRepo rs
   | Inr norm \<Rightarrow> if norm = orgRepo then Some r else firstMatchingRule orgRepo rs)"

section \<open>Validation\<close>

definition is_alnum :: "char \<Rightarrow> bool" where
  "is_alnum c \<longleftrightarrow> (let n = of_char c :: nat in
     48 \<le> n \<and> n \<le> 57 \<or> 65 \<le> n \<and> n \<le> 90 \<or> 97 \<le> n \<and> n \<le> 122)"

text \<open>The regular expression \<open>^[a-zA-Z0-9]([a-zA-Z0-9._-]*[a-zA-Z0-9])?$\<close>.\<close>

definition safePathSegment :: "string \<Rightarrow> bool" where
  "safePathSegment s \<longleftrightarrow> s \<noteq> [] \<and> is_alnum (hd s) \<and> is_alnum (last s) \<and>
     list_all (\<lambda>c. is_alnum c \<or> c \<in> {CHR ''.'', CHR ''_'', CHR ''-''}) s"

definition validatePathSegment :: "string \<Rightarrow> go_error option" where
  "validatePathSegment name =
     (if Contains name ''/'' \<or> Contains name [backslash]
      then Some (NewError ''must not contain path separators'')
      else if name = ''.'' \<or> name = ''..'' \<or> Contains name ''..''
      then Some (NewError ''must not contain path traversal sequences'')
      else if \<not> safePathSegment name
      then Some (NewError ''must match [a-zA-Z0-9][a-zA-Z0-9._-]*[a-zA-Z0-9]'')
      else None)"

definition pathIsConfined :: "string \<Rightarrow> string \<Rightarrow> go_error option" where
  "pathIsConfined resolved root = (case Rel root resolved of
     Inl e \<Rightarrow> Some (Errorf ''cannot compute relative path'' e)
   | Inr rel \<Rightarrow> if HasPrefix rel ''..''
       then Some (NewError (''path '' @ strconv_Quote resolved @ '' escapes root '' @ strconv_Quote root))
       else None)"

definition entry_label :: "nat \<Rightarrow> string \<Rightarrow> string" where
  "entry_label i name = ''entry '' @ show_nat i @ '' ('' @ name @ '')''"

fun validate_git :: "string \<Rightarrow> nat \<Rightarrow> GitRule list \<Rightarrow> go_error option" where
  "validate_git label j [] = None"
| "validate_git label j (g # gs) =
     (let at = label @ '' git['' @ show_nat j @ '']'';
          hasRemote = Remote g \<noteq> None; hasLocal = TrimSpace (LocalPath g) \<noteq> [] in
      if TrimSpace (SourceRepo g) = [] then Some (NewError (at @ '': sourceRepo is required''))
      else case normalizeOrgRepo (SourceRepo g) ''sourceRepo'' of
        Inl e \<Rightarrow> Some (Errorf at e)
      | Inr s \<Rightarrow>
          if hasRemote = hasLocal
          then Some (NewError (at @ '': exactly one of remote/localPath is required''))
          else (case Remote g of
            None \<Rightarrow> validate_git label (Suc j) gs
          | Some rem \<Rightarrow>
              if TrimSpace (Repo rem) = [] \<or> TrimSpace (Ref rem) = []
              then Some (NewError (at @ '': remote.repo and remote.ref are required''))
              else (case normalizeOrgRepo (Repo rem) ''remote.repo'' of
                Inl e \<Rightarrow> Some (Errorf at e)
              | Inr s' \<Rightarrow> validate_git label (Suc j) gs)))"

fun validate_images :: "string \<Rightarrow> nat \<Rightarrow> ImageOverride list \<Rightarrow> go_error option" where
  "validate_images label j [] = None"
| "validate_images label j (img # imgs) =
     (let at = label @ '' images['' @ show_nat j @ '']'' in
      if TrimSpace (Orig img) = [] \<or> TrimSpace (Replacement img) = []
      then Some (NewError (at @ '': orig/replacement are required''))
      else if TrimSpace (fst (parseImageReference (Replacement img))) = []
      then Some (NewError (at @ '': replacement must be a valid image reference (non-empty name)''))
      else validate_images label (Suc j) imgs)"

fun validate_entries :: "nat \<Rightarrow> string list \<Rightarrow> ComponentOverride list \<Rightarrow> go_error option" where
  "validate_entries i seenNames [] = None"
| "validate_entries i seenNames (c # cs) =
     (let nameKey = TrimSpace (Name c); entry = ''entry '' @ show_nat i in
      if nameKey = [] then Some (NewError (entry @ '': name is required''))
      else case validatePathSegment nameKey of
        Some err \<Rightarrow> Some (Errorf (entry @ '': invalid component name '' @ strconv_Quote nameKey) err)
      | None \<Rightarrow>
        if nameKey \<in> set seenNames
        then Some (NewError (entry @ '': duplicate component name '' @ strconv_Quote nameKey))
        else if Git c = [] \<and> Images c = []
        then Some (NewError (entry_label i (Name c) @ '': at least one of git/images must be non-empty''))
        else case validate_git (entry_label i (Name c)) 0 (Git c) of
          Some err \<Rightarrow> Some err
        | None \<Rightarrow> (case validate_images (entry_label i (Name c)) 0 (Images c) of
            Some err \<Rightarrow> Some err
          | None \<Rightarrow> validate_entries (Suc i) (nameKey # seenNames) cs))"

definition validateOverrides :: "ComponentOverride list \<Rightarrow> go_error option" where
  "validateOverrides overrides = (if overrides = [] then Some (NewError ''need non-empty override list'')
     else validate_entries 0 [] overrides)"

section \<open>The file system and the YAML packages\<close>

type_synonym yaml_map = "(string \<times> json) list"

datatype node_kind = ZeroNode | DocumentNode | SequenceNode | MappingNode | ScalarNode | AliasNode

text \<open>A \<open>yaml.Node\<close>; the fields the tool never touches (style, anchor, comments) are the \<open>json\<close> value.\<close>

datatype yaml_node = Node (node_Kind: node_kind) (node_Tag: string) (node_Value: string)
  (node_rest: json) (node_Content: "yaml_node list")

text \<open>
  \<open>y_Decode\<close> is the sequence of the decoder's answers up to \<open>io.EOF\<close>.
\<close>

record yaml_lib =
  y_Unmarshal :: "string \<Rightarrow> yaml_map result"
  y_Marshal :: "yaml_map \<Rightarrow> string result"
  y_Overrides :: "string \<Rightarrow> ComponentOverride list result"
  y_Decode :: "string \<Rightarrow> yaml_node result list"
  y_Encode :: "yaml_node list \<Rightarrow> string result"

text \<open>
  One visit of a walk: the names leading from the root to the entry, the entry's error, its kind and the
  file mode when \<open>Info\<close> knows it.
\<close>

record walk_entry =
  we_rel :: "string list"
  we_isDir :: bool
  we_err :: "go_error option"
  we_mode :: "int option"

record 'o os =
  os_Getwd :: "'o \<Rightarrow> string result"
  os_ReadFile :: "string \<Rightarrow> 'o \<Rightarrow> string result"
  os_Stat_IsDir :: "string \<Rightarrow> 'o \<Rightarrow> bool result"
  os_Walk :: "string \<Rightarrow> 'o \<Rightarrow> walk_entry list"
  os_LookPath :: "string \<Rightarrow> 'o \<Rightarrow> bool"
  os_WriteFile :: "string \<Rightarrow> string \<Rightarrow> int \<Rightarrow> 'o \<Rightarrow> go_error option \<times> 'o"
  os_MkdirAll :: "string \<Rightarrow> 'o \<Rightarrow> go_error option \<times> 'o"
  os_RemoveAll :: "string \<Rightarrow> 'o \<Rightarrow> go_error option \<times> 'o"
  os_CombinedOutput :: "string list \<Rightarrow> string \<Rightarrow> 'o \<Rightarrow> (go_error option \<times> string) \<times> 'o"

datatype os_event = OWrite string string | OMkdir string | ORemove string | ORun "string list" string

record 'o run =
  run_os :: 'o
  run_trace :: "os_event list"
  applyStats :: ApplyStats

definition os_emit :: "os_event \<Rightarrow> 'o \<Rightarrow> 'o run \<Rightarrow> 'o run" where
  "os_emit ev s r = r\<lparr> run_os := s, run_trace := run_trace r @ [ev] \<rparr>"

definition WriteFile :: "'o os \<Rightarrow> string \<Rightarrow> string \<Rightarrow> int \<Rightarrow> 'o run \<Rightarrow> go_error option \<times> 'o run" where
  "WriteFile F path content mode r =
     (case os_WriteFile F path content mode (run_os r) of (e, s) \<Rightarrow> (e, os_emit (OWrite path content) s r))"

definition MkdirAll :: "'o os \<Rightarrow> string \<Rightarrow> 'o run \<Rightarrow> go_error option \<times> 'o run" where
  "MkdirAll F path r = (case os_MkdirAll F path (run_os r) of (e, s) \<Rightarrow> (e, os_emit (OMkdir path) s r))"

definition RemoveAll :: "'o os \<Rightarrow> string \<Rightarrow> 'o run \<Rightarrow> go_error option \<times> 'o run" where
  "RemoveAll F path r = (case os_RemoveAll F path (run_os r) of (e, s) \<Rightarrow> (e, os_emit (ORemove path) s r))"

definition CombinedOutput ::
    "'o os \<Rightarrow> string list \<Rightarrow> string \<Rightarrow> 'o run \<Rightarrow> (go_error option \<times> string) \<times> 'o run" where
  "CombinedOutput F cmd dir r =
     (case os_CombinedOutput F cmd dir (run_os r) of (e, s) \<Rightarrow> (e, os_emit (ORun cmd dir) s r))"

text \<open>\<open>if err := step(); err != nil \{ return err \}; rest\<close>.\<close>

definition and_then :: "go_error option \<times> 'o run \<Rightarrow> ('o run \<Rightarrow> go_error option \<times> 'o run) \<Rightarrow> go_error option \<times> 'o run" where
  "and_then step rest = (case step of (Some err, r) \<Rightarrow> (Some err, r) | (None, r) \<Rightarrow> rest r)"

definition wrapping :: "string \<Rightarrow> go_error option \<times> 'o run \<Rightarrow> go_error option \<times> 'o run" where
  "wrapping msg step = (map_option (Errorf msg) (fst step), snd step)"

section \<open>Walking\<close>

definition entry_path :: "string \<Rightarrow> walk_entry \<Rightarrow> string" where
  "entry_path root e = foldl PathJoin root (we_rel e)"

definition entry_name :: "string \<Rightarrow> walk_entry \<Rightarrow> string" where
  "entry_name root e = (if we_rel e \<noteq> [] then last (we_rel e)
     else if path_elems root = [] then root else last (path_elems root))"

fun walk_entries ::
    "(walk_entry \<Rightarrow> 'o run \<Rightarrow> go_error option \<times> 'o run) \<Rightarrow> walk_entry list \<Rightarrow> 'o run \<Rightarrow> go_error option \<times> 'o run" where
  "walk_entries fn [] r = (None, r)"
| "walk_entries fn (e # es) r = and_then (fn e r) (walk_entries fn es)"

definition WalkDir ::
    "'o os \<Rightarrow> string \<Rightarrow> (walk_entry \<Rightarrow> 'o run \<Rightarrow> go_error option \<times> 'o run) \<Rightarrow> 'o run \<Rightarrow> go_error option \<times> 'o run" where
  "WalkDir F root fn r = walk_entries fn (os_Walk F root (run_os r)) r"

definition is_kustomization :: "string \<Rightarrow> walk_entry \<Rightarrow> bool" where
  "is_kustomization root e \<longleftrightarrow> entry_name root e = ''kustomization.yaml'' \<or> entry_name root e = ''kustomization.yml''"

definition copyDir_fn :: "'o os \<Rightarrow> string \<Rightarrow> string \<Rightarrow> walk_entry \<Rightarrow> 'o run \<Rightarrow> go_error option \<times> 'o run" where
  "copyDir_fn F src dst e r =
     (case we_err e of Some err \<Rightarrow> (Some err, r)
      | None \<Rightarrow> (case Rel src (entry_path src e) of Inl err \<Rightarrow> (Some err, r)
        | Inr rel \<Rightarrow>
          if we_isDir e then MkdirAll F (PathJoin dst rel) r
          else (case os_ReadFile F (entry_path src e) (run_os r) of Inl err \<Rightarrow> (Some err, r)
            | Inr b \<Rightarrow> WriteFile F (PathJoin dst rel) b (case we_mode e of None \<Rightarrow> 420 | Some m \<Rightarrow> m) r)))"

definition copyDir :: "'o os \<Rightarrow> string \<Rightarrow> string \<Rightarrow> 'o run \<Rightarrow> go_error option \<times> 'o run" where
  "copyDir F src dst = WalkDir F src (copyDir_fn F src dst)"

section \<open>Git rules\<close>

definition remote_url :: "string \<Rightarrow> string \<Rightarrow> string \<Rightarrow> string" where
  "remote_url remoteRepo suffix ref = ''https://github.com/'' @ remoteRepo @ suffix @ ''?ref='' @ ref"

text \<open>
  One step of the loop over the resources: the new resource and, for a remote rule, its ref and the
  matched repository.
\<close>

definition rewrite_resource ::
    "'o os \<Rightarrow> 'o \<Rightarrow> string \<Rightarrow> GitRule list \<Rightarrow> json \<Rightarrow> (json \<times> (string \<times> string) option) result" where
  "rewrite_resource F s path rules rv = (case rv of
     JString resource \<Rightarrow>
       if \<not> HasPrefix resource ''https://github.com/'' then Inr (rv, None)
       else (case githubURLParts resource of None \<Rightarrow> Inr (rv, None)
         | Some (orgRepo, suffix) \<Rightarrow>
           (case firstMatchingRule orgRepo rules of None \<Rightarrow> Inr (rv, None)
            | Some rule \<Rightarrow>
              (case Remote rule of
                 Some rem \<Rightarrow>
                   (case normalizeOrgRepo (Repo rem) ''remote.repo'' of Inl err \<Rightarrow> Inl err
                    | Inr remoteRepo \<Rightarrow> Inr (JString (remote_url remoteRepo suffix (Ref rem)), Some (Ref rem, orgRepo)))
               | None \<Rightarrow>
                   if TrimSpace (LocalPath rule) \<noteq> [] then
                     (let full = PathJoin (Clean (LocalPath rule)) (TrimPrefix suffix ''/'') in
                      case os_Stat_IsDir F full s of
                        Inr True \<Rightarrow> (case Rel (Dir path) full of
                            Inl err \<Rightarrow> Inl (Errorf ''compute relative localPath'' err)
                          | Inr rel \<Rightarrow> Inr (JString rel, None))
                      | _ \<Rightarrow> Inl (NewError (''localPath + suffix is not a directory: '' @ full)))
                   else Inl (NewError (''rule must set remote or localPath for sourceRepo='' @ SourceRepo rule)))))
   | _ \<Rightarrow> Inr (rv, None))"

fun rewrite_resources ::
    "'o os \<Rightarrow> 'o \<Rightarrow> string \<Rightarrow> GitRule list \<Rightarrow> json list \<Rightarrow> (json list \<times> (string \<times> string) list) result" where
  "rewrite_resources F s path rules [] = Inr ([], [])"
| "rewrite_resources F s path rules (rv # rvs) =
     (case rewrite_resource F s path rules rv of Inl err \<Rightarrow> Inl err
      | Inr (rv', m) \<Rightarrow> (case rewrite_resources F s path rules rvs of Inl err \<Rightarrow> Inl err
        | Inr (rvs', ms) \<Rightarrow> Inr (rv' # rvs', (case m of None \<Rightarrow> [] | Some x \<Rightarrow> [x]) @ ms)))"

definition bump_tag :: "string list \<Rightarrow> string \<Rightarrow> json \<Rightarrow> json \<times> bool" where
  "bump_tag remoteSourceOrgRepos onlyRef iv = (case iv of
     JObject im \<Rightarrow>
       if map_of im ''newTag'' = None then (iv, False)
       else if \<not> list_ex (imageRefMatchesOrgRepo (imageNameFromMap im)) remoteSourceOrgRepos then (iv, False)
       else (JObject (AList.update ''newTag'' (JString onlyRef) im), True)
   | _ \<Rightarrow> (iv, False))"

text \<open>
  The effect of the rules on one parsed kustomization, with the flag \<open>updated\<close>. The sets of refs and
  repositories are kept as lists without repetitions.
\<close>

definition git_rules_doc ::
    "'o os \<Rightarrow> 'o \<Rightarrow> string \<Rightarrow> GitRule list \<Rightarrow> yaml_map \<Rightarrow> (yaml_map \<times> bool) result" where
  "git_rules_doc F s path rules k = (case map_of k ''resources'' of
     Some (JArray rawResources) \<Rightarrow>
       (case rewrite_resources F s path rules rawResources of Inl err \<Rightarrow> Inl err
        | Inr (resources', matched) \<Rightarrow>
          (let updated = (resources' \<noteq> rawResources);
               k1 = (if updated then AList.update ''resources'' (JArray resources') k else k);
               remoteRefs = remdups (map fst matched); remoteSourceOrgRepos = remdups (map snd matched) in
           Inr (if length remoteRefs = 1 \<and> length remoteSourceOrgRepos > 0 then
                  (case map_of k1 ''images'' of
                     Some (JArray images) \<Rightarrow>
                       (let res = map (bump_tag remoteSourceOrgRepos (hd remoteRefs)) images in
                        if list_ex snd res
                        then (AList.update ''images'' (JArray (map fst res)) k1, True) else (k1, updated))
                   | _ \<Rightarrow> (k1, updated))
                else (k1, updated))))
   | _ \<Rightarrow> Inr (k, False))"

definition applyGitRulesToKustomization ::
    "yaml_lib \<Rightarrow> 'o os \<Rightarrow> string \<Rightarrow> GitRule list \<Rightarrow> 'o run \<Rightarrow> bool result \<times> 'o run" where
  "applyGitRulesToKustomization Y F path rules r =
     (case os_ReadFile F path (run_os r) of Inl err \<Rightarrow> (Inl err, r)
      | Inr content \<Rightarrow> (case y_Unmarshal Y content of Inl err \<Rightarrow> (Inl (Errorf (''parse '' @ path) err), r)
        | Inr k \<Rightarrow> (case git_rules_doc F (run_os r) path rules k of Inl err \<Rightarrow> (Inl err, r)
          | Inr (k', updated) \<Rightarrow>
            if \<not> updated then (Inr False, r)
            else (case y_Marshal Y k' of Inl err \<Rightarrow> (Inl (Errorf ''marshal updated kustomization'' err), r)
              | Inr out \<Rightarrow> (case WriteFile F path out 420 r of
                  (Some err, r') \<Rightarrow> (Inl err, r')
                | (None, r') \<Rightarrow> (Inr True, r'))))))"

definition git_rules_fn ::
    "yaml_lib \<Rightarrow> 'o os \<Rightarrow> string \<Rightarrow> GitRule list \<Rightarrow> walk_entry \<Rightarrow> 'o run \<Rightarrow> go_error option \<times> 'o run" where
  "git_rules_fn Y F componentDir rules e r =
     (case we_err e of Some err \<Rightarrow> (Some err, r)
      | None \<Rightarrow>
        if we_isDir e \<or> \<not> is_kustomization componentDir e then (None, r)
        else (case applyGitRulesToKustomization Y F (entry_path componentDir e) rules r of
          (Inl err, r') \<Rightarrow> (Some err, r')
        | (Inr written, r') \<Rightarrow> (None, if written then r'\<lparr> applyStats := (applyStats r')
            \<lparr> GitKustomizationsUpdated := GitKustomizationsUpdated (applyStats r') + 1 \<rparr> \<rparr> else r')))"

fun applyGitRules :: "yaml_lib \<Rightarrow> 'o os \<Rightarrow> string \<Rightarrow> ComponentOverride list \<Rightarrow> 'o run \<Rightarrow> go_error option \<times> 'o run" where
  "applyGitRules Y F upstreamDir [] r = (None, r)"
| "applyGitRules Y F upstreamDir (c # cs) r =
     (if Git c = [] then applyGitRules Y F upstreamDir cs r
      else (let componentDir = PathJoin upstreamDir (Name c) in
        case pathIsConfined componentDir upstreamDir of
          Some err \<Rightarrow> (Some (Errorf (''component '' @ strconv_Quote (Name c)) err), r)
        | None \<Rightarrow> (case os_Stat_IsDir F componentDir (run_os r) of
            Inl err \<Rightarrow> applyGitRules Y F upstreamDir cs r
          | Inr d \<Rightarrow> and_then (WalkDir F componentDir (git_rules_fn Y F componentDir (Git c)) r)
              (applyGitRules Y F upstreamDir cs))))"

section \<open>Image overrides\<close>

definition imageOverrides :: "Runner \<Rightarrow> ImageOverride list" where
  "imageOverrides R = concat (map Images (Overrides_of R))"

definition override_image :: "ImageOverride \<Rightarrow> yaml_map \<Rightarrow> yaml_map" where
  "override_image ov im = (case parseImageReference (Replacement ov) of (newName, newTag, newDigest) \<Rightarrow>
     (let im1 = AList.update ''newName'' (JString newName) im in
      if newDigest \<noteq> [] then AList.delete ''newTag'' (AList.update ''digest'' (JString newDigest) im1)
      else AList.delete ''digest'' (AList.update ''newTag'' (JString newTag) im1)))"

definition override_entry :: "ImageOverride \<Rightarrow> json \<Rightarrow> json \<times> bool" where
  "override_entry ov iv = (case iv of
     JObject im \<Rightarrow> if imageNameFromMap im \<noteq> Orig ov then (iv, False) else (JObject (override_image ov im), True)
   | _ \<Rightarrow> (iv, False))"

fun override_images :: "ImageOverride list \<Rightarrow> json list \<Rightarrow> json list \<times> bool" where
  "override_images [] images = (images, False)"
| "override_images (ov # ovs) images =
     (let res = map (override_entry ov) images;
          rest = override_images ovs (map fst res) in
      (fst rest, list_ex snd res \<or> snd rest))"

fun has_digest :: "json \<Rightarrow> bool" where
  "has_digest (JObject im) \<longleftrightarrow> map_of im ''digest'' \<noteq> None"
| "has_digest _ \<longleftrightarrow> False"

text \<open>The effect on one parsed kustomization; \<^const>\<open>None\<close> when nothing is to be written.\<close>

definition image_overrides_doc :: "ImageOverride list \<Rightarrow> yaml_map \<Rightarrow> yaml_map option" where
  "image_overrides_doc overrides doc = (case map_of doc ''images'' of
     Some (JArray images) \<Rightarrow>
       if images = [] \<or> \<not> list_ex has_digest images then None
       else (case override_images overrides images of (images', changed) \<Rightarrow>
         if changed then Some (AList.update ''images'' (JArray images') doc) else None)
   | _ \<Rightarrow> None)"

definition image_kustomization_fn ::
    "yaml_lib \<Rightarrow> 'o os \<Rightarrow> ImageOverride list \<Rightarrow> string \<Rightarrow> walk_entry \<Rightarrow> 'o run \<Rightarrow> go_error option \<times> 'o run" where
  "image_kustomization_fn Y F overrides root e r =
     (case we_err e of Some err \<Rightarrow> (Some err, r)
      | None \<Rightarrow>
        if we_isDir e \<or> \<not> is_kustomization root e then (None, r)
        else (case os_ReadFile F (entry_path root e) (run_os r) of Inl err \<Rightarrow> (Some err, r)
          | Inr content \<Rightarrow> (case y_Unmarshal Y content of Inl err \<Rightarrow> (None, r)
            | Inr doc \<Rightarrow> (case image_overrides_doc overrides doc of None \<Rightarrow> (None, r)
              | Some doc' \<Rightarrow> (case y_Marshal Y doc' of Inl err \<Rightarrow> (Some err, r)
                | Inr out \<Rightarrow> and_then (WriteFile F (entry_path root e) out 420 r)
                    (\<lambda>r. (None, r\<lparr> applyStats := (applyStats r)
                       \<lparr> KustomizationImagesPatched := KustomizationImagesPatched (applyStats r) + 1 \<rparr> \<rparr>)))))))"

definition applyImageOverridesInKustomizations ::
    "yaml_lib \<Rightarrow> 'o os \<Rightarrow> Runner \<Rightarrow> string \<Rightarrow> 'o run \<Rightarrow> go_error option \<times> 'o run" where
  "applyImageOverridesInKustomizations Y F R upstreamDir r =
     (if imageOverrides R = [] then (None, r)
      else WalkDir F upstreamDir (image_kustomization_fn Y F (imageOverrides R) upstreamDir) r)"

text \<open>The regular expression \<open>^orig($|:|@)\<close> with \<open>orig\<close> quoted.\<close>

definition orig_matches :: "string \<Rightarrow> string \<Rightarrow> bool" where
  "orig_matches orig v \<longleftrightarrow> HasPrefix v orig \<and>
     (case drop (length orig) v of [] \<Rightarrow> True | c # _ \<Rightarrow> c = CHR '':'' \<or> c = CHR ''@'')"

fun replaceStringNodes :: "(string \<Rightarrow> bool) \<Rightarrow> string \<Rightarrow> yaml_node \<Rightarrow> yaml_node \<times> bool" where
  "replaceStringNodes re replacement (Node kind tag val rest content) =
     (let hit = (kind = ScalarNode \<and> tag = ''!!str'' \<and> re val);
          cs = map (replaceStringNodes re replacement) content in
      (Node kind tag (if hit then replacement else val) rest (map fst cs), hit \<or> list_ex snd cs))"

fun override_node :: "ImageOverride list \<Rightarrow> yaml_node \<Rightarrow> yaml_node \<times> bool" where
  "override_node [] doc = (doc, False)"
| "override_node (ov # ovs) doc =
     (case replaceStringNodes (orig_matches (Orig ov)) (Replacement ov) doc of (doc1, changed1) \<Rightarrow>
        (case override_node ovs doc1 of (doc2, changed2) \<Rightarrow> (doc2, changed1 \<or> changed2)))"

text \<open>The decoding loop: it ends at the end of the input or at an empty document and fails on an error.\<close>

fun override_docs :: "ImageOverride list \<Rightarrow> yaml_node result list \<Rightarrow> (yaml_node list \<times> bool) result" where
  "override_docs overrides [] = Inr ([], False)"
| "override_docs overrides (Inl err # ds) = Inl err"
| "override_docs overrides (Inr doc # ds) =
     (if node_Kind doc = ZeroNode then Inr ([], False)
      else (case override_node overrides doc of (doc', changed) \<Rightarrow>
        (case override_docs overrides ds of Inl err \<Rightarrow> Inl err
         | Inr (docs, changed') \<Rightarrow> Inr (doc' # docs, changed \<or> changed'))))"

definition image_manifest_fn ::
    "yaml_lib \<Rightarrow> 'o os \<Rightarrow> ImageOverride list \<Rightarrow> string \<Rightarrow> walk_entry \<Rightarrow> 'o run \<Rightarrow> go_error option \<times> 'o run" where
  "image_manifest_fn Y F overrides root e r =
     (case we_err e of Some err \<Rightarrow> (Some err, r)
      | None \<Rightarrow>
        if we_isDir e \<or> entry_name root e \<noteq> ''manifests.yaml'' then (None, r)
        else (case os_ReadFile F (entry_path root e) (run_os r) of Inl err \<Rightarrow> (Some err, r)
          | Inr content \<Rightarrow> (case override_docs overrides (y_Decode Y content) of Inl err \<Rightarrow> (Some err, r)
            | Inr (docs, changed) \<Rightarrow>
              if \<not> changed then (None, r)
              else (case y_Encode Y docs of Inl err \<Rightarrow> (Some err, r)
                | Inr out \<Rightarrow> and_then (WriteFile F (entry_path root e) out 420 r)
                    (\<lambda>r. (None, r\<lparr> applyStats := (applyStats r)
                       \<lparr> ManifestYAMLsImageTextReplaced := ManifestYAMLsImageTextReplaced (applyStats r) + 1 \<rparr> \<rparr>))))))"

definition applyImageOverridesInManifests ::
    "yaml_lib \<Rightarrow> 'o os \<Rightarrow> Runner \<Rightarrow> string \<Rightarrow> 'o run \<Rightarrow> go_error option \<times> 'o run" where
  "applyImageOverridesInManifests Y F R manifestsDir r =
     (if imageOverrides R = [] then (None, r)
      else WalkDir F manifestsDir (image_manifest_fn Y F (imageOverrides R) manifestsDir) r)"

section \<open>The runner\<close>

definition kustomizeBuildCommand :: "'o os \<Rightarrow> 'o \<Rightarrow> string \<Rightarrow> (string list \<times> string) result" where
  "kustomizeBuildCommand F s src =
     (if os_LookPath F ''kustomize'' s then Inr ([''kustomize'', ''build'', src], ''kustomize build'')
      else if os_LookPath F ''kubectl'' s then Inr ([''kubectl'', ''kustomize'', src], ''kubectl kustomize'')
      else Inl (NewError ''kustomize or kubectl is required in PATH to rebuild manifests''))"

definition rebuild_component :: "'o os \<Rightarrow> string \<Rightarrow> string \<Rightarrow> string \<Rightarrow> 'o run \<Rightarrow> go_error option \<times> 'o run" where
  "rebuild_component F upstreamDir manifestsDir component r =
     (let src = PathJoin upstreamDir component; destDir = PathJoin manifestsDir component in
      case pathIsConfined src upstreamDir of
        Some err \<Rightarrow> (Some (Errorf (''component '' @ strconv_Quote component) err), r)
      | None \<Rightarrow> (case os_Stat_IsDir F src (run_os r) of
          Inl err \<Rightarrow> (None, r)
        | Inr d \<Rightarrow> (case pathIsConfined destDir manifestsDir of
            Some err \<Rightarrow> (Some (Errorf (''component '' @ strconv_Quote component) err), r)
          | None \<Rightarrow> and_then (MkdirAll F destDir r) (\<lambda>r.
              case kustomizeBuildCommand F (run_os r) src of
                Inl err \<Rightarrow> (Some err, r)
              | Inr (cmd, label) \<Rightarrow> (case CombinedOutput F cmd manifestsDir r of
                  ((Some err, out), r) \<Rightarrow>
                    (Some (Errorf (label @ '' failed for '' @ component) (Errorf (error_text err) (NewError out))), r)
                | ((None, out), r) \<Rightarrow> and_then (WriteFile F (PathJoin destDir ''manifests.yaml'') out 420 r)
                    (\<lambda>r. (None, r\<lparr> applyStats := (applyStats r)
                       \<lparr> ComponentsRebuilt := ComponentsRebuilt (applyStats r) + 1 \<rparr> \<rparr>)))))))"

fun rebuildManifests :: "'o os \<Rightarrow> string \<Rightarrow> string \<Rightarrow> string list \<Rightarrow> 'o run \<Rightarrow> go_error option \<times> 'o run" where
  "rebuildManifests F upstreamDir manifestsDir [] r = (None, r)"
| "rebuildManifests F upstreamDir manifestsDir (c # cs) r =
     and_then (rebuild_component F upstreamDir manifestsDir c r) (rebuildManifests F upstreamDir manifestsDir cs)"

definition componentsWithGitRules :: "Runner \<Rightarrow> string list" where
  "componentsWithGitRules R = map Name (filter (\<lambda>c. Git c \<noteq> []) (Overrides_of R))"

text \<open>
  The JSON of a rule: \<open>remote\<close> and \<open>localPath\<close> are left out when empty. A component without rules is
  written as a nil slice is (\<open>null\<close>); the model does not tell it from an empty one.
\<close>

definition rule_json :: "GitRule \<Rightarrow> json" where
  "rule_json g = JObject ([(''sourceRepo'', JString (SourceRepo g))] @
     (case Remote g of None \<Rightarrow> []
      | Some rem \<Rightarrow> [(''remote'', JObject [(''repo'', JString (Repo rem)), (''ref'', JString (Ref rem))])]) @
     (if LocalPath g = [] then [] else [(''localPath'', JString (LocalPath g))]))"

definition sources_json :: "ComponentOverride list \<Rightarrow> json" where
  "sources_json cs = JArray (map (\<lambda>c. JObject [(''name'', JString (Name c)),
     (''git'', if Git c = [] then JNull else JArray (map rule_json (Git c)))]) cs)"

definition writeComponentSources :: "'o os \<Rightarrow> Runner \<Rightarrow> 'o run \<Rightarrow> go_error option \<times> 'o run" where
  "writeComponentSources F R r = wrapping ''write component sources''
     (WriteFile F (PathJoin (TmpDir R) ''component-sources.json'') (MarshalIndent 0 (sources_json (Overrides_of R))) 420 r)"

definition Apply :: "yaml_lib \<Rightarrow> 'o os \<Rightarrow> Runner \<Rightarrow> 'o run \<Rightarrow> go_error option \<times> 'o run" where
  "Apply Y F R r0 =
     and_then (wrapping ''create .tmp'' (MkdirAll F (TmpDir R) (r0\<lparr> applyStats := no_stats \<rparr>))) (\<lambda>r.
     and_then (writeComponentSources F R r) (\<lambda>r.
       let componentsWithGit = componentsWithGitRules R;
           workUpstream = (if componentsWithGit \<noteq> [] then PathJoin (TmpDir R) ''upstream-kustomizations''
                           else UpstreamDir R) in
       and_then
         (if componentsWithGit \<noteq> [] then
            and_then (wrapping ''cleanup temp upstream'' (RemoveAll F workUpstream r)) (\<lambda>r.
            and_then (wrapping ''copy upstream-kustomizations'' (copyDir F (UpstreamDir R) workUpstream r))
              (applyGitRules Y F workUpstream (Overrides_of R)))
          else (None, r)) (\<lambda>r.
       and_then (applyImageOverridesInKustomizations Y F R workUpstream r) (\<lambda>r.
       and_then (if componentsWithGit \<noteq> [] then rebuildManifests F workUpstream (ManifestsDir R) componentsWithGit r
                 else (None, r)) (\<lambda>r.
       applyImageOverridesInManifests Y F R (ManifestsDir R) r)))))"

definition ParseAndValidateFromYAML :: "yaml_lib \<Rightarrow> string \<Rightarrow> ComponentOverride list result" where
  "ParseAndValidateFromYAML Y content = (case y_Overrides Y content of
     Inl err \<Rightarrow> Inl (Errorf ''parse overrides yaml'' err)
   | Inr cs \<Rightarrow> (case validateOverrides cs of Some err \<Rightarrow> Inl err | None \<Rightarrow> Inr cs))"

text \<open>\<open>filepath.Abs\<close>.\<close>

definition Abs :: "'o os \<Rightarrow> 'o \<Rightarrow> string \<Rightarrow> string result" where
  "Abs F s p = (if IsAbs p then Inr (Clean p)
     else (case os_Getwd F s of Inl err \<Rightarrow> Inl err | Inr wd \<Rightarrow> Inr (PathJoin wd p)))"

definition NewRunner ::
    "'o os \<Rightarrow> 'o \<Rightarrow> string \<Rightarrow> string \<Rightarrow> string \<Rightarrow> ComponentOverride list \<Rightarrow> Runner result" where
  "NewRunner F s upstreamDir manifestsDir tmpDir overrides = (case validateOverrides overrides of
     Some err \<Rightarrow> Inl err
   | None \<Rightarrow>
     if TrimSpace upstreamDir = [] then Inl (NewError ''upstreamDir is required'')
     else if TrimSpace manifestsDir = [] then Inl (NewError ''manifestsDir is required'')
     else if TrimSpace tmpDir = [] then Inl (NewError ''tmpDir is required'')
     else (case Abs F s upstreamDir of Inl err \<Rightarrow> Inl (Errorf ''resolve upstreamDir'' err)
       | Inr absUpstreamDir \<Rightarrow> (case Abs F s manifestsDir of Inl err \<Rightarrow> Inl (Errorf ''resolve manifestsDir'' err)
         | Inr absManifestsDir \<Rightarrow> (case Abs F s tmpDir of Inl err \<Rightarrow> Inl (Errorf ''resolve tmpDir'' err)
           | Inr absTmpDir \<Rightarrow> Inr \<lparr> UpstreamDir = absUpstreamDir, ManifestsDir = absManifestsDir,
               TmpDir = absTmpDir, Overrides_of = overrides \<rparr>))))"

section \<open>Summaries and the command\<close>

definition git_summary :: "ComponentOverride \<Rightarrow> GitRule \<Rightarrow> string list" where
  "git_summary c g = (case normalizeOrgRepo (SourceRepo g) ''sourceRepo'' of Inl err \<Rightarrow> []
     | Inr src \<Rightarrow> (case Remote g of
         Some rem \<Rightarrow> (case normalizeOrgRepo (Repo rem) ''remote.repo'' of Inl err \<Rightarrow> []
           | Inr rr \<Rightarrow> [''  ['' @ Name c @ ''] '' @ src @ '' -> https://github.com/'' @ rr @ ''?ref='' @ Ref rem])
       | None \<Rightarrow> if TrimSpace (LocalPath g) \<noteq> []
           then [''  ['' @ Name c @ ''] '' @ src @ '' -> local '' @ TrimSpace (LocalPath g)] else []))"

definition GitSummaryLines :: "Runner \<Rightarrow> string list" where
  "GitSummaryLines R = concat (map (\<lambda>c. concat (map (git_summary c) (Git c))) (Overrides_of R))"

definition SummaryLines :: "Runner \<Rightarrow> string list" where
  "SummaryLines R = concat (map (\<lambda>c. map (\<lambda>img. ''  '' @ Orig img @ '' -> '' @ Replacement img) (Images c)) (Overrides_of R))"

record flags =
  upstream_dir :: string
  manifests_dir :: string
  tmp_dir :: string
  overrides_yaml :: string

text \<open>The outcome of the command: its exit code and what it prints.\<close>

record outcome =
  exit_code :: int
  stdout :: "string list"
  stderr :: "string list"

definition fail_with :: "string \<Rightarrow> outcome" where
  "fail_with msg = \<lparr> exit_code = 1, stdout = [], stderr = [''error: '' @ msg] \<rparr>"

definition stats_line :: "ApplyStats \<Rightarrow> string" where
  "stats_line st = ''Apply summary: git kustomizations='' @ show_int (GitKustomizationsUpdated st) @
     '', kustomization image patches='' @ show_int (KustomizationImagesPatched st) @
     '', manifest YAML image replacements='' @ show_int (ManifestYAMLsImageTextReplaced st) @
     '', components rebuilt='' @ show_int (ComponentsRebuilt st)"

definition overrides_main :: "yaml_lib \<Rightarrow> 'o os \<Rightarrow> flags \<Rightarrow> 'o run \<Rightarrow> outcome \<times> 'o run" where
  "overrides_main Y F fl r =
     (if upstream_dir fl = [] then (fail_with ''--upstream-dir is required'', r)
      else if manifests_dir fl = [] then (fail_with ''--manifests-dir is required'', r)
      else if tmp_dir fl = [] then (fail_with ''--tmp-dir is required'', r)
      else if overrides_yaml fl = [] then (fail_with ''--overrides-yaml is required'', r)
      else (case ParseAndValidateFromYAML Y (overrides_yaml fl) of Inl err \<Rightarrow> (fail_with (error_text err), r)
        | Inr cs \<Rightarrow> (case NewRunner F (run_os r) (upstream_dir fl) (manifests_dir fl) (tmp_dir fl) cs of
            Inl err \<Rightarrow> (fail_with (error_text err), r)
          | Inr R \<Rightarrow> (case Apply Y F R r of
              (Some err, r) \<Rightarrow> (fail_with (''apply overrides: '' @ error_text err), r)
            | (None, r) \<Rightarrow> (\<lparr> exit_code = 0,
                stdout = (if GitSummaryLines R \<noteq> [] then [[], ''Configured git overrides:''] @ GitSummaryLines R else []) @
                  (if SummaryLines R \<noteq> [] then [[], ''Applied image overrides:''] @ SummaryLines R else []) @
                  [[], stats_line (applyStats r)],
                stderr = [] \<rparr>, r)))))"

section \<open>What a step adds to the trace\<close>

text \<open>
  \<open>adds P r r'\<close>: between \<open>r\<close> and \<open>r'\<close> only events satisfying \<open>P\<close> were added. The rules below lift a
  bound on single steps through sequencing and walks.
\<close>

definition adds :: "(os_event \<Rightarrow> bool) \<Rightarrow> 'o run \<Rightarrow> 'o run \<Rightarrow> bool" where
  "adds P r r' \<longleftrightarrow> (\<exists>es. run_trace r' = run_trace r @ es \<and> list_all P es)"

named_theorems adds_intro \<open>rules bounding the events of a step\<close>

lemma adds_refl [adds_intro]: "adds P r r"
  by (simp add: adds_def)

lemma adds_trans: "adds P a b \<Longrightarrow> adds P b c \<Longrightarrow> adds P a c"
  unfolding adds_def by (metis append.assoc list_all_append)

lemma adds_mono: "adds P r r' \<Longrightarrow> (\<And>ev. P ev \<Longrightarrow> Q ev) \<Longrightarrow> adds Q r r'"
  unfolding adds_def by (metis list_all_iff)

lemma adds_stats [simp]:
  "adds P r (r'\<lparr> applyStats := x \<rparr>) = adds P r r'"
  "adds P (r\<lparr> applyStats := x \<rparr>) r' = adds P r r'"
  by (simp_all add: adds_def)

lemma adds_calls [adds_intro]:
  "P (OWrite p c) \<Longrightarrow> adds P r (snd (WriteFile F p c m r))"
  "P (OMkdir p) \<Longrightarrow> adds P r (snd (MkdirAll F p r))"
  "P (ORemove p) \<Longrightarrow> adds P r (snd (RemoveAll F p r))"
  "P (ORun cmd dir) \<Longrightarrow> adds P r (snd (CombinedOutput F cmd dir r))"
  by (auto simp: adds_def WriteFile_def MkdirAll_def RemoveAll_def CombinedOutput_def os_emit_def
      split: prod.splits)

lemma adds_call_eqs:
  "WriteFile F p c m r = (e, r') \<Longrightarrow> P (OWrite p c) \<Longrightarrow> adds P r r'"
  "CombinedOutput F cmd dir r = (e', r') \<Longrightarrow> P (ORun cmd dir) \<Longrightarrow> adds P r r'"
  using adds_calls(1) [of P p c r F m] adds_calls(4) [of P cmd dir r F] by auto

lemma adds_and_then [adds_intro]:
  assumes "adds P r (snd step)" and "\<And>r'. adds P r' (snd (rest r'))"
  shows "adds P r (snd (and_then step rest))"
proof (cases step)
  case (Pair e r')
  with assms(1) adds_trans [OF _ assms(2) [of r'], of r] show ?thesis
    by (cases e) (simp_all add: and_then_def)
qed

lemma adds_wrapping [adds_intro]: "adds P r (snd step) \<Longrightarrow> adds P r (snd (wrapping msg step))"
  by (simp add: wrapping_def)

lemma adds_walk:
  assumes "\<And>e r. e \<in> set es \<Longrightarrow> adds P r (snd (fn e r))"
  shows "adds P r (snd (walk_entries fn es r))"
  using assms by (induction es arbitrary: r) (auto intro!: adds_and_then adds_refl)

lemma adds_WalkDir:
  assumes "\<And>e r. e \<in> set (os_Walk F root (run_os r0)) \<Longrightarrow> adds P r (snd (fn e r))"
  shows "adds P r0 (snd (WalkDir F root fn r0))"
  unfolding WalkDir_def using assms by (rule adds_walk)

section \<open>The tool stays in its directories\<close>

text \<open>
  What is relied on of the host: a walk reports names of directory entries, and the working directory is
  an absolute path.
\<close>

definition os_laws :: "'o os \<Rightarrow> bool" where
  "os_laws F \<longleftrightarrow> (\<forall>root s. \<forall>e \<in> set (os_Walk F root s). \<forall>n \<in> set (we_rel e). proper_elem n) \<and>
     (\<forall>s wd. os_Getwd F s = Inr wd \<longrightarrow> IsAbs wd)"

lemma foldl_PathJoin:
  assumes "IsAbs root" and "\<forall>n \<in> set ns. proper_elem n"
  shows "IsAbs (foldl PathJoin root ns)" and "path_elems (foldl PathJoin root ns) = path_elems root @ ns"
  using assms by (induction ns arbitrary: root) (simp_all add: PathJoin_abs PathJoin_proper)

lemma entry_path_elems:
  assumes "os_laws F" and "IsAbs root" and "e \<in> set (os_Walk F root s)"
  shows "IsAbs (entry_path root e)" and "path_elems (entry_path root e) = path_elems root @ we_rel e"
    and "\<forall>n \<in> set (we_rel e). proper_elem n"
proof -
  show n: "\<forall>n \<in> set (we_rel e). proper_elem n" using assms by (auto simp: os_laws_def)
  show "IsAbs (entry_path root e)" "path_elems (entry_path root e) = path_elems root @ we_rel e"
    using foldl_PathJoin [OF assms(2) n] by (simp_all add: entry_path_def)
qed

lemma entry_path_under:
  assumes "os_laws F" and "IsAbs root" and "e \<in> set (os_Walk F root s)"
  shows "path_under root (entry_path root e)"
  using entry_path_elems [OF assms] by (simp add: path_under_def)

lemma PathJoin_Join:
  assumes "IsAbs a" and "\<forall>t \<in> set ts. proper_elem t"
  shows "path_under a (PathJoin a (if ts = [] then ''.'' else Join ts ''/''))"
proof (cases "ts = []")
  case True
  then show ?thesis using assms(1) by (simp add: path_under_def PathJoin_abs PathJoin_elems)
next
  case False
  then have "Split (Join ts ''/'') (CHR ''/'') = ts"
    using assms(2) by (intro Split_Join) (auto simp: proper_elem_def)
  with False assms show ?thesis by (simp add: path_under_def PathJoin_abs PathJoin_elems clean_elems_proper)
qed

lemma pathIsConfined_under: "IsAbs root \<Longrightarrow> pathIsConfined p root = None \<Longrightarrow> path_under root p"
  by (auto simp: pathIsConfined_def split: sum.splits if_splits intro: Rel_confined)

lemma copyDir_adds:
  assumes "os_laws F" and "IsAbs src" and "IsAbs dst"
    and "\<And>p c. path_under dst p \<Longrightarrow> P (OWrite p c) \<and> P (OMkdir p)"
  shows "adds P r (snd (copyDir F src dst r))"
  unfolding copyDir_def
proof (rule adds_WalkDir)
  fix e r' assume e: "e \<in> set (os_Walk F src (run_os r))"
  note p = entry_path_elems [OF assms(1,2) e]
  define rel where "rel = (if we_rel e = [] then ''.'' else Join (we_rel e) ''/'')"
  have rel: "Rel src (entry_path src e) = Inr rel"
    unfolding rel_def by (rule Rel_down [OF assms(2) p(2,1)])
  have under: "path_under dst (PathJoin dst rel)"
    unfolding rel_def by (rule PathJoin_Join [OF assms(3) p(3)])
  show "adds P r' (snd (copyDir_fn F src dst e r'))"
    using assms(4) [OF under] by (auto simp: copyDir_fn_def rel intro!: adds_intro split: option.split sum.split)
qed

lemma applyGitRulesToKustomization_adds:
  assumes "\<And>c. P (OWrite path c)"
  shows "adds P r (snd (applyGitRulesToKustomization Y F path rules r))"
  using assms by (auto simp: applyGitRulesToKustomization_def intro: adds_refl adds_call_eqs(1)
      split: sum.split prod.split option.split)

lemma git_rules_fn_adds:
  assumes "\<And>c. P (OWrite (entry_path dir e) c)"
  shows "adds P r (snd (git_rules_fn Y F dir rules e r))"
  using applyGitRulesToKustomization_adds [of P "entry_path dir e" r Y F rules, OF assms]
  by (auto simp: git_rules_fn_def intro: adds_refl split: option.split prod.split sum.split)

lemma applyGitRules_adds:
  assumes "os_laws F" and "IsAbs dir" and "\<And>p c. path_under dir p \<Longrightarrow> P (OWrite p c)"
  shows "adds P r (snd (applyGitRules Y F dir cs r))"
proof (induction cs arbitrary: r)
  case (Cons c cs)
  define cdir where "cdir = PathJoin dir (Name c)"
  have "adds P r (snd (WalkDir F cdir (git_rules_fn Y F cdir (Git c)) r))" if "pathIsConfined cdir dir = None"
  proof (rule adds_WalkDir)
    fix e r' assume "e \<in> set (os_Walk F cdir (run_os r))"
    then have "path_under cdir (entry_path cdir e)"
      using assms(1,2) by (intro entry_path_under) (simp_all add: cdir_def PathJoin_abs)
    with pathIsConfined_under [OF assms(2) that] have "path_under dir (entry_path cdir e)"
      by (rule path_under_trans)
    then show "adds P r' (snd (git_rules_fn Y F cdir (Git c) e r'))" by (intro git_rules_fn_adds assms(3))
  qed
  with Cons show ?case
    by (auto simp: cdir_def Let_def intro!: adds_and_then adds_refl split: option.split sum.split)
qed (simp add: adds_refl)

lemma image_fn_adds:
  assumes "\<And>c. P (OWrite (entry_path root e) c)"
  shows "adds P r (snd (image_kustomization_fn Y F ovs root e r))"
    and "adds P r (snd (image_manifest_fn Y F ovs root e r))"
  using assms by (auto simp: image_kustomization_fn_def image_manifest_fn_def adds_intro
      intro!: adds_and_then split: option.split prod.split sum.split)

lemma applyImageOverrides_adds:
  assumes "os_laws F" and "IsAbs root" and "\<And>p c. path_under root p \<Longrightarrow> P (OWrite p c)"
  shows "adds P r (snd (applyImageOverridesInKustomizations Y F R root r))"
    and "adds P r (snd (applyImageOverridesInManifests Y F R root r))"
  unfolding applyImageOverridesInKustomizations_def applyImageOverridesInManifests_def
  by (auto intro!: adds_refl adds_WalkDir image_fn_adds assms(3) entry_path_under [OF assms(1,2)])

lemma rebuild_component_adds:
  assumes "IsAbs upstream" and "IsAbs manifests"
    and "\<And>p c. path_under manifests p \<Longrightarrow> P (OWrite p c) \<and> P (OMkdir p)"
    and "\<And>cmd. path_under upstream (last cmd) \<Longrightarrow> P (ORun cmd manifests)"
  shows "adds P r (snd (rebuild_component F upstream manifests c r))"
proof -
  define src where "src = PathJoin upstream c"
  define dest where "dest = PathJoin manifests c"
  have run: "P (ORun cmd manifests)" if "kustomizeBuildCommand F s src = Inr (cmd, label)"
    and "pathIsConfined src upstream = None" for s cmd label
    using that pathIsConfined_under [OF assms(1) that(2)]
    by (intro assms(4)) (auto simp: kustomizeBuildCommand_def split: if_splits)
  have dest: "P (OWrite (PathJoin dest ''manifests.yaml'') out) \<and> P (OMkdir dest)"
    if "pathIsConfined dest manifests = None" for out
  proof -
    have under: "path_under manifests dest" using pathIsConfined_under [OF assms(2) that] .
    moreover have "path_under dest (PathJoin dest ''manifests.yaml'')"
      using assms(2) by (intro PathJoin_under) (simp_all add: dest_def PathJoin_abs proper_elem_def)
    ultimately show ?thesis using assms(3) path_under_trans by blast
  qed
  have ran: "adds P r' r''" if "CombinedOutput F cmd manifests r' = (x, r'')"
    and "kustomizeBuildCommand F (run_os r') src = Inr (cmd, label)" "pathIsConfined src upstream = None"
    for cmd r' x r'' label
    using adds_call_eqs(2) [OF that(1)] run [OF that(2,3)] by blast
  have written: "adds P r' (snd (WriteFile F (PathJoin dest ''manifests.yaml'') out m r''))"
    if "adds P r' r''" "pathIsConfined dest manifests = None" for out m r' r''
    using dest [OF that(2)] by (intro adds_trans [OF that(1)] adds_calls) blast
  show ?thesis
    unfolding rebuild_component_def Let_def src_def [symmetric] dest_def [symmetric]
    by (auto simp: adds_intro dest intro!: adds_and_then adds_refl split: option.split prod.split sum.split)
       (blast intro: ran written)+
qed

lemma rebuildManifests_adds:
  assumes "IsAbs upstream" and "IsAbs manifests"
    and "\<And>p c. path_under manifests p \<Longrightarrow> P (OWrite p c) \<and> P (OMkdir p)"
    and "\<And>cmd. path_under upstream (last cmd) \<Longrightarrow> P (ORun cmd manifests)"
  shows "adds P r (snd (rebuildManifests F upstream manifests cs r))"
  by (induction cs arbitrary: r)
    (auto intro!: adds_refl adds_and_then rebuild_component_adds [OF assms(1,2)] assms(3,4))

text \<open>
  The events a runner may cause: writes in the temporary and the manifest directory, writes in the
  upstream directory only when there are no git rules, the removal of the temporary copy, and builds run
  in the manifest directory on a directory of the temporary copy.
\<close>

definition temp_upstream :: "Runner \<Rightarrow> string" where
  "temp_upstream R = PathJoin (TmpDir R) ''upstream-kustomizations''"

fun confined_event :: "Runner \<Rightarrow> os_event \<Rightarrow> bool" where
  "confined_event R (OWrite p c) \<longleftrightarrow> path_under (TmpDir R) p \<or> path_under (ManifestsDir R) p \<or>
     componentsWithGitRules R = [] \<and> path_under (UpstreamDir R) p"
| "confined_event R (OMkdir p) \<longleftrightarrow> path_under (TmpDir R) p \<or> path_under (ManifestsDir R) p"
| "confined_event R (ORemove p) \<longleftrightarrow> p = temp_upstream R"
| "confined_event R (ORun cmd dir) \<longleftrightarrow> dir = ManifestsDir R \<and> path_under (temp_upstream R) (last cmd)"

lemma Abs_abs: "os_laws F \<Longrightarrow> Abs F s p = Inr a \<Longrightarrow> IsAbs a"
  by (auto simp: Abs_def os_laws_def PathJoin_abs split: if_splits sum.splits)

lemma NewRunner_abs:
  assumes "os_laws F" and "NewRunner F s u m t cs = Inr R"
  shows "IsAbs (UpstreamDir R)" "IsAbs (ManifestsDir R)" "IsAbs (TmpDir R)" "Overrides_of R = cs"
    "validateOverrides cs = None"
  using assms by (auto simp: NewRunner_def dest: Abs_abs split: option.splits if_splits sum.splits)

lemma temp_upstream_under: "IsAbs (TmpDir R) \<Longrightarrow> path_under (TmpDir R) (temp_upstream R)"
  unfolding temp_upstream_def by (rule PathJoin_under) (simp_all add: proper_elem_def)

lemma Apply_adds:
  assumes "os_laws F" and "IsAbs (UpstreamDir R)" "IsAbs (ManifestsDir R)" "IsAbs (TmpDir R)"
  shows "adds (confined_event R) r (snd (Apply Y F R r))"
proof -
  note tmp = temp_upstream_under [OF assms(4)]
  then have abs: "IsAbs (temp_upstream R)" by (simp add: path_under_def)
  have start: "path_under (TmpDir R) (PathJoin (TmpDir R) ''component-sources.json'')"
    by (rule PathJoin_under [OF assms(4)]) (simp add: proper_elem_def)
  have copy: "adds (confined_event R) r (snd (copyDir F (UpstreamDir R) (temp_upstream R) r))" for r
    using tmp by (intro copyDir_adds [OF assms(1,2) abs]) (auto intro: path_under_trans)
  have git: "adds (confined_event R) r (snd (applyGitRules Y F (temp_upstream R) cs r))" for cs r
    using tmp by (intro applyGitRules_adds [OF assms(1) abs]) (auto intro: path_under_trans)
  have images: "adds (confined_event R) r (snd (applyImageOverridesInKustomizations Y F R
      (if componentsWithGitRules R \<noteq> [] then temp_upstream R else UpstreamDir R) r))" for r
    using tmp assms(2) abs by (intro applyImageOverrides_adds(1) [OF assms(1)]) (auto intro: path_under_trans split: if_splits)
  have build: "adds (confined_event R) r (snd (rebuildManifests F (temp_upstream R) (ManifestsDir R) cs r))" for cs r
    by (intro rebuildManifests_adds [OF abs assms(3)]) auto
  have manifests: "adds (confined_event R) r (snd (applyImageOverridesInManifests Y F R (ManifestsDir R) r))" for r
    by (intro applyImageOverrides_adds(2) [OF assms(1,3)]) auto
  have mkdir: "adds (confined_event R) r (snd (MkdirAll F (TmpDir R) (r\<lparr> applyStats := no_stats \<rparr>)))"
    using adds_calls(2) [of "confined_event R" "TmpDir R" "r\<lparr> applyStats := no_stats \<rparr>" F] path_under_refl [OF assms(4)]
    by simp
  show ?thesis
    unfolding Apply_def Let_def temp_upstream_def [symmetric] writeComponentSources_def
    by (intro adds_and_then adds_wrapping mkdir images manifests)
       (auto intro!: adds_and_then adds_wrapping copy git build adds_refl adds_calls start simp: start)
qed

section \<open>Validation accepts exactly the well-formed overrides\<close>

lemma Contains_iff: "Contains s t \<longleftrightarrow> (\<exists>a b. s = a @ t @ b)"
proof
  assume "Contains s t"
  then obtain i where "HasPrefix (drop i s) t" unfolding Contains_def list_ex_iff by blast
  then obtain b where "drop i s = t @ b" by (auto simp: HasPrefix_iff)
  then have "s = take i s @ t @ b" by (metis append_take_drop_id)
  then show "\<exists>a b. s = a @ t @ b" by blast
next
  assume "\<exists>a b. s = a @ t @ b"
  then obtain a b where s: "s = a @ t @ b" by blast
  then have "HasPrefix (drop (length a) s) t" by simp
  then show "Contains s t" using s by (auto simp: Contains_def list_ex_iff HasPrefix_def intro!: bexI [of _ "length a"])
qed

lemma Contains_char: "Contains s [c] \<longleftrightarrow> c \<in> set s"
  by (auto simp: Contains_iff in_set_conv_decomp)

lemma TrimSpace_Nil: "TrimSpace s = [] \<longleftrightarrow> (\<forall>c \<in> set s. is_space c)"
proof -
  have "TrimSpace s = [] \<longleftrightarrow> (\<forall>c \<in> set (dropWhile is_space s). is_space c)"
    unfolding TrimSpace_def rev_is_Nil_conv dropWhile_eq_Nil_conv set_rev ..
  also have "\<dots> \<longleftrightarrow> dropWhile is_space s = []"
    using hd_dropWhile [of is_space s] hd_in_set [of "dropWhile is_space s"]
    by (metis empty_iff list.set(1))
  finally show ?thesis unfolding dropWhile_eq_Nil_conv .
qed

text \<open>A repository reference without its decorations, and what makes it valid.\<close>

definition bare_repo :: "string \<Rightarrow> string" where
  "bare_repo s = TrimPrefix (TrimSpace (TrimSuffix (TrimSuffix s ''.git'') ''/'')) ''https://github.com/''"

definition valid_repo :: "string \<Rightarrow> bool" where
  "valid_repo s \<longleftrightarrow> (\<exists>org repo. bare_repo s = org @ ''/'' @ repo \<and> org \<noteq> [] \<and> repo \<noteq> [] \<and>
     CHR ''/'' \<notin> set org \<and> CHR ''/'' \<notin> set repo)"

lemma Split_two: "Split s c = [a, b] \<longleftrightarrow> s = a @ c # b \<and> c \<notin> set a \<and> c \<notin> set b"
proof
  assume "Split s c = [a, b]"
  then show "s = a @ c # b \<and> c \<notin> set a \<and> c \<notin> set b"
    using Join_Split [of s c] Split_elems [of _ s c] by auto
qed (auto simp: Split_append Split_no_sep)

lemma normalizeOrgRepo_Inr:
  "normalizeOrgRepo s f = Inr n \<longleftrightarrow> (\<exists>org repo. bare_repo s = org @ ''/'' @ repo \<and> org \<noteq> [] \<and> repo \<noteq> [] \<and>
     CHR ''/'' \<notin> set org \<and> CHR ''/'' \<notin> set repo \<and> n = ToLower (org @ ''/'' @ repo))"
proof -
  have "normalizeOrgRepo s f = Inr n \<longleftrightarrow> (\<exists>org repo. Split (bare_repo s) (CHR ''/'') = [org, repo] \<and>
      org \<noteq> [] \<and> repo \<noteq> [] \<and> n = ToLower (org @ ''/'' @ repo))"
    unfolding normalizeOrgRepo_def bare_repo_def Let_def
    by (auto split: list.split if_splits)
  then show ?thesis by (auto simp: Split_two)
qed

lemma normalizeOrgRepo_ok: "(\<exists>n. normalizeOrgRepo s f = Inr n) \<longleftrightarrow> valid_repo s"
  by (auto simp: normalizeOrgRepo_Inr valid_repo_def)

lemma normalizeOrgRepo_cases:
  "normalizeOrgRepo s f = Inl e \<Longrightarrow> \<not> valid_repo s"
  "normalizeOrgRepo s f = Inr n \<Longrightarrow> valid_repo s"
  using normalizeOrgRepo_ok [of s f] by auto

lemma TrimSuffix_set: "set (TrimSuffix s p) \<subseteq> set s"
  by (auto simp: TrimSuffix_def dest: in_set_takeD)

lemma valid_repo_nonblank: "valid_repo s \<Longrightarrow> TrimSpace s \<noteq> []"
proof
  assume v: "valid_repo s" and "TrimSpace s = []"
  then have "\<forall>c \<in> set (TrimSuffix (TrimSuffix s ''.git'') ''/''). is_space c"
    using TrimSuffix_set [of s] TrimSuffix_set [of "TrimSuffix s ''.git''"] unfolding TrimSpace_Nil by blast
  then have "TrimSpace (TrimSuffix (TrimSuffix s ''.git'') ''/'') = []" by (simp add: TrimSpace_Nil)
  then show False using v by (auto simp: valid_repo_def bare_repo_def TrimPrefix_def split: if_splits)
qed

definition valid_rule :: "GitRule \<Rightarrow> bool" where
  "valid_rule g \<longleftrightarrow> valid_repo (SourceRepo g) \<and>
     (case Remote g of
        Some rem \<Rightarrow> TrimSpace (LocalPath g) = [] \<and> valid_repo (Repo rem) \<and> TrimSpace (Ref rem) \<noteq> []
      | None \<Rightarrow> TrimSpace (LocalPath g) \<noteq> [])"

definition valid_image :: "ImageOverride \<Rightarrow> bool" where
  "valid_image img \<longleftrightarrow> TrimSpace (Orig img) \<noteq> [] \<and> TrimSpace (Replacement img) \<noteq> [] \<and>
     TrimSpace (fst (parseImageReference (Replacement img))) \<noteq> []"

definition valid_name :: "string \<Rightarrow> bool" where
  "valid_name n \<longleftrightarrow> safePathSegment n \<and> \<not> Contains n ''..''"

definition valid_override :: "ComponentOverride \<Rightarrow> bool" where
  "valid_override c \<longleftrightarrow> valid_name (TrimSpace (Name c)) \<and> (Git c \<noteq> [] \<or> Images c \<noteq> []) \<and>
     (\<forall>g \<in> set (Git c). valid_rule g) \<and> (\<forall>img \<in> set (Images c). valid_image img)"

lemma safePathSegment_chars:
  assumes "safePathSegment s"
  shows "CHR ''/'' \<notin> set s" and "backslash \<notin> set s" and "s \<noteq> ''.''" and "s \<noteq> ''..''" and "s \<noteq> []"
  using assms by (auto simp: safePathSegment_def list_all_iff is_alnum_def Let_def)

lemma validatePathSegment_None: "validatePathSegment n = None \<longleftrightarrow> valid_name n"
  using safePathSegment_chars [of n] by (auto simp: validatePathSegment_def valid_name_def Contains_char)

lemma first_error_None:
  "(case x of Some e \<Rightarrow> Some (f e) | None \<Rightarrow> y) = None \<longleftrightarrow> x = None \<and> y = None"
  "(if b then Some z else y) = None \<longleftrightarrow> \<not> b \<and> y = None"
  by (auto split: option.split)

lemma validate_git_None: "validate_git l j gs = None \<longleftrightarrow> (\<forall>g \<in> set gs. valid_rule g)"
proof (induction gs arbitrary: j)
  case (Cons g gs)
  have "validate_git l j (g # gs) = None \<longleftrightarrow> valid_rule g \<and> validate_git l (Suc j) gs = None"
    by (auto simp: valid_rule_def Let_def dest: valid_repo_nonblank normalizeOrgRepo_cases
        split: sum.split option.split)
  with Cons show ?case by simp
qed simp

lemma validate_images_None: "validate_images l j imgs = None \<longleftrightarrow> (\<forall>img \<in> set imgs. valid_image img)"
  by (induction imgs arbitrary: j) (auto simp: valid_image_def Let_def)

lemma validate_entries_None:
  "validate_entries i seen cs = None \<longleftrightarrow> (\<forall>c \<in> set cs. valid_override c \<and> TrimSpace (Name c) \<notin> set seen) \<and>
     distinct (map (\<lambda>c. TrimSpace (Name c)) cs)"
proof (induction cs arbitrary: i seen)
  case (Cons c cs)
  have "validate_entries i seen (c # cs) = None \<longleftrightarrow> valid_override c \<and> TrimSpace (Name c) \<notin> set seen \<and>
      validate_entries (Suc i) (TrimSpace (Name c) # seen) cs = None"
    unfolding validate_entries.simps Let_def first_error_None validatePathSegment_None
      validate_git_None validate_images_None valid_override_def valid_name_def
    using safePathSegment_chars(5) [of "TrimSpace (Name c)"] by blast
  then show ?case unfolding Cons.IH by (auto simp: image_iff simp del: validate_entries.simps)
qed simp

text \<open>A validated name is one directory below whatever root it is joined to, blanks around it included.\<close>

lemma TrimSpace_decomp: "\<exists>a b. s = a @ TrimSpace s @ b \<and> (\<forall>c \<in> set a \<union> set b. is_space c)"
proof -
  define t where "t = dropWhile is_space s"
  have "s = takeWhile is_space s @ t" by (simp add: t_def)
  moreover have "t = TrimSpace s @ rev (takeWhile is_space (rev t))"
    unfolding TrimSpace_def t_def [symmetric]
    by (metis rev_append rev_rev_ident takeWhile_dropWhile_id)
  ultimately have "s = takeWhile is_space s @ TrimSpace s @ rev (takeWhile is_space (rev t))" by simp
  moreover have "\<forall>c \<in> set (takeWhile is_space s) \<union> set (rev (takeWhile is_space (rev t))). is_space c"
    by (auto dest: set_takeWhileD)
  ultimately show ?thesis by blast
qed

lemma is_space_slash: "\<not> is_space (CHR ''/'')"
  by (simp add: is_space_def Let_def)

lemma valid_name_proper:
  assumes "valid_name (TrimSpace n)"
  shows "proper_elem n" and "\<not> HasPrefix n ''..''"
proof -
  obtain a b where n: "n = a @ TrimSpace n @ b" and sp: "\<forall>c \<in> set a \<union> set b. is_space c"
    using TrimSpace_decomp by blast
  have safe: "safePathSegment (TrimSpace n)" and dots: "\<not> Contains (TrimSpace n) ''..''"
    using assms by (auto simp: valid_name_def)
  obtain x xs where ts: "TrimSpace n = x # xs" and x: "is_alnum x"
    using safe by (cases "TrimSpace n") (auto simp: safePathSegment_def)
  have "is_space (hd n) \<or> is_alnum (hd n)"
    using n sp ts x by (cases a) (metis append_Nil list.sel(1) append_Cons, metis Un_iff append_Cons list.sel(1) list.set_intros(1))
  then have hd: "hd n \<noteq> CHR ''.''" by (auto simp: is_space_def is_alnum_def Let_def)
  have "CHR ''/'' \<notin> set n"
    using n sp safePathSegment_chars(1) [OF safe]
    by (metis (no_types, lifting) Un_iff is_space_slash set_append)
  with hd n ts show "proper_elem n" by (auto simp: proper_elem_def)
  from hd show "\<not> HasPrefix n ''..''" by (cases n) (auto simp: HasPrefix_def)
qed

lemma pathIsConfined_valid:
  assumes "IsAbs root" and "valid_name (TrimSpace n)"
  shows "pathIsConfined (PathJoin root n) root = None"
proof -
  note p = valid_name_proper [OF assms(2)]
  have "Rel root (PathJoin root n) = Inr n"
    using Rel_down [OF assms(1) PathJoin_proper [OF assms(1) p(1)] PathJoin_abs [OF assms(1)]] by simp
  with p(2) show ?thesis by (simp add: pathIsConfined_def)
qed

text \<open>
  (C20) \<open>validateOverrides\<close> accepts a list exactly when it is not empty, the component names (blanks
  trimmed) are pairwise different, and every entry is well formed: its name is a single safe path
  segment, it has git rules or images, every git rule names its source as \<open>org/repo\<close> and has exactly one
  of a remote (with repository and ref) and a local path, and every image override has an original and a
  replacement with a name.
\<close>

theorem validateOverrides_iff:
  "validateOverrides cs = None \<longleftrightarrow>
     cs \<noteq> [] \<and> distinct (map (\<lambda>c. TrimSpace (Name c)) cs) \<and> list_all valid_override cs"
  by (auto simp: validateOverrides_def validate_entries_None list_all_iff)

text \<open>
  (C19) Whatever the host answers and whatever the YAML packages and the build command produce, a run of
  the tool on a runner made by \<open>NewRunner\<close> writes only in the temporary directory and the manifest
  directory, in the upstream directory only when no component has git rules, removes nothing but its own
  copy of the upstream directory, and builds only directories of that copy. All paths are compared after
  resolving \<open>.\<close> and \<open>..\<close>.
\<close>

theorem Apply_stays_confined:
  assumes "os_laws F" and "NewRunner F s upstreamDir manifestsDir tmpDir overrides = Inr R"
    and "Apply Y F R r = (err, r')"
  shows "\<exists>es. run_trace r' = run_trace r @ es \<and> list_all (confined_event R) es"
proof -
  note abs = NewRunner_abs [OF assms(1,2)]
  from Apply_adds [OF assms(1) abs(1-3), of r Y] assms(3) show ?thesis by (simp add: adds_def)
qed

section \<open>A host in memory\<close>

text \<open>
  Files by path; a walk lists the files below the root by their names, directories are not listed. Used
  to show that the laws can hold and to run the tool on an example.
\<close>

definition mem_entry :: "string \<Rightarrow> string \<Rightarrow> walk_entry" where
  "mem_entry root p = \<lparr> we_rel = filter proper_elem (Split (drop (length root + 1) p) (CHR ''/'')),
     we_isDir = False, we_err = None, we_mode = Some 420 \<rparr>"

definition mem_os :: "smap os" where
  "mem_os = \<lparr> os_Getwd = (\<lambda>s. Inr ''/work''),
     os_ReadFile = (\<lambda>p s. case map_of s p of None \<Rightarrow> Inl (NewError ''no such file'') | Some c \<Rightarrow> Inr c),
     os_Stat_IsDir = (\<lambda>p s. if list_ex (\<lambda>q. HasPrefix q (p @ ''/'')) (map fst s) then Inr True
        else if map_of s p \<noteq> None then Inr False else Inl (NewError ''no such file'')),
     os_Walk = (\<lambda>root s. map (mem_entry root) (filter (\<lambda>q. HasPrefix q (root @ ''/'')) (map fst s))),
     os_LookPath = (\<lambda>c s. c = ''kubectl''),
     os_WriteFile = (\<lambda>p c m s. (None, AList.update p c s)),
     os_MkdirAll = (\<lambda>p s. (None, s)),
     os_RemoveAll = (\<lambda>p s. (None, filter (\<lambda>(q, c). \<not> HasPrefix q (p @ ''/'')) s)),
     os_CombinedOutput = (\<lambda>cmd dir s. ((None, ''image: quay.io/org/app''), s)) \<rparr>"

lemma mem_os_laws: "os_laws mem_os"
  by (auto simp: os_laws_def mem_os_def mem_entry_def IsAbs_def HasPrefix_def)

definition ex_overrides :: "ComponentOverride list" where
  "ex_overrides = [\<lparr> Name = ''app'',
     Git = [\<lparr> SourceRepo = ''https://github.com/Org/App.git'', Remote = Some \<lparr> Repo = ''fork/app'', Ref = ''main'' \<rparr>,
              LocalPath = [] \<rparr>],
     Images = [\<lparr> Orig = ''quay.io/org/app'', Replacement = ''quay.io/fork/app:pr1'' \<rparr>] \<rparr>]"

definition ex_runner :: Runner where
  "ex_runner = \<lparr> UpstreamDir = ''/up'', ManifestsDir = ''/work/out'', TmpDir = ''/tmp/x'', Overrides_of = ex_overrides \<rparr>"

definition ex_yaml :: yaml_lib where
  "ex_yaml = \<lparr>
     y_Unmarshal = (\<lambda>c. Inr [(''resources'', JArray [JString ''https://github.com/org/app/config?ref=v1'', JString ''local'']),
       (''images'', JArray [JObject [(''name'', JString ''quay.io/org/app''), (''digest'', JString ''sha256:00'')]])]),
     y_Marshal = (\<lambda>k. Inr ''kustomization''), y_Overrides = (\<lambda>c. Inr ex_overrides),
     y_Decode = (\<lambda>c. [Inr (Node ScalarNode ''!!str'' ''quay.io/org/app:v1'' JNull [])]),
     y_Encode = (\<lambda>ds. Inr ''manifests'') \<rparr>"

definition ex_run :: "smap run" where
  "ex_run = \<lparr> run_os = [(''/up/app/core/kustomization.yaml'', ''k''), (''/up/other/x.yaml'', ''x'')],
     run_trace = [], applyStats = no_stats \<rparr>"

lemma ex_NewRunner: "NewRunner mem_os (run_os ex_run) ''/up/'' ''out'' ''/tmp/./x'' ex_overrides = Inr ex_runner"
  by code_simp

lemma ex_Apply: "fst (Apply ex_yaml mem_os ex_runner ex_run) = None \<and>
   applyStats (snd (Apply ex_yaml mem_os ex_runner ex_run)) = \<lparr> GitKustomizationsUpdated = 1, KustomizationImagesPatched = 1,
     ManifestYAMLsImageTextReplaced = 1, ComponentsRebuilt = 1 \<rparr>"
  by code_simp

theorem Apply_stays_confined_witness:
  "os_laws mem_os \<and> NewRunner mem_os (run_os ex_run) ''/up/'' ''out'' ''/tmp/./x'' ex_overrides = Inr ex_runner \<and>
   applyStats (snd (Apply ex_yaml mem_os ex_runner ex_run)) = \<lparr> GitKustomizationsUpdated = 1, KustomizationImagesPatched = 1,
     ManifestYAMLsImageTextReplaced = 1, ComponentsRebuilt = 1 \<rparr> \<and>
   (\<exists>es. run_trace (snd (Apply ex_yaml mem_os ex_runner ex_run)) = run_trace ex_run @ es \<and>
      list_all (confined_event ex_runner) es)"
  using mem_os_laws ex_NewRunner ex_Apply
    Apply_stays_confined [OF mem_os_laws ex_NewRunner surjective_pairing [of "Apply ex_yaml mem_os ex_runner ex_run"]]
  by blast

section \<open>GitHub URLs\<close>

lemma takeWhile_sep: "c \<notin> set a \<Longrightarrow> takeWhile (\<lambda>x. x \<noteq> c) (a @ c # b) = a"
  "c \<notin> set a \<Longrightarrow> dropWhile (\<lambda>x. x \<noteq> c) (a @ c # b) = c # b"
  by (induction a) auto

lemma split_at_sep:
  assumes "dropWhile (\<lambda>x. x \<noteq> c) s \<noteq> []"
  shows "s = takeWhile (\<lambda>x. x \<noteq> c) s @ c # tl (dropWhile (\<lambda>x. x \<noteq> c) s)" and "c \<notin> set (takeWhile (\<lambda>x. x \<noteq> c) s)"
proof -
  have "dropWhile (\<lambda>x. x \<noteq> c) s = c # tl (dropWhile (\<lambda>x. x \<noteq> c) s)"
    using assms hd_dropWhile [OF assms] by (cases "dropWhile (\<lambda>x. x \<noteq> c) s") auto
  then show "s = takeWhile (\<lambda>x. x \<noteq> c) s @ c # tl (dropWhile (\<lambda>x. x \<noteq> c) s)"
    by (metis takeWhile_dropWhile_id)
  show "c \<notin> set (takeWhile (\<lambda>x. x \<noteq> c) s)" by (auto dest: set_takeWhileD)
qed

definition ref_query :: "string \<Rightarrow> bool" where
  "ref_query q \<longleftrightarrow> q = [] \<or> (\<exists>ref. q = ''?ref='' @ ref \<and> CHR ''&'' \<notin> set ref)"

lemma ref_query_iff: "ref_query q \<longleftrightarrow> q = [] \<or> HasPrefix q ''?ref='' \<and> CHR ''&'' \<notin> set (drop (length ''?ref='') q)"
  by (auto simp: ref_query_def HasPrefix_iff)

text \<open>\<open>githubURLParts\<close> accepts exactly the URLs of the regular expression, and there is one way to match.\<close>

lemma githubURLParts_complete:
  assumes "org \<noteq> []" "repo \<noteq> []" "CHR ''/'' \<notin> set org" "CHR ''/'' \<notin> set repo" "p \<noteq> []" "CHR ''?'' \<notin> set p" "ref_query q"
  shows "githubURLParts (''https://github.com/'' @ org @ ''/'' @ repo @ ''/'' @ p @ q) = Some (ToLower (org @ ''/'' @ repo), ''/'' @ p)"
proof -
  have r1: "takeWhile (\<lambda>c. c \<noteq> CHR ''/'') (org @ CHR ''/'' # repo @ CHR ''/'' # p @ q) = org"
    "dropWhile (\<lambda>c. c \<noteq> CHR ''/'') (org @ CHR ''/'' # repo @ CHR ''/'' # p @ q) = CHR ''/'' # repo @ CHR ''/'' # p @ q"
    using assms(3) by (simp_all add: takeWhile_sep)
  have r2: "takeWhile (\<lambda>c. c \<noteq> CHR ''/'') (repo @ CHR ''/'' # p @ q) = repo"
    "dropWhile (\<lambda>c. c \<noteq> CHR ''/'') (repo @ CHR ''/'' # p @ q) = CHR ''/'' # p @ q"
    using assms(4) by (simp_all add: takeWhile_sep)
  have r3: "takeWhile (\<lambda>c. c \<noteq> CHR ''?'') (p @ q) = p" "dropWhile (\<lambda>c. c \<noteq> CHR ''?'') (p @ q) = q"
    using assms(6,7) by (auto simp: ref_query_def takeWhile_sep takeWhile_eq_all_conv dropWhile_eq_Nil_conv)
  show ?thesis
    unfolding githubURLParts_def Let_def
    using assms(1,2,5,7) by (simp add: HasPrefix_def r1 r2 r3 ref_query_iff)
qed

lemma githubURLParts_sound:
  assumes "githubURLParts u = Some (orgRepo, suffix)"
  obtains org repo p q where "u = ''https://github.com/'' @ org @ ''/'' @ repo @ ''/'' @ p @ q"
    "org \<noteq> []" "repo \<noteq> []" "CHR ''/'' \<notin> set org" "CHR ''/'' \<notin> set repo" "p \<noteq> []" "CHR ''?'' \<notin> set p" "ref_query q"
    "orgRepo = ToLower (org @ ''/'' @ repo)" "suffix = ''/'' @ p"
proof -
  define r where "r = drop (length ''https://github.com/'') u"
  define r1 where "r1 = dropWhile (\<lambda>c. c \<noteq> CHR ''/'') r"
  define r2 where "r2 = dropWhile (\<lambda>c. c \<noteq> CHR ''/'') (tl r1)"
  define org where "org = takeWhile (\<lambda>c. c \<noteq> CHR ''/'') r"
  define repo where "repo = takeWhile (\<lambda>c. c \<noteq> CHR ''/'') (tl r1)"
  define p where "p = takeWhile (\<lambda>c. c \<noteq> CHR ''?'') (tl r2)"
  define q where "q = dropWhile (\<lambda>c. c \<noteq> CHR ''?'') (tl r2)"
  have pre: "HasPrefix u ''https://github.com/''" using assms by (auto simp: githubURLParts_def split: if_splits)
  have "if org \<noteq> [] \<and> r1 \<noteq> [] \<and> repo \<noteq> [] \<and> r2 \<noteq> [] \<and> p \<noteq> [] \<and> ref_query q
      then orgRepo = ToLower (org @ ''/'' @ repo) \<and> suffix = ''/'' @ p else False"
    using assms pre unfolding githubURLParts_def Let_def r_def [symmetric] r1_def [symmetric] r2_def [symmetric]
      org_def [symmetric] repo_def [symmetric] p_def [symmetric] q_def [symmetric] ref_query_iff
    by (simp split: if_splits)
  then have c: "org \<noteq> []" "r1 \<noteq> []" "repo \<noteq> []" "r2 \<noteq> []" "p \<noteq> []" "ref_query q"
    "orgRepo = ToLower (org @ ''/'' @ repo)" "suffix = ''/'' @ p" by (simp_all split: if_splits)
  have "u = ''https://github.com/'' @ r" using pre by (auto simp: HasPrefix_iff r_def)
  moreover have "r = org @ CHR ''/'' # tl r1" "CHR ''/'' \<notin> set org"
    using split_at_sep [of "CHR ''/''" r] c(2) by (simp_all add: org_def r1_def)
  moreover have "tl r1 = repo @ CHR ''/'' # tl r2" "CHR ''/'' \<notin> set repo"
    using split_at_sep [of "CHR ''/''" "tl r1"] c(4) by (simp_all add: repo_def r2_def)
  moreover have "tl r2 = p @ q" "CHR ''?'' \<notin> set p"
    by (auto simp: p_def q_def dest: set_takeWhileD)
  ultimately show thesis using c that [of org repo p q] by simp
qed

text \<open>What a successful step over one resource did.\<close>

lemma rewrite_resource_cases:
  assumes "rewrite_resource F s path rules rv = Inr (rv', m)"
  obtains (kept) "rv' = rv" "m = None"
  | (remote) u orgRepo suffix rule rem remoteRepo where "rv = JString u" "githubURLParts u = Some (orgRepo, suffix)"
      "firstMatchingRule orgRepo rules = Some rule" "Remote rule = Some rem"
      "normalizeOrgRepo (Repo rem) ''remote.repo'' = Inr remoteRepo"
      "rv' = JString (remote_url remoteRepo suffix (Ref rem))" "m = Some (Ref rem, orgRepo)"
  | (local) u orgRepo suffix rule rel where "rv = JString u" "githubURLParts u = Some (orgRepo, suffix)"
      "firstMatchingRule orgRepo rules = Some rule" "Remote rule = None" "TrimSpace (LocalPath rule) \<noteq> []"
      "os_Stat_IsDir F (PathJoin (Clean (LocalPath rule)) (TrimPrefix suffix ''/'')) s = Inr True"
      "Rel (Dir path) (PathJoin (Clean (LocalPath rule)) (TrimPrefix suffix ''/'')) = Inr rel"
      "rv' = JString rel" "m = None"
  using assms unfolding rewrite_resource_def Let_def
  by (auto split: json.splits if_splits option.splits prod.splits sum.splits bool.splits)

lemma ToLower_slash: "ToLower (CHR ''/'' # s) = CHR ''/'' # ToLower s"
  by (simp add: ToLower_def is_upper_def)

lemma remote_url_parts:
  assumes "githubURLParts u = Some (orgRepo, suffix)" and "normalizeOrgRepo s f = Inr remoteRepo"
    and "CHR ''&'' \<notin> set ref"
  shows "githubURLParts (remote_url remoteRepo suffix ref) = Some (remoteRepo, suffix)"
proof -
  obtain p where p: "suffix = ''/'' @ p" "p \<noteq> []" "CHR ''?'' \<notin> set p"
    by (rule githubURLParts_sound [OF assms(1)]) blast
  obtain org repo where or: "org \<noteq> []" "repo \<noteq> []" "CHR ''/'' \<notin> set org" "CHR ''/'' \<notin> set repo"
    "remoteRepo = ToLower org @ ''/'' @ ToLower repo"
    using assms(2) by (auto simp: normalizeOrgRepo_Inr ToLower_def is_upper_def)
  have "ref_query (''?ref='' @ ref)" using assms(3) by (auto simp: ref_query_def)
  with p or show ?thesis
    using githubURLParts_complete [of "ToLower org" "ToLower repo" p "''?ref='' @ ref"]
    by (simp add: remote_url_def ToLower_sep is_upper_def ToLower_slash)
qed

text \<open>
  (C22) A remote rule changes the repository and the ref of a GitHub URL and nothing else: the new
  resource is again a GitHub URL for the same directory, now in the rule's repository and with its ref,
  provided the ref contains no \<open>&\<close> (which \<open>githubURLParts\<close> refuses).
\<close>

theorem rewritten_url_roundtrip:
  assumes "rewrite_resource F s path rules (JString u) = Inr (JString u', Some (ref, orgRepo))"
    and "CHR ''&'' \<notin> set ref"
  shows "\<exists>suffix rule remoteRepo. githubURLParts u = Some (orgRepo, suffix) \<and>
    firstMatchingRule orgRepo rules = Some rule \<and> map_option Ref (Remote rule) = Some ref \<and>
    map_option (\<lambda>rem. normalizeOrgRepo (Repo rem) ''remote.repo'') (Remote rule) = Some (Inr remoteRepo) \<and>
    githubURLParts u' = Some (remoteRepo, suffix) \<and> HasSuffix u' (''?ref='' @ ref)"
  using assms(1)
proof (cases rule: rewrite_resource_cases)
  case (remote v o' suffix rule rem remoteRepo)
  with assms(2) remote_url_parts [OF remote(2) remote(5), of ref] show ?thesis
    by (auto simp: remote_url_def HasSuffix_iff)
qed simp_all

theorem rewritten_url_roundtrip_witness:
  "rewrite_resource mem_os [] ''/up/app/kustomization.yaml'' (concat (map Git ex_overrides))
     (JString ''https://github.com/ORG/app/config/crd?ref=v1'') =
     Inr (JString ''https://github.com/fork/app/config/crd?ref=main'', Some (''main'', ''org/app'')) \<and>
   (\<exists>suffix rule remoteRepo. githubURLParts ''https://github.com/ORG/app/config/crd?ref=v1'' = Some (''org/app'', suffix) \<and>
    firstMatchingRule ''org/app'' (concat (map Git ex_overrides)) = Some rule \<and> map_option Ref (Remote rule) = Some ''main'' \<and>
    map_option (\<lambda>rem. normalizeOrgRepo (Repo rem) ''remote.repo'') (Remote rule) = Some (Inr remoteRepo) \<and>
    githubURLParts ''https://github.com/fork/app/config/crd?ref=main'' = Some (remoteRepo, suffix) \<and>
    HasSuffix ''https://github.com/fork/app/config/crd?ref=main'' (''?ref='' @ ''main''))"
proof -
  have e: "rewrite_resource mem_os [] ''/up/app/kustomization.yaml'' (concat (map Git ex_overrides))
     (JString ''https://github.com/ORG/app/config/crd?ref=v1'') =
     Inr (JString ''https://github.com/fork/app/config/crd?ref=main'', Some (''main'', ''org/app''))"
    by code_simp
  have "CHR ''&'' \<notin> set ''main''" by simp
  from rewritten_url_roundtrip [OF e this] e show ?thesis by blast
qed

section \<open>What the git rules touch\<close>

lemma rewrite_resources_nth:
  assumes "rewrite_resources F s path rules rvs = Inr (rvs', ms)"
  shows "length rvs' = length rvs \<and>
    (\<forall>i < length rvs. \<exists>m. rewrite_resource F s path rules (rvs ! i) = Inr (rvs' ! i, m)) \<and>
    (\<forall>x \<in> set ms. \<exists>rv \<in> set rvs. \<exists>rv'. rewrite_resource F s path rules rv = Inr (rv', Some x))"
  using assms
proof (induction rvs arbitrary: rvs' ms)
  case (Cons rv rvs)
  then obtain rv' m rs' ms' where step: "rewrite_resource F s path rules rv = Inr (rv', m)"
    and rest: "rewrite_resources F s path rules rvs = Inr (rs', ms')"
    and out: "rvs' = rv' # rs'" "ms = (case m of None \<Rightarrow> [] | Some x \<Rightarrow> [x]) @ ms'"
    by (auto split: sum.splits prod.splits)
  from Cons.IH [OF rest] step show ?case
    unfolding out by (auto simp: nth_Cons split: nat.splits option.splits)
qed simp

definition rule_matches :: "GitRule list \<Rightarrow> json \<Rightarrow> bool" where
  "rule_matches rules rv \<longleftrightarrow> (case rv of JString u \<Rightarrow>
     (case githubURLParts u of None \<Rightarrow> False | Some (orgRepo, suffix) \<Rightarrow> firstMatchingRule orgRepo rules \<noteq> None)
   | _ \<Rightarrow> False)"

text \<open>An image entry whose tag may be bumped: its name ends in the repository of a resource moved to a remote.\<close>

definition tag_follows :: "GitRule list \<Rightarrow> json list \<Rightarrow> yaml_map \<Rightarrow> bool" where
  "tag_follows rules resources im \<longleftrightarrow> map_of im ''newTag'' \<noteq> None \<and> (\<exists>u orgRepo suffix rule rem.
     JString u \<in> set resources \<and> githubURLParts u = Some (orgRepo, suffix) \<and>
     firstMatchingRule orgRepo rules = Some rule \<and> Remote rule = Some rem \<and>
     imageRefMatchesOrgRepo (imageNameFromMap im) orgRepo)"

definition bumped :: "yaml_map \<Rightarrow> json \<Rightarrow> bool" where
  "bumped im iv' \<longleftrightarrow> (\<exists>im' ref. iv' = JObject im' \<and> map_of im' = (map_of im)(''newTag'' \<mapsto> JString ref))"

lemma rewrite_resource_kept: "rewrite_resource F s path rules rv = Inr (rv', m) \<Longrightarrow> \<not> rule_matches rules rv \<Longrightarrow> rv' = rv"
  by (erule rewrite_resource_cases) (auto simp: rule_matches_def)

lemma bump_tag_cases:
  assumes "list_ex (imageRefMatchesOrgRepo (imageNameFromMap im)) repos \<Longrightarrow> map_of im ''newTag'' \<noteq> None \<Longrightarrow> Q"
  shows "fst (bump_tag repos ref (JObject im)) = JObject im \<or> Q \<and> bumped im (fst (bump_tag repos ref (JObject im)))"
  using assms by (auto simp: bump_tag_def bumped_def update_conv')

lemma bump_tag_other: "(\<nexists>im. iv = JObject im) \<Longrightarrow> fst (bump_tag repos ref iv) = iv"
  by (cases iv) (auto simp: bump_tag_def)

lemma bump_tag_unchanged: "\<not> snd (bump_tag repos ref iv) \<Longrightarrow> fst (bump_tag repos ref iv) = iv"
  by (cases iv) (auto simp: bump_tag_def)

lemma matched_tag_follows:
  assumes "rewrite_resources F s path rules rs = Inr (rs', ms)"
    and "list_ex (imageRefMatchesOrgRepo (imageNameFromMap im)) (remdups (map snd ms))" and "map_of im ''newTag'' \<noteq> None"
  shows "tag_follows rules rs im"
proof -
  from assms(2) obtain ref orgRepo where m: "(ref, orgRepo) \<in> set ms" "imageRefMatchesOrgRepo (imageNameFromMap im) orgRepo"
    by (auto simp: list_ex_iff)
  then obtain rv rv' where rv: "rv \<in> set rs" "rewrite_resource F s path rules rv = Inr (rv', Some (ref, orgRepo))"
    using rewrite_resources_nth [OF assms(1)] by blast
  from rv(2) show ?thesis
  proof (cases rule: rewrite_resource_cases)
    case (remote u o' suffix rule rem remoteRepo)
    with rv(1) m(2) assms(3) show ?thesis by (auto simp: tag_follows_def)
  qed simp_all
qed

text \<open>The document after the resource loop, and after the image loop.\<close>

lemma git_rules_doc_eq:
  assumes "git_rules_doc F s path rules k = Inr (k', updated)" and "map_of k ''resources'' = Some (JArray rs)"
  obtains rs' ms k1 where "rewrite_resources F s path rules rs = Inr (rs', ms)"
    "k1 = (if rs' \<noteq> rs then AList.update ''resources'' (JArray rs') k else k)"
    "(k', updated) = (k1, rs' \<noteq> rs) \<or> (\<exists>ims ref. map_of k1 ''images'' = Some (JArray ims) \<and> updated \<and>
       k' = AList.update ''images'' (JArray (map (\<lambda>iv. fst (bump_tag (remdups (map snd ms)) ref iv)) ims)) k1)"
proof -
  obtain rs' ms where rw: "rewrite_resources F s path rules rs = Inr (rs', ms)"
    using assms by (auto simp: git_rules_doc_def split: sum.splits)
  show thesis
    by (rule that [OF rw refl])
      (use assms rw in \<open>auto simp: git_rules_doc_def Let_def comp_def split: if_splits option.splits json.splits\<close>)
qed

text \<open>
  (C21) The git rules touch only what they match. In a kustomization the other keys stay as they are; a
  resource changes only if it is a GitHub URL whose repository has a rule; an image entry changes only in
  its \<open>newTag\<close>, and only if it had one and its name ends in the repository of a resource that moved to a
  remote. When the document is not marked as updated it is unchanged.
\<close>

theorem git_rules_touch_only_matches:
  assumes "git_rules_doc F s path rules k = Inr (k', updated)" and "map_of k ''resources'' = Some (JArray rs)"
  shows "(\<not> updated \<longrightarrow> k' = k) \<and> (\<forall>key. key \<noteq> ''resources'' \<and> key \<noteq> ''images'' \<longrightarrow> map_of k' key = map_of k key) \<and>
    (\<exists>rs'. map_of k' ''resources'' = Some (JArray rs') \<and>
       list_all2 (\<lambda>rv rv'. rv' = rv \<or> rule_matches rules rv) rs rs') \<and>
    (\<forall>ims. map_of k ''images'' = Some (JArray ims) \<longrightarrow> (\<exists>ims'. map_of k' ''images'' = Some (JArray ims') \<and>
       list_all2 (\<lambda>iv iv'. iv' = iv \<or> (\<exists>im. iv = JObject im \<and> tag_follows rules rs im \<and> bumped im iv')) ims ims'))"
proof -
  obtain rs' ms k1 where rw: "rewrite_resources F s path rules rs = Inr (rs', ms)"
    and k1: "k1 = (if rs' \<noteq> rs then AList.update ''resources'' (JArray rs') k else k)"
    and out: "(k', updated) = (k1, rs' \<noteq> rs) \<or> (\<exists>ims ref. map_of k1 ''images'' = Some (JArray ims) \<and> updated \<and>
       k' = AList.update ''images'' (JArray (map (\<lambda>iv. fst (bump_tag (remdups (map snd ms)) ref iv)) ims)) k1)"
    by (rule git_rules_doc_eq [OF assms])
  have res: "list_all2 (\<lambda>rv rv'. rv' = rv \<or> rule_matches rules rv) rs rs'"
    using rewrite_resources_nth [OF rw] by (auto simp: list_all2_conv_all_nth dest!: spec dest: rewrite_resource_kept)
  have img: "iv' = iv \<or> (\<exists>im. iv = JObject im \<and> tag_follows rules rs im \<and> bumped im iv')"
    if "iv' = fst (bump_tag (remdups (map snd ms)) ref iv)" for iv iv' ref
  proof (cases "\<exists>im. iv = JObject im")
    case True
    then obtain im where "iv = JObject im" by blast
    then show ?thesis
      using that bump_tag_cases [of im "remdups (map snd ms)" "tag_follows rules rs im" ref]
        matched_tag_follows [OF rw, of im] by auto
  qed (use that bump_tag_other in blast)
  have "map_of k1 ''images'' = map_of k ''images''" "map_of k1 ''resources'' = Some (JArray rs')"
    "\<forall>key. key \<noteq> ''resources'' \<longrightarrow> map_of k1 key = map_of k key"
    using assms(2) by (auto simp: k1 update_conv')
  moreover have "\<not> updated \<longrightarrow> k' = k" using out k1 by auto
  ultimately show ?thesis
    using out res img by (auto simp: update_conv' list_all2_conv_all_nth)
qed

definition ex_doc :: yaml_map where
  "ex_doc = [(''kind'', JString ''Kustomization''),
     (''resources'', JArray [JString ''https://github.com/org/app/config?ref=v1'', JString ''https://github.com/org/lib/x?ref=v1'']),
     (''images'', JArray [JObject [(''name'', JString ''quay.io/org/app''), (''newTag'', JString ''v1'')],
        JObject [(''name'', JString ''quay.io/org/lib''), (''newTag'', JString ''v1'')]])]"

definition ex_doc' :: yaml_map where
  "ex_doc' = [(''kind'', JString ''Kustomization''),
     (''resources'', JArray [JString ''https://github.com/fork/app/config?ref=main'', JString ''https://github.com/org/lib/x?ref=v1'']),
     (''images'', JArray [JObject [(''name'', JString ''quay.io/org/app''), (''newTag'', JString ''main'')],
        JObject [(''name'', JString ''quay.io/org/lib''), (''newTag'', JString ''v1'')]])]"

theorem git_rules_touch_only_matches_witness:
  "git_rules_doc mem_os [] ''/up/app/kustomization.yaml'' (concat (map Git ex_overrides)) ex_doc = Inr (ex_doc', True) \<and>
   map_of ex_doc' ''kind'' = map_of ex_doc ''kind'' \<and>
   (\<exists>rs'. map_of ex_doc' ''resources'' = Some (JArray rs') \<and> list_all2 (\<lambda>rv rv'. rv' = rv \<or>
      rule_matches (concat (map Git ex_overrides)) rv)
      [JString ''https://github.com/org/app/config?ref=v1'', JString ''https://github.com/org/lib/x?ref=v1''] rs')"
proof -
  have doc: "git_rules_doc mem_os [] ''/up/app/kustomization.yaml'' (concat (map Git ex_overrides)) ex_doc = Inr (ex_doc', True)"
    by code_simp
  have rs: "map_of ex_doc ''resources'' = Some (JArray [JString ''https://github.com/org/app/config?ref=v1'',
      JString ''https://github.com/org/lib/x?ref=v1''])" by code_simp
  note all = git_rules_touch_only_matches [OF doc rs]
  have "map_of ex_doc' ''kind'' = map_of ex_doc ''kind''"
    by (rule all [THEN conjunct2, THEN conjunct1, rule_format]) simp
  then show ?thesis using doc all [THEN conjunct2, THEN conjunct2, THEN conjunct1] by (intro conjI)
qed

section \<open>Image references\<close>

text \<open>
  How kustomize writes an image entry back as a reference: name, then digest or tag. A bare name gets the
  tag \<open>latest\<close>.
\<close>

definition image_reference :: "string \<times> string \<times> string \<Rightarrow> string" where
  "image_reference ntd = (case ntd of (n, t, d) \<Rightarrow> if d \<noteq> [] then n @ ''@'' @ d else n @ '':'' @ t)"

lemma isOCIImageDigest_nonempty: "isOCIImageDigest s \<Longrightarrow> s \<noteq> []"
  by (auto simp: isOCIImageDigest_def HasPrefix_def)

lemma parse_at:
  assumes "TrimSpace s = n @ CHR ''@'' # rest" and "CHR ''@'' \<notin> set n"
  shows "parseImageReference s = (if isOCIImageDigest rest then (n, [], rest) else (n, rest, []))"
  using Index_append [OF assms(2), of rest]
  by (simp add: parseImageReference_def assms(1) nat_add_distrib)

lemma LastIndex_sep: "c \<notin> set t \<Longrightarrow> LastIndex (n @ c # t) c = int (length n)"
  using LastIndex_append [of "n @ [c]" t c] LastIndex_append [of n "[c]" c] LastIndex_none [of t c] by simp

lemma parse_colon:
  assumes "TrimSpace s = n @ CHR '':'' # t" and "CHR ''@'' \<notin> set n" "CHR ''@'' \<notin> set t"
    and "CHR '':'' \<notin> set t" "CHR ''/'' \<notin> set t"
  shows "parseImageReference s = (n, t, [])"
proof -
  have "LastIndex (n @ CHR '':'' # t) (CHR ''/'') = LastIndex n (CHR ''/'')"
    using assms(5) LastIndex_append [of n "CHR '':'' # t" "CHR ''/''"] by simp
  then have "LastIndex (n @ CHR '':'' # t) (CHR ''/'') < int (length n)" using LastIndex_less [of n "CHR ''/''"] by simp
  with LastIndex_sep [OF assms(4), of n] assms show ?thesis
    by (simp add: parseImageReference_def Index_none nat_add_distrib)
qed

lemma dropWhile_blanks:
  assumes "\<forall>c \<in> set pre. P c" and "s \<noteq> []" and "\<not> P (hd s)"
  shows "dropWhile P (pre @ s @ t) = s @ t"
  using assms by (subst dropWhile_append2) (auto simp: neq_Nil_conv)

lemma TrimSpace_blanks:
  assumes "\<forall>c \<in> set pre \<union> set post. is_space c" and "s \<noteq> []" "\<not> is_space (hd s)" "\<not> is_space (last s)"
  shows "TrimSpace (pre @ s @ post) = s"
  using assms dropWhile_blanks [of pre is_space s post] dropWhile_blanks [of "rev post" is_space "rev s" "[]"]
  by (simp add: TrimSpace_def hd_rev)

text \<open>
  (C25) Reading an image reference back: a reference written as name and tag, or as name and digest,
  is parsed into exactly these parts, for every name without \<open>@\<close> (registry ports included), every tag
  without \<open>:\<close>, \<open>/\<close> and \<open>@\<close>, and every digest of the supported algorithms, blanks around the reference
  ignored.
\<close>

theorem parseImageReference_roundtrip:
  assumes "n \<noteq> []" and "CHR ''@'' \<notin> set n" and "\<not> is_space (hd n)"
    and "(d = [] \<and> t \<noteq> [] \<and> \<not> is_space (last t) \<and> CHR '':'' \<notin> set t \<and> CHR ''/'' \<notin> set t \<and> CHR ''@'' \<notin> set t) \<or>
      (t = [] \<and> isOCIImageDigest d \<and> \<not> is_space (last d))"
    and "\<forall>c \<in> set pre \<union> set post. is_space c"
  shows "parseImageReference (pre @ image_reference (n, t, d) @ post) = (n, t, d)"
proof -
  have ne: "image_reference (n, t, d) \<noteq> []" "hd (image_reference (n, t, d)) = hd n"
    using assms(1) by (auto simp: image_reference_def)
  have "last (image_reference (n, t, d)) = (if d \<noteq> [] then last d else last t)"
    using assms(4) by (auto simp: image_reference_def dest: isOCIImageDigest_nonempty)
  then have trim: "TrimSpace (pre @ image_reference (n, t, d) @ post) = image_reference (n, t, d)"
    using assms(3,4,5) ne by (intro TrimSpace_blanks) (auto dest: isOCIImageDigest_nonempty)
  from assms(4) show ?thesis
  proof
    assume "d = [] \<and> t \<noteq> [] \<and> \<not> is_space (last t) \<and> CHR '':'' \<notin> set t \<and> CHR ''/'' \<notin> set t \<and> CHR ''@'' \<notin> set t"
    with trim assms(2) show ?thesis by (intro trans [OF parse_colon [of _ n t]]) (simp_all add: image_reference_def)
  next
    assume "t = [] \<and> isOCIImageDigest d \<and> \<not> is_space (last d)"
    with trim assms(2) show ?thesis
      by (intro trans [OF parse_at [of _ n d]]) (auto simp: image_reference_def dest: isOCIImageDigest_nonempty)
  qed
qed

theorem parseImageReference_roundtrip_witness:
  "parseImageReference ('' '' @ image_reference (''localhost:5000/org/app'', ''v1.2'', []) @ []) = (''localhost:5000/org/app'', ''v1.2'', [])"
  by (rule parseImageReference_roundtrip) (simp_all add: is_space_def Let_def)

section \<open>What the image overrides do\<close>

definition pinned :: "ImageOverride \<Rightarrow> yaml_map \<Rightarrow> bool" where
  "pinned ov im \<longleftrightarrow> (case parseImageReference (Replacement ov) of (n, t, d) \<Rightarrow>
     map_of im ''newName'' = Some (JString n) \<and>
     map_of im ''digest'' = (if d \<noteq> [] then Some (JString d) else None) \<and>
     map_of im ''newTag'' = (if d \<noteq> [] then None else Some (JString t)))"

lemma override_image_pinned: "pinned ov (override_image ov im)"
  by (auto simp: pinned_def override_image_def Let_def update_conv' delete_conv' split: prod.splits)

lemma override_image_other:
  "key \<notin> {''newName'', ''newTag'', ''digest''} \<Longrightarrow> map_of (override_image ov im) key = map_of im key"
  by (auto simp: override_image_def Let_def update_conv' delete_conv' split: prod.splits)

lemma fold_override_other:
  "key \<notin> {''newName'', ''newTag'', ''digest''} \<Longrightarrow> map_of (fold override_image ovs im) key = map_of im key"
  by (induction ovs arbitrary: im) (simp_all add: override_image_other)

lemma fold_override_pinned: "ovs \<noteq> [] \<Longrightarrow> pinned (last ovs) (fold override_image ovs im)"
  by (induction ovs rule: rev_induct) (simp_all add: override_image_pinned)

text \<open>An entry with a name takes the overrides of that name, one after the other.\<close>

lemma override_images_nth:
  assumes "i < length ims" and "ims ! i = JObject im" and "map_of im ''name'' = Some (JString nm)"
  shows "fst (override_images ovs ims) ! i = JObject (fold override_image (filter (\<lambda>ov. Orig ov = nm) ovs) im)"
  using assms
proof (induction ovs arbitrary: ims im)
  case (Cons ov ovs)
  let ?im = "if Orig ov = nm then override_image ov im else im"
  have "imageNameFromMap im = nm" using Cons.prems(3) by (simp add: imageNameFromMap_def)
  then have "map (\<lambda>iv. fst (override_entry ov iv)) ims ! i = JObject ?im"
    using Cons.prems(1,2) by (auto simp: override_entry_def)
  moreover have "map_of ?im ''name'' = Some (JString nm)" using Cons.prems(3) by (simp add: override_image_other)
  ultimately show ?case
    using Cons.IH [of "map (\<lambda>iv. fst (override_entry ov iv)) ims" ?im] Cons.prems(1)
    by (auto simp: Let_def comp_def split: if_splits)
qed simp

lemma override_images_length [simp]: "length (fst (override_images ovs ims)) = length ims"
  by (induction ovs arbitrary: ims) (simp_all add: Let_def)

text \<open>
  (C23) When the image overrides rewrite a kustomization, every image entry whose name has overrides is
  pinned to the last of them: its \<open>newName\<close> is the replacement's name and it carries the replacement's
  digest and no tag, or its tag and no digest, never both; all its other fields stay as they were.
\<close>

theorem image_overrides_pin_images:
  assumes "image_overrides_doc ovs doc = Some doc'" and "map_of doc ''images'' = Some (JArray ims)"
    and "i < length ims" and "ims ! i = JObject im" and "map_of im ''name'' = Some (JString nm)"
    and "filter (\<lambda>ov. Orig ov = nm) ovs = pre @ [ov]"
  shows "\<exists>ims' im'. map_of doc' ''images'' = Some (JArray ims') \<and> length ims' = length ims \<and> ims' ! i = JObject im' \<and>
    pinned ov im' \<and> (\<forall>key. key \<notin> {''newName'', ''newTag'', ''digest''} \<longrightarrow> map_of im' key = map_of im key)"
proof -
  have "map_of doc' ''images'' = Some (JArray (fst (override_images ovs ims)))"
    using assms(1,2) by (auto simp: image_overrides_doc_def update_conv' split: if_splits prod.splits)
  moreover note override_images_nth [OF assms(3-5), of ovs]
  ultimately show ?thesis
    using fold_override_pinned [of "pre @ [ov]" im] fold_override_other [of _ "pre @ [ov]" im] assms(6)
    by (auto simp del: fold_append)
qed

section \<open>Replacing strings in manifests\<close>

text \<open>The reference: all nodes of a tree, and the tree with a function applied to every node's value.\<close>

fun nodes :: "yaml_node \<Rightarrow> yaml_node list" where
  "nodes (Node k t v r cs) = Node k t v r cs # concat (map nodes cs)"

fun map_values :: "(yaml_node \<Rightarrow> string) \<Rightarrow> yaml_node \<Rightarrow> yaml_node" where
  "map_values f (Node k t v r cs) = Node k t (f (Node k t v r cs)) r (map (map_values f) cs)"

definition string_node :: "(string \<Rightarrow> bool) \<Rightarrow> yaml_node \<Rightarrow> bool" where
  "string_node re n \<longleftrightarrow> node_Kind n = ScalarNode \<and> node_Tag n = ''!!str'' \<and> re (node_Value n)"

lemma replaceStringNodes_spec:
  "fst (replaceStringNodes re rep n) = map_values (\<lambda>m. if string_node re m then rep else node_Value m) n"
  "snd (replaceStringNodes re rep n) \<longleftrightarrow> (\<exists>m \<in> set (nodes n). string_node re m)"
proof (induction n)
  case (Node k t v r cs)
  { case 1 then show ?case using Node(1) by (simp add: Let_def string_node_def comp_def)
  next
    case 2 then show ?case using Node(2) by (auto simp: Let_def string_node_def comp_def list_ex_iff)
  }
qed

lemma orig_matches_iff:
  "orig_matches orig v \<longleftrightarrow> v = orig \<or> (\<exists>t. v = orig @ '':'' @ t) \<or> (\<exists>t. v = orig @ ''@'' @ t)"
  by (auto simp: orig_matches_def HasPrefix_iff split: list.splits)

lemma map_values_id: "(\<And>m. m \<in> set (nodes n) \<Longrightarrow> f m = node_Value m) \<Longrightarrow> map_values f n = n"
proof (induction n)
  case (Node k t v r cs)
  have "map (map_values f) cs = cs"
    using Node by (intro map_idI) auto
  moreover have "f (Node k t v r cs) = v" using Node.prems [of "Node k t v r cs"] by simp
  ultimately show ?case by simp
qed

text \<open>
  The intended effect of the overrides on a manifest: in turn, each replaces the string scalars that are
  its original image, alone or followed by a tag or a digest.
\<close>

definition replace_value :: "ImageOverride \<Rightarrow> yaml_node \<Rightarrow> string" where
  "replace_value ov m =
     (if node_Kind m = ScalarNode \<and> node_Tag m = ''!!str'' \<and>
         (node_Value m = Orig ov \<or> (\<exists>t. node_Value m = Orig ov @ '':'' @ t) \<or> (\<exists>t. node_Value m = Orig ov @ ''@'' @ t))
      then Replacement ov else node_Value m)"

definition replace_images :: "ImageOverride list \<Rightarrow> yaml_node \<Rightarrow> yaml_node" where
  "replace_images ovs = fold (\<lambda>ov. map_values (replace_value ov)) ovs"

lemma replaceStringNodes_value:
  "fst (replaceStringNodes (orig_matches (Orig ov)) (Replacement ov) n) = map_values (replace_value ov) n"
  unfolding replaceStringNodes_spec replace_value_def string_node_def orig_matches_iff ..

lemma replaceStringNodes_unchanged:
  "\<not> snd (replaceStringNodes (orig_matches (Orig ov)) (Replacement ov) n) \<Longrightarrow> map_values (replace_value ov) n = n"
  unfolding replaceStringNodes_value [symmetric] replaceStringNodes_spec by (rule map_values_id) auto

lemma override_node_spec:
  "fst (override_node ovs n) = replace_images ovs n"
  "\<not> snd (override_node ovs n) \<Longrightarrow> replace_images ovs n = n"
proof (induction ovs arbitrary: n)
  case (Cons ov ovs)
  { case 1 then show ?case
      using Cons(1) [of "map_values (replace_value ov) n"]
      by (simp add: replace_images_def case_prod_unfold replaceStringNodes_value)
  next
    case 2 then show ?case
      using Cons(2) [of n] replaceStringNodes_unchanged [of ov n]
      by (simp add: replace_images_def case_prod_unfold replaceStringNodes_value)
  }
qed (simp_all add: replace_images_def)

text \<open>
  (C24) On a manifest that decodes, the image overrides produce every document with exactly the intended
  string scalars replaced, and everything else, including the order of the documents and the shape of
  each, as it was; if no change is reported, and so no file is written, the documents would have stayed
  as they are.
\<close>

theorem manifest_images_replaced:
  assumes "\<forall>d \<in> set docs. node_Kind d \<noteq> ZeroNode"
  shows "\<exists>changed. override_docs ovs (map Inr docs) = Inr (map (replace_images ovs) docs, changed) \<and>
    (\<not> changed \<longrightarrow> map (replace_images ovs) docs = docs)"
  using assms
proof (induction docs)
  case (Cons d docs)
  then obtain changed where "override_docs ovs (map Inr docs) = Inr (map (replace_images ovs) docs, changed)"
    "\<not> changed \<longrightarrow> map (replace_images ovs) docs = docs" by auto
  then show ?case
    using override_node_spec [of ovs d] Cons.prems by (auto split: prod.splits)
qed auto

theorem manifest_images_replaced_witness:
  "\<exists>changed. override_docs (concat (map Images ex_overrides))
       (map Inr [Node ScalarNode ''!!str'' ''quay.io/org/app:v1'' JNull [], Node ScalarNode ''!!str'' ''quay.io/org/app2'' JNull []]) =
     Inr (map (replace_images (concat (map Images ex_overrides)))
       [Node ScalarNode ''!!str'' ''quay.io/org/app:v1'' JNull [], Node ScalarNode ''!!str'' ''quay.io/org/app2'' JNull []], changed)"
proof -
  have "\<forall>d \<in> set [Node ScalarNode ''!!str'' ''quay.io/org/app:v1'' JNull [], Node ScalarNode ''!!str'' ''quay.io/org/app2'' JNull []].
      node_Kind d \<noteq> ZeroNode" by simp
  from manifest_images_replaced [OF this] show ?thesis by blast
qed

definition ex_images :: "json list" where
  "ex_images = [JObject [(''name'', JString ''quay.io/org/app''), (''newTag'', JString ''v1''), (''digest'', JString ''sha256:00'')]]"

theorem image_overrides_pin_images_witness:
  "\<exists>doc' ims' im'. image_overrides_doc (concat (map Images ex_overrides)) [(''images'', JArray ex_images)] = Some doc' \<and>
    map_of doc' ''images'' = Some (JArray ims') \<and> ims' ! 0 = JObject im' \<and>
    pinned \<lparr> Orig = ''quay.io/org/app'', Replacement = ''quay.io/fork/app:pr1'' \<rparr> im'"
proof -
  have "image_overrides_doc (concat (map Images ex_overrides)) [(''images'', JArray ex_images)] \<noteq> None" by code_simp
  then obtain doc' where doc: "image_overrides_doc (concat (map Images ex_overrides)) [(''images'', JArray ex_images)] = Some doc'"
    by blast
  have "map_of [(''images'', JArray ex_images)] ''images'' = Some (JArray ex_images)" by simp
  from image_overrides_pin_images [OF doc this, of 0 "[(''name'', JString ''quay.io/org/app''), (''newTag'', JString ''v1''),
      (''digest'', JString ''sha256:00'')]" "''quay.io/org/app''" "[]" "\<lparr> Orig = ''quay.io/org/app'', Replacement = ''quay.io/fork/app:pr1'' \<rparr>"]
  show ?thesis using doc by (auto simp: ex_images_def ex_overrides_def)
qed

end
