(* ===== verification/Phases.thy ===== *)
theory Phases
  imports Component_Reconcilers
begin

text \<open>
  Composing apply phases. The apply phase of a controller with side resources is a sequence of steps:
  applies through the tracking client, reads, and calls on the plain client. \<open>tracked_phase\<close> says that a
  step keeps the laws of \<open>reconcile_laws\<close>, \<open>no_failed_patch\<close> that no patch of the tracking client failed;
  both compose, so that each controller's laws follow from those of its steps.
\<close>

definition tracked_phase :: "machinery \<Rightarrow> tracking_client \<Rightarrow> 's world \<Rightarrow> tracking_client \<Rightarrow> 's world \<Rightarrow> bool" where
  "tracked_phase M tc w tc' w' \<longleftrightarrow> ownership tc' = ownership tc \<and> tracked tc \<subseteq> tracked tc' \<and>
     emits (\<lambda>e. \<not> is_cleanup e) w w' \<and>
     (\<forall>p opts obj obj'. EPatch p opts obj (Inr obj') \<in> set (added w w') \<longrightarrow> key_of M obj' \<in> tracked tc')"

definition no_failed_patch :: "'s world \<Rightarrow> 's world \<Rightarrow> bool" where
  "no_failed_patch w w' \<longleftrightarrow> (\<forall>p opts obj e. EPatch p opts obj (Inl e) \<notin> set (added w w'))"

text \<open>Events that the tracking client has no part in.\<close>

definition quiet :: "event \<Rightarrow> bool" where
  "quiet e = (case e of EPatch p opts obj r \<Rightarrow> False | EDelete obj r \<Rightarrow> False | EStatusUpdate obj r \<Rightarrow> False | _ \<Rightarrow> True)"

lemma quiet_simps [simp]:
  "quiet (EGet g ns n r1)" "quiet (EList g l r2)" "quiet (ECreate obj r)" "quiet (EUpdate obj r)" "quiet (ECreateOrUpdate obj r)"
  "quiet (EListIn ns g l r2)" "quiet (EDirectPatch p opts obj r)" "quiet (EDirectDelete obj r3)"
  "quiet (ETokenRequest ns n s r4)" "quiet (ENow t)" "\<not> quiet (EPatch p opts obj r)"
  by (simp_all add: quiet_def)

lemma tracked_phase_extends: "tracked_phase M tc w tc' w' \<Longrightarrow> extends w w'"
  by (auto simp: tracked_phase_def intro: emits_extends)

lemma tracked_phase_refl [simp]: "tracked_phase M tc w tc w"
  by (simp add: tracked_phase_def)

lemma no_failed_patch_refl [simp]: "no_failed_patch w w"
  by (simp add: no_failed_patch_def)

lemma tracked_phase_trans:
  assumes "tracked_phase M tc w tc1 w1" and "tracked_phase M tc1 w1 tc2 w2"
  shows "tracked_phase M tc w tc2 w2"
proof -
  have "added w w2 = added w w1 @ added w1 w2"
    using assms by (intro added_trans) (auto intro: tracked_phase_extends)
  then show ?thesis using assms by (auto simp: tracked_phase_def intro: emits_trans)
qed

lemma no_failed_patch_trans:
  "no_failed_patch w w1 \<Longrightarrow> no_failed_patch w1 w2 \<Longrightarrow> extends w w1 \<Longrightarrow> extends w1 w2 \<Longrightarrow> no_failed_patch w w2"
  using added_trans [of w w1 w2] by (simp add: no_failed_patch_def)

lemma quiet_not_cleanup: "quiet e \<Longrightarrow> \<not> is_cleanup e"
  by (cases e) (simp_all add: quiet_def is_cleanup_def)

lemma quiet_no_patch: "emits quiet w w' \<Longrightarrow> EPatch p opts obj r \<notin> set (added w w')"
  using emits_added [of quiet w w' "EPatch p opts obj r"] by auto

lemma quiet_phase: "emits quiet w w' \<Longrightarrow> tracked_phase M tc w tc w'"
  using emits_mono [of quiet w w' "\<lambda>e. \<not> is_cleanup e", OF _ quiet_not_cleanup] quiet_no_patch [of w w']
  by (simp add: tracked_phase_def)

lemma quiet_no_failed: "emits quiet w w' \<Longrightarrow> no_failed_patch w w'"
  using quiet_no_patch [of w w'] by (simp add: no_failed_patch_def)

lemma ApplyOwned_phase:
  assumes run: "ApplyOwned M A obj tc w = (r, tc', w')"
  shows "tracked_phase M tc w tc' w'" and "r = Inr obj' \<Longrightarrow> no_failed_patch w w'"
proof -
  have "emits (\<lambda>e. \<not> is_cleanup e) w w'"
    using ApplyOwned_emits [OF run] by (rule emits_mono) (rule owned_apply_not_cleanup)
  moreover have "EPatch p opts ob (Inr ob') \<in> set (added w w') \<Longrightarrow> key_of M ob' \<in> tracked tc'" for p opts ob ob'
    using run by (auto simp: key_of_def ApplyOwned_def ApplyObject_def k_call_added split: sum.splits option.splits prod.splits)
  ultimately show "tracked_phase M tc w tc' w'"
    using ApplyOwned_ownership [OF run] ApplyOwned_tracked_mono [OF run] by (auto simp: tracked_phase_def)
  show "r = Inr obj' \<Longrightarrow> no_failed_patch w w'"
    using run ApplyOwned_ok [of M A obj tc w obj' tc' w'] by (auto simp: no_failed_patch_def)
qed

lemma apply_objects_phase:
  assumes "apply_objects M A c prepare objs tc w = (r, tc', w')"
  shows "tracked_phase M tc w tc' w'" and "r = None \<Longrightarrow> no_failed_patch w w'"
proof -
  have "emits (\<lambda>e. \<not> is_cleanup e) w w'"
    using apply_objects_keeps [OF assms] owned_apply_not_cleanup by (blast intro: emits_mono)
  then show "tracked_phase M tc w tc' w'"
    using apply_objects_keeps [OF assms] apply_objects_tracks [OF assms] by (auto simp: tracked_phase_def key_of_def)
  show "r = None \<Longrightarrow> no_failed_patch w w'"
    using apply_objects_fails [OF assms] by (auto simp: no_failed_patch_def)
qed

lemma apply_manifests_phase:
  assumes "apply_manifests M A S c message prepare tc w = (r, tc', w')"
  shows "tracked_phase M tc w tc' w'" and "r = None \<Longrightarrow> no_failed_patch w w'"
  using assms apply_objects_phase [of M A c prepare _ tc w r tc' w']
  by (auto simp: apply_manifests_def split: sum.splits)

lemma CreateOrUpdate_phase:
  assumes "CreateOrUpdate M A obj f tc w = (r, tc', w')"
  shows "tracked_phase M tc w tc' w'" and "no_failed_patch w w'"
  using assms
  by (auto simp: CreateOrUpdate_def tracked_phase_def no_failed_patch_def k_call_emits k_call_added is_cleanup_def
      split: prod.splits sum.splits)

text \<open>Calls that do not go through the tracking client.\<close>

lemma quiet_calls:
  "k_get A g ns n w = (r1, w') \<Longrightarrow> emits quiet w w'"
  "k_create A obj w = (r4, w') \<Longrightarrow> emits quiet w w'"
  "k_list_in A ns g l w = (r9, w') \<Longrightarrow> emits quiet w w'"
  "k_direct_patch A p opts obj w = (r10, w') \<Longrightarrow> emits quiet w w'"
  "k_direct_delete A obj w = (r11, w') \<Longrightarrow> emits quiet w w'"
  "k_create_token A ns n seconds w = (r12, w') \<Longrightarrow> emits quiet w w'"
  "k_now clock w = (t, w') \<Longrightarrow> emits quiet w w'"
  by (simp_all add: k_call_emits)

text \<open>The laws of a controller from those of its apply phase.\<close>

lemma deployment_reconcilerI:
  assumes "\<And>cr tc w r tc' w'. cmp_apply K cr tc w = (r, tc', w') \<Longrightarrow> tracked_phase M tc w tc' w'"
    and "cmp_status K = deployments_status M A"
  shows "deployment_reconciler M K A"
proof (unfold_locales, goal_cases)
  case (4 res cr w s w')
  then show ?case by (simp add: assms(2) deployments_status_reads)
qed (use assms in \<open>auto simp: tracked_phase_def\<close>)

lemma strict_reconcilerI:
  assumes "reconcile_laws M K"
    and "\<And>cr tc w r tc' w'. cmp_apply K cr tc w = (Inr r, tc', w') \<Longrightarrow> no_failed_patch w w'"
  shows "strict_reconciler M K"
proof (rule strict_reconciler.intro [OF assms(1)], unfold_locales, goal_cases)
  case (1 cr tc w r tc' w' p opts obj e)
  then show ?case using assms(2) by (cases r) (auto simp: no_failed_patch_def)
qed

section \<open>Steps and their composition\<close>

text \<open>
  A step that keeps the laws and, when it reports success, had no failed patch. Steps that may fail
  are \<open>'s op\<close>; the apply phase of a controller is a \<open>'s phase\<close>, built from such steps by \<open>step_then\<close>:
  a failing step ends the phase with its reason and operation, as the early returns through
  \<open>errHandler\<close> do.
\<close>

definition good_step :: "machinery \<Rightarrow> bool \<Rightarrow> tracking_client \<Rightarrow> 's world \<Rightarrow> tracking_client \<Rightarrow> 's world \<Rightarrow> bool" where
  "good_step M ok tc w tc' w' \<longleftrightarrow> tracked_phase M tc w tc' w' \<and> (ok \<longrightarrow> no_failed_patch w w')"

lemma good_step_quiet: "emits quiet w w' \<Longrightarrow> good_step M ok tc w tc w'"
  by (simp add: good_step_def quiet_phase quiet_no_failed)

lemma good_step_trans: "good_step M True tc w tc1 w1 \<Longrightarrow> good_step M ok tc1 w1 tc2 w2 \<Longrightarrow> good_step M ok tc w tc2 w2"
  using tracked_phase_extends [of M tc w tc1 w1] tracked_phase_extends [of M tc1 w1 tc2 w2]
  by (auto simp: good_step_def intro: tracked_phase_trans no_failed_patch_trans)

lemma good_step_refl [simp]: "good_step M ok tc w tc w"
  by (simp add: good_step_def)

type_synonym 's op = "tracking_client \<Rightarrow> 's world \<Rightarrow> go_error option \<times> tracking_client \<times> 's world"
type_synonym 's phase = "tracking_client \<Rightarrow> 's world \<Rightarrow> phase_result \<times> tracking_client \<times> 's world"

definition step_then :: "'s op \<Rightarrow> string \<Rightarrow> string \<Rightarrow> 's phase \<Rightarrow> 's phase" where
  "step_then f reason operation k tc w = (case f tc w of
     (Some e, tc', w') \<Rightarrow> (Inl (e, reason, operation), tc', w')
   | (None, tc', w') \<Rightarrow> k tc' w')"

definition done_phase :: "ctrl_result \<Rightarrow> 's phase" where
  "done_phase res tc w = (Inr res, tc, w)"

definition good_op :: "machinery \<Rightarrow> 's op \<Rightarrow> bool" where
  "good_op M f \<longleftrightarrow> (\<forall>tc w r tc' w'. f tc w = (r, tc', w') \<longrightarrow> good_step M (r = None) tc w tc' w')"

definition good_phase :: "machinery \<Rightarrow> 's phase \<Rightarrow> bool" where
  "good_phase M f \<longleftrightarrow> (\<forall>tc w r tc' w'. f tc w = (r, tc', w') \<longrightarrow> good_step M (\<exists>x. r = Inr x) tc w tc' w')"

named_theorems good_intros \<open>steps and phases that keep the laws of a reconciler\<close>

lemma good_opI: "(\<And>tc w r tc' w'. f tc w = (r, tc', w') \<Longrightarrow> good_step M (r = None) tc w tc' w') \<Longrightarrow> good_op M f"
  by (simp add: good_op_def)

lemma good_phaseI: "(\<And>tc w r tc' w'. f tc w = (r, tc', w') \<Longrightarrow> good_step M (\<exists>x. r = Inr x) tc w tc' w') \<Longrightarrow> good_phase M f"
  by (simp add: good_phase_def)

lemma good_opD: "good_op M f \<Longrightarrow> f tc w = (r, tc', w') \<Longrightarrow> good_step M (r = None) tc w tc' w'"
  by (simp add: good_op_def)

lemma good_phaseD: "good_phase M f \<Longrightarrow> f tc w = (r, tc', w') \<Longrightarrow> good_step M (\<exists>x. r = Inr x) tc w tc' w'"
  by (simp add: good_phase_def)

lemma good_done [good_intros]: "good_phase M (done_phase res)"
  by (rule good_phaseI) (simp add: done_phase_def)

lemma good_step_then [good_intros]:
  assumes "good_op M f" and "good_phase M k"
  shows "good_phase M (step_then f reason operation k)"
proof (rule good_phaseI)
  fix tc w r tc' w'
  assume run: "step_then f reason operation k tc w = (r, tc', w')"
  obtain e tc1 w1 where f: "f tc w = (e, tc1, w1)" by (metis prod_cases3)
  note step = good_opD [OF assms(1) f]
  show "good_step M (\<exists>x. r = Inr x) tc w tc' w'"
  proof (cases e)
    case None
    with run f have "k tc1 w1 = (r, tc', w')" by (simp add: step_then_def)
    from good_phaseD [OF assms(2) this] step None show ?thesis by (auto intro: good_step_trans)
  next
    case (Some x)
    with run f step show ?thesis by (auto simp: step_then_def good_step_def)
  qed
qed

lemma good_phase_if [good_intros]: "good_phase M f \<Longrightarrow> good_phase M g \<Longrightarrow> good_phase M (if b then f else g)"
  by simp

text \<open>A phase that first makes calls the tracking client has no part in.\<close>

lemma good_phase_quiet:
  assumes "\<And>w x w'. q w = (x, w') \<Longrightarrow> emits quiet w w'" and "\<And>x. good_phase M (k x)"
  shows "good_phase M (\<lambda>tc w. case q w of (x, w') \<Rightarrow> k x tc w')"
proof (rule good_phaseI)
  fix tc w r tc' w'
  assume run: "(case q w of (x, w') \<Rightarrow> k x tc w') = (r, tc', w')"
  obtain x w1 where q: "q w = (x, w1)" by fastforce
  with run have "k x tc w1 = (r, tc', w')" by simp
  from good_phaseD [OF assms(2) this] good_step_quiet [OF assms(1) [OF q], of M True tc]
  show "good_step M (\<exists>x. r = Inr x) tc w tc' w'" by (rule good_step_trans [rotated])
qed

text \<open>A step on the plain client that returns a value for the rest of the phase.\<close>

definition value_then :: "('s world \<Rightarrow> 'a result \<times> 's world) \<Rightarrow> string \<Rightarrow> string \<Rightarrow> ('a \<Rightarrow> 's phase) \<Rightarrow> 's phase" where
  "value_then f reason operation k tc w = (case f w of
     (Inl e, w') \<Rightarrow> (Inl (e, reason, operation), tc, w')
   | (Inr x, w') \<Rightarrow> k x tc w')"

lemma good_value_then:
  assumes "\<And>w x w'. f w = (x, w') \<Longrightarrow> emits quiet w w'" and "\<And>x. good_phase M (k x)"
  shows "good_phase M (value_then f reason operation k)"
proof (rule good_phaseI)
  fix tc w r tc' w'
  assume run: "value_then f reason operation k tc w = (r, tc', w')"
  obtain x w1 where f: "f w = (x, w1)" by fastforce
  note step = good_step_quiet [OF assms(1) [OF f], of M True tc]
  show "good_step M (\<exists>x. r = Inr x) tc w tc' w'"
  proof (cases x)
    case (Inl e)
    with run f step show ?thesis by (auto simp: value_then_def good_step_def)
  next
    case (Inr v)
    with run f have "k v tc w1 = (r, tc', w')" by (simp add: value_then_def)
    from good_step_trans [OF step good_phaseD [OF assms(2) this]] show ?thesis .
  qed
qed

lemma good_apply_objects [good_intros]: "good_op M (apply_objects M A c prepare objs)"
  using apply_objects_phase [of M A c prepare objs] by (auto simp: good_op_def good_step_def)

lemma good_apply_manifests [good_intros]: "good_op M (apply_manifests M A S c message prepare)"
  using apply_manifests_phase [of M A S c message prepare] by (auto simp: good_op_def good_step_def)

lemma ApplyOwned_good: "ApplyOwned M A obj tc w = (r, tc', w') \<Longrightarrow> good_step M (\<exists>x. r = Inr x) tc w tc' w'"
  using ApplyOwned_phase by (auto simp: good_step_def)

lemma good_ensure_namespaces: "good_op M (ensure_namespaces M A expected objs)"
proof (rule good_opI)
  show "ensure_namespaces M A expected objs tc w = (r, tc', w') \<Longrightarrow> good_step M (r = None) tc w tc' w'" for tc w r tc' w'
  proof (induction objs arbitrary: tc w)
    case (Cons obj objs)
    obtain a tc1 w1 where a: "ApplyOwned M A obj tc w = (a, tc1, w1)" by (metis prod_cases3)
    note step = ApplyOwned_good [OF a]
    consider "o_body obj = BNamespace" "o_name obj = expected" | "tc' = tc" "w' = w" | "ensure_namespaces M A expected objs tc w = (r, tc', w')"
      using Cons.prems by (auto split: body.splits if_splits)
    then show ?case
    proof cases
      case 1
      show ?thesis
      proof (cases a)
        case (Inl e)
        with Cons.prems 1 a step show ?thesis by (auto simp: good_step_def)
      next
        case (Inr obj')
        with Cons.prems 1 a have "ensure_namespaces M A expected objs tc1 w1 = (r, tc', w')" by simp
        from good_step_trans [OF _ Cons.IH [OF this]] step Inr show ?thesis by simp
      qed
    qed (use Cons.IH in auto)
  qed simp
qed

lemma good_EnsureNamespaceExists [good_intros]: "good_op M (EnsureNamespaceExists M A S c expected)"
  using good_ensure_namespaces [of M A expected]
  by (auto simp: good_op_def EnsureNamespaceExists_def split: sum.splits)

lemma good_EnsureTrustedCAConfigMap [good_intros]: "good_op M (EnsureTrustedCAConfigMap M A ns ci)"
  by (rule good_opI) (auto simp: EnsureTrustedCAConfigMap_def split: if_splits prod.splits sum.splits dest!: ApplyOwned_good)

text \<open>
  A reconciler whose apply phase is good: it satisfies the laws of \<open>reconcile_laws\<close>, reports failed
  patches, and its status is that of its Deployments.
\<close>

locale service_reconciler = strict_reconciler M K + deployment_reconciler M K A
  for M :: machinery and K :: "'s component_def" and A :: "'s api"

sublocale manifest_reconciler \<subseteq> service: service_reconciler M K A
  by unfold_locales

lemma service_reconcilerI:
  assumes "\<And>cr. good_phase M (cmp_apply K cr)" and "cmp_status K = deployments_status M A"
  shows "service_reconciler M K A"
proof (rule service_reconciler.intro)
  have step: "good_step M (\<exists>x. r = Inr x) tc w tc' w'" if "cmp_apply K cr tc w = (r, tc', w')" for cr tc w r tc' w'
    using assms(1) that by (rule good_phaseD)
  show d: "deployment_reconciler M K A"
    by (rule deployment_reconcilerI [OF _ assms(2)]) (use step in \<open>auto simp: good_step_def\<close>)
  show "strict_reconciler M K"
    by (rule strict_reconcilerI [OF deployment_reconciler.axioms(1) [OF d]]) (use step in \<open>fastforce simp: good_step_def\<close>)
qed

section \<open>What a phase applies\<close>

text \<open>
  \<open>sends M tc P\<close>: an object that a patch sends is the owned version of an object with \<open>P\<close>. A phase \<open>f\<close> ends
  in \<open>k\<close> when it is a sequence of such steps, possibly followed by \<open>k\<close>.
\<close>

definition sends :: "machinery \<Rightarrow> tracking_client \<Rightarrow> (kobj \<Rightarrow> bool) \<Rightarrow> event \<Rightarrow> bool" where
  "sends M tc P e = (case e of EPatch p opts obj x \<Rightarrow> \<exists>obj0. SetOwnership M tc obj0 = Inr obj \<and> P obj0 | _ \<Rightarrow> True)"

definition patch_op :: "machinery \<Rightarrow> (kobj \<Rightarrow> bool) \<Rightarrow> 's op \<Rightarrow> bool" where
  "patch_op M P f \<longleftrightarrow> (\<forall>tc w r tc' w'. f tc w = (r, tc', w') \<longrightarrow> ownership tc' = ownership tc \<and> emits (sends M tc P) w w')"

definition ends_in :: "machinery \<Rightarrow> (kobj \<Rightarrow> bool) \<Rightarrow> 's phase \<Rightarrow> 's phase \<Rightarrow> bool" where
  "ends_in M P k f \<longleftrightarrow> (\<forall>tc w r tc' w'. f tc w = (r, tc', w') \<longrightarrow> (\<exists>tc1 w1. ownership tc1 = ownership tc \<and>
     emits (sends M tc P) w w1 \<and> (w' = w1 \<or> (\<exists>r2 tc2. k tc1 w1 = (r2, tc2, w')))))"

lemma sends_cong: "ownership tc1 = ownership tc \<Longrightarrow> sends M tc1 P = sends M tc P"
  by (intro ext) (simp add: sends_def SetOwnership_def split: event.splits)

lemma quiet_sends: "quiet e \<Longrightarrow> sends M tc P e"
  by (cases e) (simp_all add: sends_def)

lemma quiet_emits_sends: "emits quiet w w' \<Longrightarrow> emits (sends M tc P) w w'"
  by (erule emits_mono) (rule quiet_sends)

lemma ends_inI:
  "(\<And>tc w r tc' w'. f tc w = (r, tc', w') \<Longrightarrow> (\<exists>tc1 w1. ownership tc1 = ownership tc \<and>
     emits (sends M tc P) w w1 \<and> (w' = w1 \<or> (\<exists>r2 tc2. k tc1 w1 = (r2, tc2, w'))))) \<Longrightarrow> ends_in M P k f"
  by (simp add: ends_in_def)

lemma ends_inE:
  assumes "ends_in M P k f" and "f tc w = (r, tc', w')"
  obtains tc1 w1 where "ownership tc1 = ownership tc" "emits (sends M tc P) w w1" "w' = w1 \<or> (\<exists>r2 tc2. k tc1 w1 = (r2, tc2, w'))"
  using assms unfolding ends_in_def by blast

lemma ends_in_here: "ends_in M P k k"
proof (rule ends_inI)
  fix tc w r tc' w' assume "k tc w = (r, tc', w')"
  then show "\<exists>tc1 w1. ownership tc1 = ownership tc \<and> emits (sends M tc P) w w1 \<and> (w' = w1 \<or> (\<exists>r2 tc2. k tc1 w1 = (r2, tc2, w')))"
    by (intro exI [of _ tc] exI [of _ w]) simp
qed

lemma ends_in_stop: "ends_in M P k (\<lambda>tc w. (r, tc, w))"
  by (rule ends_inI) (metis emits_refl prod.inject)

lemma ends_in_step_then:
  assumes "patch_op M P f" and "ends_in M P k g"
  shows "ends_in M P k (step_then f reason operation g)"
proof (rule ends_inI)
  fix tc w r tc' w'
  assume run: "step_then f reason operation g tc w = (r, tc', w')"
  obtain e tc1 w1 where f: "f tc w = (e, tc1, w1)" by (metis prod_cases3)
  with assms(1) have first: "ownership tc1 = ownership tc" "emits (sends M tc P) w w1" unfolding patch_op_def by blast+
  show "\<exists>tc1 w1. ownership tc1 = ownership tc \<and> emits (sends M tc P) w w1 \<and> (w' = w1 \<or> (\<exists>r2 tc2. k tc1 w1 = (r2, tc2, w')))"
  proof (cases e)
    case (Some err)
    with run f first show ?thesis by (intro exI [of _ tc1] exI [of _ w1]) (simp add: step_then_def)
  next
    case None
    with run f have "g tc1 w1 = (r, tc', w')" by (simp add: step_then_def)
    with assms(2) obtain tc2 w2 where "ownership tc2 = ownership tc1" "emits (sends M tc1 P) w1 w2"
      "w' = w2 \<or> (\<exists>r2 tc3. k tc2 w2 = (r2, tc3, w'))" by (rule ends_inE)
    with first show ?thesis
      by (intro exI [of _ tc2] exI [of _ w2]) (auto simp: sends_cong [OF first(1)] intro: emits_trans)
  qed
qed

lemma ends_in_quiet:
  assumes "\<And>w x w'. q w = (x, w') \<Longrightarrow> emits quiet w w'" and "\<And>x. ends_in M P k (f x)"
  shows "ends_in M P k (\<lambda>tc w. case q w of (x, w') \<Rightarrow> f x tc w')"
proof (rule ends_inI)
  fix tc w r tc' w'
  assume run: "(case q w of (x, w') \<Rightarrow> f x tc w') = (r, tc', w')"
  obtain x w1 where q: "q w = (x, w1)" by fastforce
  note first = quiet_emits_sends [OF assms(1) [OF q], of M tc P]
  from run q have "f x tc w1 = (r, tc', w')" by simp
  with assms(2) obtain tc2 w2 where "ownership tc2 = ownership tc" "emits (sends M tc P) w1 w2"
    "w' = w2 \<or> (\<exists>r2 tc3. k tc2 w2 = (r2, tc3, w'))" by (rule ends_inE)
  with first show "\<exists>tc1 w1. ownership tc1 = ownership tc \<and> emits (sends M tc P) w w1 \<and> (w' = w1 \<or> (\<exists>r2 tc2. k tc1 w1 = (r2, tc2, w')))"
    by (intro exI [of _ tc2] exI [of _ w2]) (auto intro: emits_trans)
qed

lemma ends_in_value_then:
  assumes "\<And>w x w'. f w = (x, w') \<Longrightarrow> emits quiet w w'" and "\<And>x. ends_in M P k (g x)"
  shows "ends_in M P k (value_then f reason operation g)"
proof -
  have "value_then f reason operation g =
      (\<lambda>tc w. case f w of (x, w') \<Rightarrow> (case x of Inl e \<Rightarrow> (\<lambda>tc w. (Inl (e, reason, operation), tc, w)) | Inr v \<Rightarrow> g v) tc w')"
    by (intro ext) (auto simp: value_then_def split: prod.splits sum.splits)
  moreover have "ends_in M P k (case x of Inl e \<Rightarrow> (\<lambda>tc w. (Inl (e, reason, operation), tc, w)) | Inr v \<Rightarrow> g v)" for x
    using assms(2) by (simp add: ends_in_stop split: sum.split)
  ultimately show ?thesis using assms(1) by (simp add: ends_in_quiet)
qed

lemma ApplyOwned_trace:
  assumes "ApplyOwned M A obj tc w = (r, tc', w')"
  obtains e where "w' = w" "r = Inl e"
  | opts sent x where "events w' = events w @ [EPatch SSAPatch opts sent x]" "SetOwnership M tc obj = Inr sent" "\<And>y. r = Inr y \<Longrightarrow> x = Inr y"
proof (cases "SetOwnership M tc obj")
  case (Inl e)
  with assms that(1) [of e] show thesis by (simp add: ApplyOwned_def)
next
  case (Inr owned)
  with SetOwnership_None [of tc M obj] obtain cfg where "ownership tc = Some cfg" by auto
  with assms Inr that(2) show thesis
    by (auto simp: ApplyOwned_def ApplyObject_def k_call_events split: sum.splits prod.splits)
qed

lemma ApplyOwned_sends:
  assumes "ApplyOwned M A obj tc w = (r, tc', w')" and "P obj"
  shows "emits (sends M tc P) w w'"
  using assms(2) by (cases rule: ApplyOwned_trace [OF assms(1)]) (auto simp: emits_def addedI extendsI sends_def)

lemma apply_objects_sends:
  assumes "\<And>obj obj'. obj \<in> set objs \<Longrightarrow> prepare obj = Inr (Some obj') \<Longrightarrow> P obj'"
    and "apply_objects M A c prepare objs tc w = (r, tc', w')"
  shows "emits (sends M tc P) w w'"
  using assms
proof (induction objs arbitrary: tc w)
  case (Cons obj objs)
  have IH: "emits (sends M tc1 P) w1 w'" if "apply_objects M A c prepare objs tc1 w1 = (r, tc', w')" for tc1 w1
    by (rule Cons.IH [OF _ that], rule Cons.prems(1)) auto
  show ?case
  proof (cases "\<exists>obj'. prepare obj = Inr (Some obj')")
    case True
    then obtain obj' where p: "prepare obj = Inr (Some obj')" by blast
    obtain a tc1 w1 where a: "ApplyOwned M A obj' tc w = (a, tc1, w1)" by (metis prod_cases3)
    from p Cons.prems(1) have one: "emits (sends M tc P) w w1" by (intro ApplyOwned_sends [OF a]) auto
    show ?thesis
    proof (cases a)
      case (Inl e)
      with Cons.prems p a one show ?thesis by simp
    next
      case (Inr y)
      with Cons.prems p a have rest: "apply_objects M A c prepare objs tc1 w1 = (r, tc', w')" by simp
      from emits_trans [OF one] IH [OF rest] sends_cong [OF ApplyOwned_ownership [OF a], of M P] show ?thesis by simp
    qed
  next
    case False
    with Cons.prems(2) IH show ?thesis by (fastforce split: sum.splits option.splits)
  qed
qed simp

lemma apply_manifests_patch_op:
  assumes "\<And>objs obj obj'. GetForComponent S c = Inr objs \<Longrightarrow> obj \<in> set objs \<Longrightarrow> prepare obj = Inr (Some obj') \<Longrightarrow> P obj'"
  shows "patch_op M P (apply_manifests M A S c message prepare)"
  unfolding patch_op_def
proof (intro allI impI)
  fix tc w r tc' w'
  assume run: "apply_manifests M A S c message prepare tc w = (r, tc', w')"
  from apply_manifests_phase(1) [OF run] have "ownership tc' = ownership tc" by (simp add: tracked_phase_def)
  moreover have "emits (sends M tc P) w w'"
  proof (cases "GetForComponent S c")
    case (Inr objs)
    with run have "apply_objects M A c prepare objs tc w = (r, tc', w')" by (simp add: apply_manifests_def)
    then show ?thesis using assms [OF Inr] by (intro apply_objects_sends) auto
  qed (use run in \<open>simp add: apply_manifests_def\<close>)
  ultimately show "ownership tc' = ownership tc \<and> emits (sends M tc P) w w'" ..
qed

end
