(* ===== verification/Scrape_Token.thy ===== *)
theory Scrape_Token
  imports Phases Go_Time
begin

text \<open>
  Prometheus scrape wiring: the bound scraper token and its Secret (\<open>pkg/kubernetes/scrape_token.go\<close>),
  the readiness of the metrics certificate (\<open>metrics_tls.go\<close>), the annotations that nudge the
  prometheus operator (\<open>servicemonitor_resync.go\<close>), and the reconcile that combines them
  (\<open>internal/common/scrape_token.go\<close>).

  The certificate library is a parameter (\<open>scrape_lib\<close>): the blocks that successive calls of
  \<open>pem.Decode\<close> yield, parsing and verification. The interfaces \<open>client.Reader\<close> and \<open>clock.Clock\<close> are
  values, so that a reader other than the client and a test clock can be passed in.
\<close>

section \<open>Scrape tokens\<close>

abbreviation ScrapeTokenSecretKey :: string where "ScrapeTokenSecretKey \<equiv> ''token''"
abbreviation scrapeTokenExpiresAtAnnotation :: string where
  "scrapeTokenExpiresAtAnnotation \<equiv> ''konflux.konflux-ci.dev/scrape-token-expires-at''"

abbreviation DefaultScrapeTokenTTL :: duration where "DefaultScrapeTokenTTL \<equiv> Hour"
abbreviation DefaultScrapeTokenMinRequeue :: duration where "DefaultScrapeTokenMinRequeue \<equiv> Minute"
abbreviation DefaultScrapeTokenRotationInterval :: duration where "DefaultScrapeTokenRotationInterval \<equiv> 15 * Minute"

type_synonym 's clock = "'s \<Rightarrow> int \<times> 's"

definition the_clock :: "'s api \<Rightarrow> 's clock option \<Rightarrow> 's clock" where
  "the_clock A clk = (case clk of None \<Rightarrow> api_now A | Some c \<Rightarrow> c)"

record scrape_lib =
  lib_lenient :: time_parser
  lib_pem_blocks :: "string \<Rightarrow> (string \<times> string) list"
  lib_ParseCertificate :: "string \<Rightarrow> string result"
  lib_AppendCertsFromPEM :: "string \<Rightarrow> bool"
  lib_Verify :: "string \<Rightarrow> string \<Rightarrow> go_error option"

text \<open>\<open>ClientTokenCreator\<close>, the implementation of \<open>TokenCreator\<close>; its clientset may be nil.\<close>

record token_creator =
  Clientset :: bool

text \<open>
  \<open>int64(ttl.Seconds())\<close> and the half of a duration go through \<open>float64\<close> in the code; both are exact for
  durations below a month, and the operator only uses an hour.
\<close>

definition duration_quot :: "duration \<Rightarrow> int \<Rightarrow> int" where
  "duration_quot d k = (if 0 \<le> d then d div k else - ((- d) div k))"

definition CreateScraperToken :: "'s api \<Rightarrow> token_creator \<Rightarrow> string \<Rightarrow> string \<Rightarrow> duration \<Rightarrow> 's world \<Rightarrow>
    (string \<times> go_time) result \<times> 's world" where
  "CreateScraperToken A c ns name ttl w =
     (if \<not> Clientset c then (Inl (NewError ''token creator clientset is not configured''), w)
      else let seconds = max 600 (duration_quot ttl Second)
        in case k_create_token A ns name seconds w of
             (Inl e, w1) \<Rightarrow> (Inl e, w1)
           | (Inr (token, expiry), w1) \<Rightarrow>
               if token = [] then (Inl (NewError (''empty token for serviceaccount '' @ ns @ ''/'' @ name)), w1)
               else (case expiry of
                       Some expiresAt \<Rightarrow> (Inr (token, expiresAt), w1)
                     | None \<Rightarrow> (case k_now (api_now A) w1 of (now, w2) \<Rightarrow> (Inr (token, now + seconds * Second), w2))))"

definition secret_data :: "kobj \<Rightarrow> smap" where
  "secret_data obj = (case o_body obj of BSecret t d \<Rightarrow> d | _ \<Rightarrow> [])"

definition ScrapeTokenExpiry :: "scrape_lib \<Rightarrow> kobj option \<Rightarrow> go_time option" where
  "ScrapeTokenExpiry X secret = (case secret of None \<Rightarrow> None
     | Some s \<Rightarrow> let raw = go_get (o_annotations s) scrapeTokenExpiresAtAnnotation
                 in if raw = [] then None else ParseRFC3339 (lib_lenient X) raw)"

definition ScrapeTokenNeedsRefresh :: "scrape_lib \<Rightarrow> kobj option \<Rightarrow> go_time \<Rightarrow> duration \<Rightarrow> bool" where
  "ScrapeTokenNeedsRefresh X secret now ttl = (case secret of None \<Rightarrow> True
     | Some s \<Rightarrow>
         if go_get (secret_data s) ScrapeTokenSecretKey = [] then True
         else (case ScrapeTokenExpiry X secret of
                 None \<Rightarrow> True
               | Some expiresAt \<Rightarrow>
                   let remaining = time_Sub expiresAt now
                   in if remaining \<le> 0 then True else remaining \<le> duration_quot ttl 2))"

definition ScrapeTokenRequeueAfter :: "scrape_lib \<Rightarrow> kobj option \<Rightarrow> go_time \<Rightarrow> duration \<Rightarrow> duration" where
  "ScrapeTokenRequeueAfter X secret now ttl = (case ScrapeTokenExpiry X secret of
     None \<Rightarrow> DefaultScrapeTokenMinRequeue
   | Some expiresAt \<Rightarrow>
       let refreshAt = expiresAt - duration_quot ttl 2;
           wait = time_Sub refreshAt now
       in if wait < DefaultScrapeTokenMinRequeue then DefaultScrapeTokenMinRequeue else wait)"

definition ensureSecretTypeMeta :: "kobj \<Rightarrow> kobj" where
  "ensureSecretTypeMeta s = (if gvk_Empty (o_gvk s) then s\<lparr> o_gvk := secretGVK \<rparr> else s)"

text \<open>Creation time and managed fields are metadata the model does not carry.\<close>

definition prepareSecretForApply :: "kobj \<Rightarrow> kobj" where
  "prepareSecretForApply secret = ensureSecretTypeMeta
     (secret\<lparr> o_resourceVersion := [], o_uid := [], o_generation := 0, o_ownerRefs := [] \<rparr>)"

definition copySecretWriteMetadata :: "kobj \<Rightarrow> kobj \<Rightarrow> kobj" where
  "copySecretWriteMetadata dst src =
     (let d1 = (if o_resourceVersion src \<noteq> [] then dst\<lparr> o_resourceVersion := o_resourceVersion src \<rparr> else dst)
      in if o_uid src \<noteq> [] then d1\<lparr> o_uid := o_uid src \<rparr> else d1)"

abbreviation OperatorScrapeTokenFieldManager :: string where
  "OperatorScrapeTokenFieldManager \<equiv> ''konflux-operator-scrape-token''"

definition ApplyScrapeTokenSecret :: "'s api \<Rightarrow> kobj \<Rightarrow> 's world \<Rightarrow> kobj result \<times> 's world" where
  "ApplyScrapeTokenSecret A secret w =
     (case k_direct_patch A SSAPatch \<lparr> FieldOwner = OperatorScrapeTokenFieldManager, ForceOwnership = True \<rparr>
            (prepareSecretForApply secret) w of
        (Inl e, w') \<Rightarrow> (Inl e, w')
      | (Inr prep, w') \<Rightarrow> (Inr (copySecretWriteMetadata secret prep), w'))"

text \<open>
  The callbacks of the callers persist an object, usually through the caller's tracking client; they
  return the object as it is afterwards.
\<close>

type_synonym 's apply_func = "kobj \<Rightarrow> tracking_client \<Rightarrow> 's world \<Rightarrow> kobj result \<times> tracking_client \<times> 's world"

record ensure_result =
  er_RequeueAfter :: duration
  TokenUpdated :: bool
  SecretExisted :: bool
  Token :: string
  er_ResourceVersion :: string

record 's ensure_input =
  ei_Client :: "'s api"
  ei_Clock :: "'s clock option"
  ei_TokenCreator :: "token_creator option"
  ei_ScraperNamespace :: string
  ei_ScraperName :: string
  ei_OperandNamespace :: string
  ei_Apply :: "'s apply_func option"
  ei_TTL :: duration

definition scrapeTokenResultFromSecret :: "scrape_lib \<Rightarrow> kobj \<Rightarrow> bool \<Rightarrow> bool \<Rightarrow> go_time \<Rightarrow> duration \<Rightarrow> ensure_result result" where
  "scrapeTokenResultFromSecret X secret existed updated now ttl =
     (let token = go_get (secret_data secret) ScrapeTokenSecretKey
      in if token = []
         then Inl (NewError (''scrape token secret '' @ o_namespace secret @ ''/'' @ ScrapeTokenSecretName @ '' has empty '' @
                quoted ScrapeTokenSecretKey @ '' after ensure''))
         else Inr \<lparr> er_RequeueAfter = ScrapeTokenRequeueAfter X (Some secret) now ttl, TokenUpdated = updated,
                    SecretExisted = existed, Token = token, er_ResourceVersion = o_resourceVersion secret \<rparr>)"

definition scrapeTokenSecret :: "string \<Rightarrow> string \<Rightarrow> go_time \<Rightarrow> kobj" where
  "scrapeTokenSecret ns token expiresAt =
     (new_object secretGVK ns ScrapeTokenSecretName (BSecret ''Opaque'' [(ScrapeTokenSecretKey, token)]))
       \<lparr> o_annotations := [(scrapeTokenExpiresAtAnnotation, FormatRFC3339 expiresAt)] \<rparr>"

text \<open>The two ways to a fresh token: keep the existing one, or mint a new one.\<close>

definition keep_token :: "scrape_lib \<Rightarrow> 's apply_func \<Rightarrow> kobj \<Rightarrow> go_time \<Rightarrow> duration \<Rightarrow> tracking_client \<Rightarrow> 's world \<Rightarrow>
    ensure_result result \<times> tracking_client \<times> 's world" where
  "keep_token X apply_fn existing now ttl tc w = (case apply_fn (prepareSecretForApply existing) tc w of
     (Inl e, tc', w') \<Rightarrow> (Inl (Errorf ''track scrape token secret'' e), tc', w')
   | (Inr obj, tc', w') \<Rightarrow> (scrapeTokenResultFromSecret X existing True False now ttl, tc', w'))"

definition mint_token :: "scrape_lib \<Rightarrow> 's ensure_input \<Rightarrow> token_creator \<Rightarrow> 's apply_func \<Rightarrow> bool \<Rightarrow> go_time \<Rightarrow> duration \<Rightarrow>
    tracking_client \<Rightarrow> 's world \<Rightarrow> ensure_result result \<times> tracking_client \<times> 's world" where
  "mint_token X i c apply_fn existed now ttl tc w =
     (case CreateScraperToken (ei_Client i) c (ei_ScraperNamespace i) (ei_ScraperName i) ttl w of
        (Inl e, w1) \<Rightarrow> (Inl (Errorf (''create scraper token for '' @ ei_ScraperNamespace i @ ''/'' @ ei_ScraperName i) e), tc, w1)
      | (Inr (token, expiresAt), w1) \<Rightarrow>
          (case apply_fn (scrapeTokenSecret (ei_OperandNamespace i) token expiresAt) tc w1 of
             (Inl e, tc', w2) \<Rightarrow> (Inl (Errorf ''apply scrape token secret'' e), tc', w2)
           | (Inr secret, tc', w2) \<Rightarrow> (scrapeTokenResultFromSecret X secret existed True now ttl, tc', w2)))"

definition EnsurePrometheusScrapeToken :: "scrape_lib \<Rightarrow> 's ensure_input \<Rightarrow> tracking_client \<Rightarrow> 's world \<Rightarrow>
    ensure_result result \<times> tracking_client \<times> 's world" where
  "EnsurePrometheusScrapeToken X i tc w =
     (case ei_Apply i of None \<Rightarrow> (Inl (NewError ''scrape token apply func is required''), tc, w)
      | Some apply_fn \<Rightarrow> (case ei_TokenCreator i of None \<Rightarrow> (Inl (NewError ''token creator is required''), tc, w)
      | Some c \<Rightarrow>
          if ei_OperandNamespace i = [] then (Inl (NewError ''operand namespace is required''), tc, w)
          else if ei_ScraperNamespace i = [] \<or> ei_ScraperName i = []
          then (Inl (NewError ''scraper service account is required''), tc, w)
          else let ttl = (if ei_TTL i \<le> 0 then DefaultScrapeTokenTTL else ei_TTL i)
            in case k_now (the_clock (ei_Client i) (ei_Clock i)) w of (now, w1) \<Rightarrow>
              (case k_get (ei_Client i) secretGVK (ei_OperandNamespace i) ScrapeTokenSecretName w1 of
                 (Inl e, w2) \<Rightarrow>
                   if \<not> IsNotFound e then (Inl (Errorf ''get scrape token secret'' e), tc, w2)
                   else mint_token X i c apply_fn False now ttl tc w2
               | (Inr existing, w2) \<Rightarrow>
                   if \<not> ScrapeTokenNeedsRefresh X (Some existing) now ttl
                   then keep_token X apply_fn existing now ttl tc w2
                   else mint_token X i c apply_fn True now ttl tc w2)))"

definition IsPrometheusScrapeTokenSecret :: "kobj option \<Rightarrow> bool" where
  "IsPrometheusScrapeTokenSecret obj = (case obj of None \<Rightarrow> False
     | Some s \<Rightarrow> o_name s = ScrapeTokenSecretName \<and> o_namespace s \<noteq> [])"

abbreviation MetricsServerCertSecretName :: string where "MetricsServerCertSecretName \<equiv> ''metrics-server-cert''"

definition IsMetricsTLSSecret :: "kobj option \<Rightarrow> bool" where
  "IsMetricsTLSSecret obj = (case obj of None \<Rightarrow> False
     | Some s \<Rightarrow> if o_namespace s = [] then False else o_name s = MetricsServerCertSecretName)"

definition IsMetricsScrapeWiringSecret :: "kobj option \<Rightarrow> bool" where
  "IsMetricsScrapeWiringSecret obj \<longleftrightarrow> IsPrometheusScrapeTokenSecret obj \<or> IsMetricsTLSSecret obj"

definition GetPrometheusScrapeToken :: "'s api \<Rightarrow> string \<Rightarrow> 's world \<Rightarrow> string result \<times> 's world" where
  "GetPrometheusScrapeToken A ns w = (case k_get A secretGVK ns ScrapeTokenSecretName w of
     (Inl e, w') \<Rightarrow> (Inl e, w')
   | (Inr secret, w') \<Rightarrow>
       let token = go_get (secret_data secret) ScrapeTokenSecretKey
       in (if token = [] then Inl (NewError (''scrape token secret '' @ ns @ ''/'' @ ScrapeTokenSecretName @ '' has empty '' @
              quoted ScrapeTokenSecretKey)) else Inr token, w'))"

definition IgnoreScrapeTokenNotFound :: "go_error \<Rightarrow> go_error option" where
  "IgnoreScrapeTokenNotFound e = (if IsNotFound e then None else Some e)"

text \<open>
  (C37) The requeue interval of a fresh token is right. A Secret whose token expires (within the range of a
  duration) at \<open>expiresAt\<close> and needs no refresh now is next checked strictly before the token expires;
  at that check the token is due for a refresh; and at any time it is due exactly when at most half
  of its lifetime remains.
\<close>

theorem scrape_token_checked_before_expiry:
  assumes "\<not> ScrapeTokenNeedsRefresh X (Some secret) now ttl" and "ScrapeTokenExpiry X (Some secret) = Some expiresAt"
    and "2 * DefaultScrapeTokenMinRequeue \<le> ttl" and "ttl < 2 ^ 62" and "expiresAt - now < 2 ^ 63"
  shows "now < now + ScrapeTokenRequeueAfter X (Some secret) now ttl \<and>
    now + ScrapeTokenRequeueAfter X (Some secret) now ttl < expiresAt \<and>
    ScrapeTokenNeedsRefresh X (Some secret) (now + ScrapeTokenRequeueAfter X (Some secret) now ttl) ttl \<and>
    (\<forall>t. ScrapeTokenNeedsRefresh X (Some secret) t ttl \<longleftrightarrow> expiresAt - t \<le> ttl div 2)"
proof -
  from assms(1,2) have token: "go_get (secret_data secret) ScrapeTokenSecretKey \<noteq> []"
    and fresh: "\<not> time_Sub expiresAt now \<le> duration_quot ttl 2"
    by (auto simp: ScrapeTokenNeedsRefresh_def Let_def split: if_splits option.splits)
  have half: "duration_quot ttl 2 = ttl div 2" "0 \<le> ttl div 2" "ttl div 2 < 2 ^ 61" "Minute \<le> ttl div 2"
    using assms(3,4) by (simp_all add: duration_quot_def)
  have due: "ScrapeTokenNeedsRefresh X (Some secret) t ttl \<longleftrightarrow> expiresAt - t \<le> ttl div 2" for t
    using assms(2) token half time_Sub_le [of 0 expiresAt t] time_Sub_le [of "ttl div 2" expiresAt t]
    by (auto simp: ScrapeTokenNeedsRefresh_def Let_def)
  have later: "ttl div 2 < expiresAt - now" using fresh half time_Sub_le [of "ttl div 2" expiresAt now] by simp
  have "time_Sub (expiresAt - ttl div 2) now = expiresAt - ttl div 2 - now"
    using later half(2) assms(5) by (intro time_Sub_exact) simp
  then have "ScrapeTokenRequeueAfter X (Some secret) now ttl = max Minute (expiresAt - ttl div 2 - now)"
    by (simp add: ScrapeTokenRequeueAfter_def assms(2) half(1) Let_def max_def)
  with later half show ?thesis by (auto simp: due max_def)
qed

definition ex_token_lib :: scrape_lib where
  "ex_token_lib = \<lparr> lib_lenient = (\<lambda>s. None), lib_pem_blocks = (\<lambda>s. [(''CERTIFICATE'', s)]), lib_ParseCertificate = Inr,
     lib_AppendCertsFromPEM = (\<lambda>s. True), lib_Verify = (\<lambda>leaf ca. if leaf = ca then None else Some (NewError ''unknown authority'')) \<rparr>"

definition ex_token_secret :: kobj where
  "ex_token_secret = scrapeTokenSecret ''ns'' ''abc'' Hour"

lemma ex_token_expiry: "ScrapeTokenExpiry X (Some ex_token_secret) = Some Hour"
proof -
  have d: "date_of Hour = (1970, 1, 1)" by code_simp
  have "FormatRFC3339 Hour \<noteq> []" by (simp add: FormatRFC3339_def d)
  then show ?thesis
    using parse_format [of Hour "lib_lenient X"]
    by (simp add: ScrapeTokenExpiry_def ex_token_secret_def scrapeTokenSecret_def go_get_def rfc3339_range_def d)
qed

theorem scrape_token_checked_before_expiry_witness:
  "ScrapeTokenRequeueAfter ex_token_lib (Some ex_token_secret) Minute Hour = 29 * Minute \<and>
   Minute + ScrapeTokenRequeueAfter ex_token_lib (Some ex_token_secret) Minute Hour < Hour \<and>
   ScrapeTokenNeedsRefresh ex_token_lib (Some ex_token_secret) (30 * Minute) Hour"
proof -
  have "\<not> ScrapeTokenNeedsRefresh ex_token_lib (Some ex_token_secret) Minute Hour"
    by (simp add: ScrapeTokenNeedsRefresh_def ex_token_expiry time_Sub_def duration_quot_def)
      (simp add: ex_token_secret_def scrapeTokenSecret_def new_object_def secret_data_def go_get_def)
  note checked = scrape_token_checked_before_expiry [OF this ex_token_expiry]
  have v: "ScrapeTokenRequeueAfter ex_token_lib (Some ex_token_secret) Minute Hour = 29 * Minute"
    by (simp add: ScrapeTokenRequeueAfter_def ex_token_expiry time_Sub_def duration_quot_def)
  show ?thesis using checked unfolding v by simp
qed

section \<open>Metrics certificates\<close>

abbreviation MetricsTLSReasonCertMissing :: string where "MetricsTLSReasonCertMissing \<equiv> ''metrics-server-cert-missing''"
abbreviation DefaultMetricsTLSRequeue :: duration where "DefaultMetricsTLSRequeue \<equiv> 15 * Second"

record tls_result =
  Ready :: bool
  CAResourceVersion :: string
  LeafResourceVersion :: string
  RenewRequested :: bool
  Reason :: string

definition MetricsScrapeTLSResult :: "bool \<Rightarrow> string \<Rightarrow> string \<Rightarrow> tls_result" where
  "MetricsScrapeTLSResult ready rv reason = \<lparr> Ready = ready, CAResourceVersion = rv, LeafResourceVersion = rv,
     RenewRequested = False, Reason = reason \<rparr>"

definition parseFirstCertPEM :: "scrape_lib \<Rightarrow> string \<Rightarrow> string result" where
  "parseFirstCertPEM X pemBytes = (case List.find (\<lambda>(t, bytes). t = ''CERTIFICATE'') (lib_pem_blocks X pemBytes) of
     None \<Rightarrow> Inl (NewError ''no CERTIFICATE PEM block'')
   | Some (t, bytes) \<Rightarrow> lib_ParseCertificate X bytes)"

definition VerifyCertPEMSignedByCA :: "scrape_lib \<Rightarrow> string \<Rightarrow> string \<Rightarrow> go_error option" where
  "VerifyCertPEMSignedByCA X leafPEM caPEM = (case parseFirstCertPEM X leafPEM of
     Inl e \<Rightarrow> Some (Errorf ''parse leaf certificate'' e)
   | Inr leafCert \<Rightarrow>
       if \<not> lib_AppendCertsFromPEM X caPEM then Some (NewError ''parse CA certificate PEM'')
       else lib_Verify X leafCert caPEM)"

text \<open>\<open>metricsTLSReader\<close>: an explicit reader wins over the client.\<close>

definition metricsTLSReader :: "'s api \<Rightarrow> 's api option \<Rightarrow> 's api" where
  "metricsTLSReader client reader = (case reader of Some r \<Rightarrow> r | None \<Rightarrow> client)"

definition EvaluateMetricsScrapeTLS :: "scrape_lib \<Rightarrow> 's api \<Rightarrow> 's api option \<Rightarrow> string \<Rightarrow> 's world \<Rightarrow> tls_result result \<times> 's world" where
  "EvaluateMetricsScrapeTLS X client reader ns w =
     (if ns = [] then (Inl (NewError ''namespace is required''), w)
      else (case k_get (metricsTLSReader client reader) secretGVK ns MetricsServerCertSecretName w of
        (Inl e, w') \<Rightarrow> (if IsNotFound e then Inr (MetricsScrapeTLSResult False [] MetricsTLSReasonCertMissing)
                        else Inl (Errorf ''get metrics TLS secret'' e), w')
      | (Inr secret, w') \<Rightarrow>
          let rv = o_resourceVersion secret;
              caPEM = go_get (secret_data secret) ''ca.crt'';
              leafPEM = go_get (secret_data secret) ''tls.crt''
          in (Inr (if caPEM = [] then MetricsScrapeTLSResult False rv ''metrics-ca-empty''
                   else if leafPEM = [] then MetricsScrapeTLSResult False rv ''metrics-server-cert-empty''
                   else if VerifyCertPEMSignedByCA X leafPEM caPEM \<noteq> None then MetricsScrapeTLSResult False rv ''leaf-ca-mismatch''
                   else MetricsScrapeTLSResult True rv []), w')))"

definition ReconcileMetricsScrapeTLS :: "scrape_lib \<Rightarrow> 's api \<Rightarrow> 's api option \<Rightarrow> string \<Rightarrow> 's world \<Rightarrow> tls_result result \<times> 's world" where
  "ReconcileMetricsScrapeTLS = EvaluateMetricsScrapeTLS"

section \<open>Resync annotations\<close>

abbreviation ServiceMonitorResyncAnnotation :: string where
  "ServiceMonitorResyncAnnotation \<equiv> ''konflux.konflux-ci.dev/metrics-scrape-resync''"
abbreviation ServiceMonitorResyncReasonAnnotation :: string where
  "ServiceMonitorResyncReasonAnnotation \<equiv> ''konflux.konflux-ci.dev/metrics-scrape-resync-reason''"
abbreviation ServiceMonitorResyncSecretRVAnnotation :: string where
  "ServiceMonitorResyncSecretRVAnnotation \<equiv> ''konflux.konflux-ci.dev/metrics-scrape-resync-secret-rv''"
abbreviation ServiceMonitorResyncCARVAnnotation :: string where
  "ServiceMonitorResyncCARVAnnotation \<equiv> ''konflux.konflux-ci.dev/metrics-scrape-resync-ca-rv''"
abbreviation ServiceMonitorResyncSettleAnnotation :: string where
  "ServiceMonitorResyncSettleAnnotation \<equiv> ''konflux.konflux-ci.dev/metrics-scrape-resync-settle''"
abbreviation DefaultServiceMonitorResyncSettleDelay :: duration where "DefaultServiceMonitorResyncSettleDelay \<equiv> 15 * Second"

record resync_options =
  Force :: bool
  ro_Reason :: string
  SecretResourceVersion :: string
  ro_CAResourceVersion :: string
  MarkSettlePending :: bool
  ClearSettlePending :: bool

definition no_resync :: resync_options where
  "no_resync = \<lparr> Force = False, ro_Reason = [], SecretResourceVersion = [], ro_CAResourceVersion = [],
     MarkSettlePending = False, ClearSettlePending = False \<rparr>"

definition hasServiceMonitorResyncAnnotation :: "kobj option \<Rightarrow> bool" where
  "hasServiceMonitorResyncAnnotation sm = (case sm of None \<Rightarrow> False
     | Some s \<Rightarrow> go_get (o_annotations s) ServiceMonitorResyncAnnotation \<noteq> [])"

definition ServiceMonitorResyncSettlePending :: "kobj option \<Rightarrow> bool" where
  "ServiceMonitorResyncSettlePending sm = (case sm of None \<Rightarrow> False
     | Some s \<Rightarrow> go_get (o_annotations s) ServiceMonitorResyncSettleAnnotation \<noteq> [])"

definition ServiceMonitorResyncSettleRemaining :: "scrape_lib \<Rightarrow> kobj option \<Rightarrow> go_time \<Rightarrow> duration" where
  "ServiceMonitorResyncSettleRemaining X sm now =
     (if \<not> ServiceMonitorResyncSettlePending sm then 0
      else (case sm of None \<Rightarrow> 0 | Some s \<Rightarrow>
        let value = go_get (o_annotations s) ServiceMonitorResyncSettleAnnotation
        in if value = [] \<or> value = ''pending'' then 0
           else (case ParseRFC3339 (lib_lenient X) value of
                   None \<Rightarrow> 0
                 | Some deadline \<Rightarrow> if \<not> now < deadline then 0 else time_Sub deadline now)))"

definition ServiceMonitorResyncSecretRV :: "kobj option \<Rightarrow> string" where
  "ServiceMonitorResyncSecretRV sm = (case sm of None \<Rightarrow> []
     | Some s \<Rightarrow> go_get (o_annotations s) ServiceMonitorResyncSecretRVAnnotation)"

definition ServiceMonitorResyncCARV :: "kobj option \<Rightarrow> string" where
  "ServiceMonitorResyncCARV sm = (case sm of None \<Rightarrow> []
     | Some s \<Rightarrow> go_get (o_annotations s) ServiceMonitorResyncCARVAnnotation)"

definition put_if :: "string \<Rightarrow> string \<Rightarrow> smap \<Rightarrow> smap" where
  "put_if k v m = (if v \<noteq> [] then sput k v m else m)"

text \<open>The annotations of the patch; \<open>deadline\<close> is the settle deadline when one is to be set.\<close>

definition resync_annotations :: "resync_options \<Rightarrow> go_time \<Rightarrow> go_time option \<Rightarrow> smap \<Rightarrow> smap" where
  "resync_annotations opts resyncAt deadline m =
     (let m1 = sput ServiceMonitorResyncAnnotation (FormatRFC3339 resyncAt) m;
          m2 = put_if ServiceMonitorResyncReasonAnnotation (ro_Reason opts) m1;
          m3 = put_if ServiceMonitorResyncSecretRVAnnotation (SecretResourceVersion opts) m2;
          m4 = put_if ServiceMonitorResyncCARVAnnotation (ro_CAResourceVersion opts) m3;
          m5 = (case deadline of None \<Rightarrow> m4 | Some d \<Rightarrow> sput ServiceMonitorResyncSettleAnnotation (FormatRFC3339 d) m4)
      in if ClearSettlePending opts then AList.delete ServiceMonitorResyncSettleAnnotation m5 else m5)"

definition resync_deadline :: "'s clock \<Rightarrow> resync_options \<Rightarrow> 's world \<Rightarrow> go_time option \<times> 's world" where
  "resync_deadline clk opts w =
     (if MarkSettlePending opts then (case k_now clk w of (t, w') \<Rightarrow> (Some (t + DefaultServiceMonitorResyncSettleDelay), w'))
      else (None, w))"

definition ResyncOperandServiceMonitor :: "'s api \<Rightarrow> 's clock option \<Rightarrow> string \<Rightarrow> string \<Rightarrow> resync_options \<Rightarrow> 's world \<Rightarrow>
    go_error option \<times> 's world" where
  "ResyncOperandServiceMonitor A clock namespace name opts w =
     (if namespace = [] \<or> name = [] then (Some (NewError ''serviceMonitor namespace and name are required''), w)
      else (case k_get A serviceMonitorGVK namespace name w of
        (Inl e, w1) \<Rightarrow> (if IsNoMatchError e \<or> IsNotFound e then None
                        else Some (Errorf (''get ServiceMonitor '' @ namespace @ ''/'' @ name) e), w1)
      | (Inr existing, w1) \<Rightarrow>
          if \<not> Force opts \<and> \<not> MarkSettlePending opts \<and> hasServiceMonitorResyncAnnotation (Some existing) then (None, w1)
          else (case k_now (the_clock A clock) w1 of (resyncAt, w2) \<Rightarrow>
               (case resync_deadline (the_clock A clock) opts w2 of (deadline, w3) \<Rightarrow>
               (case k_direct_patch A (MergeFrom existing) \<lparr> FieldOwner = [], ForceOwnership = False \<rparr>
                       (existing\<lparr> o_annotations := resync_annotations opts resyncAt deadline (o_annotations existing) \<rparr>) w3 of
                  (Inl e, w4) \<Rightarrow> (if IsNoMatchError e then None
                                  else Some (Errorf (''patch ServiceMonitor '' @ namespace @ ''/'' @ name) e), w4)
                | (Inr obj, w4) \<Rightarrow> (None, w4))))))"

section \<open>Reconciling the scrape wiring\<close>

record 's scrape_config =
  sc_Client :: "'s api"
  sc_Clock :: "'s clock option"
  sc_TokenCreator :: "token_creator option"
  sc_ScraperNamespace :: string
  sc_ScraperName :: string
  sc_OperandNamespace :: string
  sc_ServiceMonitorName :: string
  sc_Apply :: "'s apply_func option"
  sc_ApplyServiceMonitor :: "(tracking_client \<Rightarrow> 's world \<Rightarrow> go_error option \<times> tracking_client \<times> 's world) option"
  sc_SecretReader :: "'s api option"

record sm_apply_result =
  ExistedBeforeApply :: bool
  Prior :: "kobj option"

definition no_sm :: sm_apply_result where
  "no_sm = \<lparr> ExistedBeforeApply = False, Prior = None \<rparr>"

definition validateScrapeTokenReconcilerConfig :: "'s scrape_config \<Rightarrow> go_error option" where
  "validateScrapeTokenReconcilerConfig cfg =
     (if sc_TokenCreator cfg = None then Some (NewError ''token creator is required'')
      else if sc_OperandNamespace cfg = [] then Some (NewError ''operand namespace is required'')
      else if sc_ScraperNamespace cfg = [] \<or> sc_ScraperName cfg = [] then Some (NewError ''scraper service account is required'')
      else None)"

definition ensureMetricsTLSReadyForServiceMonitor :: "scrape_lib \<Rightarrow> 's scrape_config \<Rightarrow> 's world \<Rightarrow>
    (tls_result \<times> ctrl_result option) result \<times> 's world" where
  "ensureMetricsTLSReadyForServiceMonitor X cfg w =
     (case ReconcileMetricsScrapeTLS X (sc_Client cfg) (sc_SecretReader cfg) (sc_OperandNamespace cfg) w of
        (Inl e, w') \<Rightarrow> (Inl (Errorf ''reconcile metrics scrape TLS'' e), w')
      | (Inr tls, w') \<Rightarrow> (Inr (tls, if Ready tls then None else Some \<lparr> RequeueAfter = DefaultMetricsTLSRequeue \<rparr>), w'))"

definition retainOperandServiceMonitorIfPresent :: "'s scrape_config \<Rightarrow> tracking_client \<Rightarrow> 's world \<Rightarrow>
    go_error option \<times> tracking_client \<times> 's world" where
  "retainOperandServiceMonitorIfPresent cfg tc w = (case sc_ApplyServiceMonitor cfg of
     None \<Rightarrow> (None, tc, w)
   | Some apply_sm \<Rightarrow>
       if sc_ServiceMonitorName cfg = [] then (None, tc, w)
       else (case k_get (metricsTLSReader (sc_Client cfg) (sc_SecretReader cfg)) serviceMonitorGVK
                    (sc_OperandNamespace cfg) (sc_ServiceMonitorName cfg) w of
               (Inl e, w1) \<Rightarrow>
                 if IsNotFound e \<or> IsNoMatchError e then (None, tc, w1)
                 else (Some (Errorf (''probe ServiceMonitor '' @ quoted (sc_ServiceMonitorName cfg) @ '' for TLS-wait retain'') e), tc, w1)
             | (Inr probe, w1) \<Rightarrow>
                 (case apply_sm tc w1 of
                    (Some e, tc', w2) \<Rightarrow>
                      (Some (Errorf (''retain ServiceMonitor '' @ quoted (sc_ServiceMonitorName cfg) @ '' during TLS wait'') e), tc', w2)
                  | (None, tc', w2) \<Rightarrow> (None, tc', w2))))"

definition probeOperandServiceMonitor :: "'s api \<Rightarrow> string \<Rightarrow> string \<Rightarrow> 's world \<Rightarrow> sm_apply_result \<times> 's world" where
  "probeOperandServiceMonitor A ns name w = (case k_get A serviceMonitorGVK ns name w of
     (Inl e, w') \<Rightarrow> (no_sm, w')
   | (Inr probe, w') \<Rightarrow> (\<lparr> ExistedBeforeApply = True, Prior = Some probe \<rparr>, w'))"

definition applyDeferredOperandServiceMonitor :: "'s scrape_config \<Rightarrow> tracking_client \<Rightarrow> 's world \<Rightarrow>
    sm_apply_result result \<times> tracking_client \<times> 's world" where
  "applyDeferredOperandServiceMonitor cfg tc w = (case sc_ApplyServiceMonitor cfg of
     None \<Rightarrow> (Inr no_sm, tc, w)
   | Some apply_sm \<Rightarrow>
       (case probeOperandServiceMonitor (sc_Client cfg) (sc_OperandNamespace cfg) (sc_ServiceMonitorName cfg) w of (result, w1) \<Rightarrow>
         (case apply_sm tc w1 of
            (Some e, tc', w2) \<Rightarrow> (Inl (Errorf (''apply ServiceMonitor '' @ quoted (sc_ServiceMonitorName cfg)) e), tc', w2)
          | (None, tc', w2) \<Rightarrow> (Inr result, tc', w2))))"

definition applyOrProbeOperandServiceMonitor :: "'s scrape_config \<Rightarrow> tracking_client \<Rightarrow> 's world \<Rightarrow>
    sm_apply_result result \<times> tracking_client \<times> 's world" where
  "applyOrProbeOperandServiceMonitor cfg tc w =
     (if sc_ApplyServiceMonitor cfg \<noteq> None then applyDeferredOperandServiceMonitor cfg tc w
      else (case probeOperandServiceMonitor (sc_Client cfg) (sc_OperandNamespace cfg) (sc_ServiceMonitorName cfg) w of
              (result, w') \<Rightarrow> (Inr result, tc, w')))"

text \<open>The decision of \<open>planServiceMonitorResync\<close> at the clock sample \<open>now\<close>.\<close>

definition plan_resync :: "scrape_lib \<Rightarrow> ensure_result \<Rightarrow> tls_result \<Rightarrow> sm_apply_result \<Rightarrow> go_time \<Rightarrow> resync_options \<times> duration" where
  "plan_resync X tokenResult tlsResult smApply now =
     (let secretRV = er_ResourceVersion tokenResult;
          caRV = CAResourceVersion tlsResult;
          prior = (if ExistedBeforeApply smApply then Prior smApply else None);
          storedSecretRV = ServiceMonitorResyncSecretRV prior;
          storedCARV = ServiceMonitorResyncCARV prior;
          settlePending = ServiceMonitorResyncSettlePending prior;
          forced = (\<lambda>reason. no_resync\<lparr> Force := True, ro_Reason := reason, SecretResourceVersion := secretRV, ro_CAResourceVersion := caRV \<rparr>)
      in if TokenUpdated tokenResult
         then ((forced (if SecretExisted tokenResult then ''token-refreshed'' else ''token-minted''))\<lparr> MarkSettlePending := True \<rparr>, 0)
         else if settlePending
         then (let settleWait = ServiceMonitorResyncSettleRemaining X (Prior smApply) now
               in if settleWait > 0 then (no_resync, settleWait)
                  else ((forced ''settle-retry'')\<lparr> ClearSettlePending := True \<rparr>, settleWait))
         else if secretRV \<noteq> [] \<and> secretRV \<noteq> storedSecretRV then (forced ''secret-sync'', 0)
         else if caRV \<noteq> [] \<and> caRV \<noteq> storedCARV then (forced ''ca-sync'', 0)
         else (no_resync, 0))"

definition planServiceMonitorResync :: "scrape_lib \<Rightarrow> 's scrape_config \<Rightarrow> ensure_result \<Rightarrow> tls_result \<Rightarrow> sm_apply_result \<Rightarrow> 's world \<Rightarrow>
    (resync_options \<times> duration) \<times> 's world" where
  "planServiceMonitorResync X cfg tokenResult tlsResult smApply w =
     (case k_now (the_clock (sc_Client cfg) (sc_Clock cfg)) w of (now, w') \<Rightarrow>
        (plan_resync X tokenResult tlsResult smApply now, w'))"

text \<open>The steps after the certificate is ready: apply the ServiceMonitor, nudge, choose the requeue.\<close>

definition finish_scrape :: "scrape_lib \<Rightarrow> 's scrape_config \<Rightarrow> ensure_result \<Rightarrow> tls_result \<Rightarrow> tracking_client \<Rightarrow> 's world \<Rightarrow>
    ctrl_result result \<times> tracking_client \<times> 's world" where
  "finish_scrape X cfg tokenResult tlsResult tc w = (case applyOrProbeOperandServiceMonitor cfg tc w of
     (Inl e, tc', w1) \<Rightarrow> (Inl e, tc', w1)
   | (Inr smApply, tc', w1) \<Rightarrow>
       (case planServiceMonitorResync X cfg tokenResult tlsResult smApply w1 of ((opts, settleWait), w2) \<Rightarrow>
         (case (if Force opts \<or> MarkSettlePending opts
                then ResyncOperandServiceMonitor (sc_Client cfg) (sc_Clock cfg) (sc_OperandNamespace cfg) (sc_ServiceMonitorName cfg) opts w2
                else (None, w2)) of
            (Some e, w3) \<Rightarrow> (Inl (Errorf (''resync servicemonitor '' @ quoted (sc_ServiceMonitorName cfg)) e), tc', w3)
          | (None, w3) \<Rightarrow>
              (Inr \<lparr> RequeueAfter = (if TokenUpdated tokenResult then DefaultServiceMonitorResyncSettleDelay
                                     else if settleWait > 0 then settleWait else er_RequeueAfter tokenResult) \<rparr>, tc', w3))))"

definition ReconcilePrometheusScrapeToken :: "scrape_lib \<Rightarrow> 's scrape_config \<Rightarrow> tracking_client \<Rightarrow> 's world \<Rightarrow>
    ctrl_result result \<times> tracking_client \<times> 's world" where
  "ReconcilePrometheusScrapeToken X cfg tc w = (case validateScrapeTokenReconcilerConfig cfg of
     Some e \<Rightarrow> (Inl e, tc, w)
   | None \<Rightarrow> (case EnsurePrometheusScrapeToken X \<lparr> ei_Client = sc_Client cfg, ei_Clock = sc_Clock cfg,
         ei_TokenCreator = sc_TokenCreator cfg, ei_ScraperNamespace = sc_ScraperNamespace cfg, ei_ScraperName = sc_ScraperName cfg,
         ei_OperandNamespace = sc_OperandNamespace cfg, ei_Apply = sc_Apply cfg, ei_TTL = 0 \<rparr> tc w of
       (Inl e, tc1, w1) \<Rightarrow> (Inl e, tc1, w1)
     | (Inr tokenResult, tc1, w1) \<Rightarrow>
         if sc_ServiceMonitorName cfg = [] then (Inr \<lparr> RequeueAfter = er_RequeueAfter tokenResult \<rparr>, tc1, w1)
         else (case ensureMetricsTLSReadyForServiceMonitor X cfg w1 of
           (Inl e, w2) \<Rightarrow> (Inl e, tc1, w2)
         | (Inr (tlsResult, Some wait), w2) \<Rightarrow>
             if Reason tlsResult = MetricsTLSReasonCertMissing then (Inr wait, tc1, w2)
             else (case retainOperandServiceMonitorIfPresent cfg tc1 w2 of
                     (Some e, tc2, w3) \<Rightarrow> (Inl e, tc2, w3)
                   | (None, tc2, w3) \<Rightarrow> (Inr wait, tc2, w3))
         | (Inr (tlsResult, None), w2) \<Rightarrow> finish_scrape X cfg tokenResult tlsResult tc1 w2)))"

section \<open>The callbacks of the operand controllers\<close>

text \<open>The fields of a reconciler that the scrape wiring uses.\<close>

record 's operand_env =
  env_TokenCreator :: "token_creator option"
  env_SecretReader :: "'s api option"
  env_Clock :: "'s clock option"

definition apply_operand_sm :: "machinery \<Rightarrow> 's api \<Rightarrow> object_store \<Rightarrow> component \<Rightarrow> string \<Rightarrow> string \<Rightarrow> tracking_client \<Rightarrow> 's world \<Rightarrow>
    go_error option \<times> tracking_client \<times> 's world" where
  "apply_operand_sm M A S c ns name tc w = (case GetForComponent S c of
     Inl e \<Rightarrow> (Some (Errorf ''get manifests for ServiceMonitor apply'' e), tc, w)
   | Inr objects \<Rightarrow> (case OperandServiceMonitorFromObjects objects ns name of
       None \<Rightarrow> (Some (NewError (''operand ServiceMonitor '' @ ns @ ''/'' @ name @ '' not found in embedded manifests'')), tc, w)
     | Some sm \<Rightarrow> (case ApplyMetricsScraperBindingSubjects ns sm of
         Inl e \<Rightarrow> (Some (Errorf ''apply metrics scraper binding subjects for ServiceMonitor'' e), tc, w)
       | Inr sm' \<Rightarrow> (case ApplyOwned M A sm' tc w of
           (Inl e, tc', w') \<Rightarrow> (Some e, tc', w')
         | (Inr obj, tc', w') \<Rightarrow> (None, tc', w')))))"

definition operand_scrape_config :: "machinery \<Rightarrow> 's api \<Rightarrow> object_store \<Rightarrow> 's operand_env \<Rightarrow> component \<Rightarrow> string \<Rightarrow> string \<Rightarrow>
    's scrape_config" where
  "operand_scrape_config M A S env c ns name = \<lparr> sc_Client = A, sc_Clock = env_Clock env, sc_TokenCreator = env_TokenCreator env,
     sc_ScraperNamespace = ns, sc_ScraperName = MetricsScraperServiceAccountName, sc_OperandNamespace = ns,
     sc_ServiceMonitorName = name, sc_Apply = Some (ApplyOwned M A),
     sc_ApplyServiceMonitor = Some (apply_operand_sm M A S c ns name), sc_SecretReader = env_SecretReader env \<rparr>"

section \<open>What a scrape reconcile keeps\<close>

lemma CreateScraperToken_quiet: "CreateScraperToken A c ns name ttl w = (r, w') \<Longrightarrow> emits quiet w w'"
  by (auto simp: CreateScraperToken_def Let_def split: if_splits prod.splits sum.splits option.splits
      dest!: quiet_calls intro: emits_trans)

lemma EvaluateMetricsScrapeTLS_quiet: "EvaluateMetricsScrapeTLS X A rd ns w = (r, w') \<Longrightarrow> emits quiet w w'"
  by (auto simp: EvaluateMetricsScrapeTLS_def Let_def split: if_splits prod.splits sum.splits dest!: quiet_calls)

lemma ensureTLS_quiet: "ensureMetricsTLSReadyForServiceMonitor X cfg w = (r, w') \<Longrightarrow> emits quiet w w'"
  by (auto simp: ensureMetricsTLSReadyForServiceMonitor_def ReconcileMetricsScrapeTLS_def
      split: prod.splits sum.splits dest!: EvaluateMetricsScrapeTLS_quiet)

lemma probe_quiet: "probeOperandServiceMonitor A ns name w = (r, w') \<Longrightarrow> emits quiet w w'"
  by (auto simp: probeOperandServiceMonitor_def split: prod.splits sum.splits dest!: quiet_calls)

lemma plan_quiet: "planServiceMonitorResync X cfg t l s w = (r, w') \<Longrightarrow> emits quiet w w'"
  by (auto simp: planServiceMonitorResync_def split: prod.splits dest!: quiet_calls)

lemma resync_deadline_quiet: "resync_deadline clk opts w = (r, w') \<Longrightarrow> emits quiet w w'"
  by (auto simp: resync_deadline_def split: if_splits prod.splits dest!: quiet_calls)

lemma ResyncOperandServiceMonitor_quiet: "ResyncOperandServiceMonitor A clk ns name opts w = (r, w') \<Longrightarrow> emits quiet w w'"
  by (auto simp: ResyncOperandServiceMonitor_def split: if_splits prod.splits sum.splits
      dest!: quiet_calls resync_deadline_quiet intro: emits_trans)

text \<open>
  The contract between the scrape reconcile and its callers: the callbacks only write through the
  tracking client, track what they applied, and report a patch that failed.
\<close>

locale scrape_callbacks =
  fixes M :: machinery and cfg :: "'s scrape_config"
  assumes apply_step: "sc_Apply cfg = Some f \<Longrightarrow> f obj tc w = (r, tc', w') \<Longrightarrow> good_step M (\<exists>x. r = Inr x) tc w tc' w'"
    and apply_sm_step: "sc_ApplyServiceMonitor cfg = Some g \<Longrightarrow> g tc w = (r', tc', w') \<Longrightarrow> good_step M (r' = None) tc w tc' w'"
begin

lemma keep_token_step:
  "sc_Apply cfg = Some f \<Longrightarrow> keep_token X f existing now ttl tc w = (r, tc', w') \<Longrightarrow> good_step M (\<exists>x. r = Inr x) tc w tc' w'"
  unfolding keep_token_def by (auto split: prod.splits sum.splits dest!: apply_step simp: good_step_def)

lemma mint_token_step:
  assumes "sc_Apply cfg = Some f" and "mint_token X i c f existed now ttl tc w = (r, tc', w')"
  shows "good_step M (\<exists>x. r = Inr x) tc w tc' w'"
proof -
  obtain t w1 where t: "CreateScraperToken (ei_Client i) c (ei_ScraperNamespace i) (ei_ScraperName i) ttl w = (t, w1)" by fastforce
  have q: "good_step M ok tc w tc w1" for ok using CreateScraperToken_quiet [OF t] by (rule good_step_quiet)
  show ?thesis
  proof (cases t)
    case (Inl e)
    with assms t q show ?thesis by (auto simp: mint_token_def)
  next
    case (Inr p)
    obtain token ex where p: "p = (token, ex)" by fastforce
    obtain s tc2 w2 where s: "f (scrapeTokenSecret (ei_OperandNamespace i) token ex) tc w1 = (s, tc2, w2)" by (metis prod_cases3)
    from apply_step [OF assms(1) s] have "good_step M (\<exists>x. r = Inr x) tc w1 tc' w'"
      using assms(2) t Inr p s by (auto simp: mint_token_def good_step_def split: sum.splits)
    then show ?thesis by (rule good_step_trans [OF q])
  qed
qed

end

context scrape_callbacks
begin

lemma ensure_step:
  assumes i: "ei_Apply i = sc_Apply cfg" and run: "EnsurePrometheusScrapeToken X i tc w = (r, tc', w')"
  shows "good_step M (\<exists>x. r = Inr x) tc w tc' w'"
proof (cases "\<exists>f c. sc_Apply cfg = Some f \<and> ei_TokenCreator i = Some c \<and> ei_OperandNamespace i \<noteq> [] \<and>
    ei_ScraperNamespace i \<noteq> [] \<and> ei_ScraperName i \<noteq> []")
  case False
  with run i show ?thesis by (auto simp: EnsurePrometheusScrapeToken_def Let_def split: option.splits if_splits)
next
  case True
  then obtain f c where f: "sc_Apply cfg = Some f" and c: "ei_TokenCreator i = Some c" "ei_OperandNamespace i \<noteq> []"
    "ei_ScraperNamespace i \<noteq> []" "ei_ScraperName i \<noteq> []" by blast
  obtain now w1 where n: "k_now (the_clock (ei_Client i) (ei_Clock i)) w = (now, w1)" by fastforce
  obtain g w2 where g: "k_get (ei_Client i) secretGVK (ei_OperandNamespace i) ScrapeTokenSecretName w1 = (g, w2)" by fastforce
  have "emits quiet w w2" using quiet_calls(7) [OF n] quiet_calls(1) [OF g] by (rule emits_trans)
  then have q: "good_step M ok tc w tc w2" for ok by (rule good_step_quiet)
  consider "tc' = tc" "w' = w2" | existing ttl where "keep_token X f existing now ttl tc w2 = (r, tc', w')"
    | existed ttl where "mint_token X i c f existed now ttl tc w2 = (r, tc', w')"
    using run i f c n g by (auto simp: EnsurePrometheusScrapeToken_def Let_def split: sum.splits if_splits)
  then show ?thesis
  proof cases
    case 1
    with q show ?thesis by simp
  next
    case 2
    from good_step_trans [OF q keep_token_step [OF f 2]] show ?thesis .
  next
    case 3
    from good_step_trans [OF q mint_token_step [OF f 3]] show ?thesis .
  qed
qed

lemma retain_step:
  assumes "retainOperandServiceMonitorIfPresent cfg tc w = (r, tc', w')"
  shows "good_step M (r = None) tc w tc' w'"
proof (cases "sc_ApplyServiceMonitor cfg")
  case None
  with assms show ?thesis by (simp add: retainOperandServiceMonitorIfPresent_def)
next
  case (Some f)
  obtain g w1 where g: "k_get (metricsTLSReader (sc_Client cfg) (sc_SecretReader cfg)) serviceMonitorGVK
      (sc_OperandNamespace cfg) (sc_ServiceMonitorName cfg) w = (g, w1)" by fastforce
  have q: "good_step M ok tc w tc w1" for ok using quiet_calls(1) [OF g] by (rule good_step_quiet)
  obtain s tc2 w2 where s: "f tc w1 = (s, tc2, w2)" by (metis prod_cases3)
  from apply_sm_step [OF Some s] have "good_step M (s = None) tc w tc2 w2" by (rule good_step_trans [OF q])
  with assms Some g q s show ?thesis
    by (auto simp: retainOperandServiceMonitorIfPresent_def split: if_splits sum.splits option.splits)
qed

lemma apply_or_probe_step:
  assumes "applyOrProbeOperandServiceMonitor cfg tc w = (r, tc', w')"
  shows "good_step M (\<exists>x. r = Inr x) tc w tc' w'"
proof -
  obtain p w1 where p: "probeOperandServiceMonitor (sc_Client cfg) (sc_OperandNamespace cfg) (sc_ServiceMonitorName cfg) w = (p, w1)"
    by fastforce
  have q: "good_step M ok tc w tc w1" for ok using probe_quiet [OF p] by (rule good_step_quiet)
  show ?thesis
  proof (cases "sc_ApplyServiceMonitor cfg")
    case None
    with assms p q show ?thesis by (auto simp: applyOrProbeOperandServiceMonitor_def)
  next
    case (Some f)
    obtain s tc2 w2 where s: "f tc w1 = (s, tc2, w2)" by (metis prod_cases3)
    from apply_sm_step [OF Some s] have "good_step M (s = None) tc w tc2 w2" by (rule good_step_trans [OF q])
    with assms Some p s show ?thesis
      by (auto simp: applyOrProbeOperandServiceMonitor_def applyDeferredOperandServiceMonitor_def good_step_def split: option.splits)
  qed
qed

lemma finish_step:
  assumes run: "finish_scrape X cfg t l tc w = (r, tc', w')"
  shows "good_step M (\<exists>x. r = Inr x) tc w tc' w'"
proof -
  obtain a tc1 w1 where a: "applyOrProbeOperandServiceMonitor cfg tc w = (a, tc1, w1)" by (metis prod_cases3)
  note sa = apply_or_probe_step [OF a]
  show ?thesis
  proof (cases a)
    case (Inl e)
    with run a sa show ?thesis by (auto simp: finish_scrape_def)
  next
    case (Inr sm)
    obtain opts wait w2 where p: "planServiceMonitorResync X cfg t l sm w1 = ((opts, wait), w2)" by (metis prod.exhaust_sel)
    have "emits quiet w2 w' \<and> tc' = tc1"
      using run a Inr p
      by (auto simp: finish_scrape_def split: if_splits prod.splits option.splits dest!: ResyncOperandServiceMonitor_quiet)
    with plan_quiet [OF p] have "good_step M ok tc1 w1 tc' w'" for ok by (auto intro: good_step_quiet emits_trans)
    moreover have "good_step M True tc w tc1 w1" using sa Inr by (simp add: good_step_def)
    ultimately show ?thesis by (blast intro: good_step_trans)
  qed
qed

lemma reconcile_step:
  assumes run: "ReconcilePrometheusScrapeToken X cfg tc w = (r, tc', w')"
  shows "good_step M (\<exists>x. r = Inr x) tc w tc' w'"
proof (cases "validateScrapeTokenReconcilerConfig cfg")
  case (Some e)
  with run show ?thesis by (simp add: ReconcilePrometheusScrapeToken_def)
next
  case None
  let ?i = "\<lparr> ei_Client = sc_Client cfg, ei_Clock = sc_Clock cfg,
         ei_TokenCreator = sc_TokenCreator cfg, ei_ScraperNamespace = sc_ScraperNamespace cfg, ei_ScraperName = sc_ScraperName cfg,
         ei_OperandNamespace = sc_OperandNamespace cfg, ei_Apply = sc_Apply cfg, ei_TTL = 0 \<rparr>"
  obtain t tc1 w1 where t: "EnsurePrometheusScrapeToken X ?i tc w = (t, tc1, w1)" by (metis prod_cases3)
  have st: "good_step M (\<exists>x. t = Inr x) tc w tc1 w1" by (rule ensure_step [OF _ t]) simp
  show ?thesis
  proof (cases t)
    case (Inl e)
    with run None t st show ?thesis by (auto simp: ReconcilePrometheusScrapeToken_def)
  next
    case (Inr tok)
    with st have st: "good_step M True tc w tc1 w1" by simp
    obtain l w2 where l: "ensureMetricsTLSReadyForServiceMonitor X cfg w1 = (l, w2)" by fastforce
    have "good_step M True tc1 w1 tc1 w2" using ensureTLS_quiet [OF l] by (rule good_step_quiet)
    with st have sl: "good_step M True tc w tc1 w2" by (rule good_step_trans)
    consider "tc' = tc1" "w' = w1" | "tc' = tc1" "w' = w2" | r' where "retainOperandServiceMonitorIfPresent cfg tc1 w2 = (r', tc', w')" "(\<exists>x. r = Inr x) \<longrightarrow> r' = None"
      | tls where "finish_scrape X cfg tok tls tc1 w2 = (r, tc', w')"
      using run None t Inr l
      by (auto simp: ReconcilePrometheusScrapeToken_def split: if_splits prod.splits sum.splits option.splits)
    then show ?thesis
    proof cases
      case 3
      from good_step_trans [OF sl retain_step [OF 3(1)]] 3(2) show ?thesis by (auto simp: good_step_def)
    next
      case 4
      from good_step_trans [OF sl finish_step [OF 4]] show ?thesis .
    qed (use st sl in \<open>auto simp: good_step_def\<close>)
  qed
qed

end

lemma apply_operand_sm_step: "apply_operand_sm M A S c ns name tc w = (r, tc', w') \<Longrightarrow> good_step M (r = None) tc w tc' w'"
  using ApplyOwned_phase [of M A]
  by (auto simp: apply_operand_sm_def good_step_def split: sum.splits option.splits prod.splits)

interpretation operand_scrape: scrape_callbacks M "operand_scrape_config M A S env c ns name" for M A S env c ns name
proof (unfold_locales, goal_cases)
  case (1 f obj tc w r tc' w')
  then have "ApplyOwned M A obj tc w = (r, tc', w')" by (simp add: operand_scrape_config_def)
  then show ?case using ApplyOwned_phase by (auto simp: good_step_def)
next
  case (2 g tc w r tc' w')
  then have "apply_operand_sm M A S c ns name tc w = (r, tc', w')" by (simp add: operand_scrape_config_def)
  then show ?case by (rule apply_operand_sm_step)
qed

section \<open>The ServiceMonitor comes last\<close>

abbreviation has_token :: "kobj \<Rightarrow> bool" where
  "has_token s \<equiv> go_get (secret_data s) ScrapeTokenSecretKey \<noteq> []"

definition cert_verifies :: "scrape_lib \<Rightarrow> kobj \<Rightarrow> bool" where
  "cert_verifies X cert \<longleftrightarrow> go_get (secret_data cert) ''ca.crt'' \<noteq> [] \<and> go_get (secret_data cert) ''tls.crt'' \<noteq> [] \<and>
     VerifyCertPEMSignedByCA X (go_get (secret_data cert) ''tls.crt'') (go_get (secret_data cert) ''ca.crt'') = None"

lemma prepareSecretForApply_data [simp]: "secret_data (prepareSecretForApply s) = secret_data s"
  by (simp add: prepareSecretForApply_def ensureSecretTypeMeta_def secret_data_def)

lemma CreateScraperToken_token: "CreateScraperToken A c ns name ttl w = (Inr (token, ex), w') \<Longrightarrow> token \<noteq> []"
  by (auto simp: CreateScraperToken_def Let_def split: if_splits prod.splits sum.splits option.splits)

lemma scrapeTokenSecret_token: "token \<noteq> [] \<Longrightarrow> has_token (scrapeTokenSecret ns token ex)"
  by (simp add: scrapeTokenSecret_def new_object_def secret_data_def go_get_def)

lemma token_apply_trace:
  assumes q: "emits quiet w w1" and ap: "ApplyOwned M A s0 tc w1 = (a, tc', w')" and s0: "has_token s0"
    and r: "\<And>res. r = Inr res \<Longrightarrow> \<exists>y. a = Inr y"
  shows "(emits quiet w w' \<and> (\<exists>e. r = Inl e)) \<or>
    (\<exists>pre opts sent x. events w' = events w @ pre @ [EPatch SSAPatch opts sent x] \<and> list_all quiet pre \<and>
       SetOwnership M tc s0 = Inr sent \<and> (\<forall>res. r = Inr res \<longrightarrow> (\<exists>ans. x = Inr ans)))"
proof (cases rule: ApplyOwned_trace [OF ap])
  case (1 e)
  with q r show ?thesis by (cases r) auto
next
  case (2 opts sent x)
  have "events w1 = events w @ added w w1" "list_all quiet (added w w1)" using q by (simp_all add: emits_def extends_iff)
  with 2 r show ?thesis by (intro disjI2) fastforce
qed

lemma ensure_trace:
  assumes i: "ei_Apply i = Some (ApplyOwned M A)" and run: "EnsurePrometheusScrapeToken X i tc w = (r, tc', w')"
  shows "(emits quiet w w' \<and> (\<exists>e. r = Inl e)) \<or>
    (\<exists>pre opts s0 sent x. events w' = events w @ pre @ [EPatch SSAPatch opts sent x] \<and> list_all quiet pre \<and>
       has_token s0 \<and> SetOwnership M tc s0 = Inr sent \<and> (\<forall>res. r = Inr res \<longrightarrow> (\<exists>ans. x = Inr ans)))"
proof (cases "\<exists>c. ei_TokenCreator i = Some c \<and> ei_OperandNamespace i \<noteq> [] \<and> ei_ScraperNamespace i \<noteq> [] \<and> ei_ScraperName i \<noteq> []")
  case False
  with run i show ?thesis by (auto simp: EnsurePrometheusScrapeToken_def Let_def split: option.splits if_splits)
next
  case True
  then obtain c where c: "ei_TokenCreator i = Some c" "ei_OperandNamespace i \<noteq> []" "ei_ScraperNamespace i \<noteq> []" "ei_ScraperName i \<noteq> []" by blast
  obtain now w1 where n: "k_now (the_clock (ei_Client i) (ei_Clock i)) w = (now, w1)" by fastforce
  obtain g w2 where g: "k_get (ei_Client i) secretGVK (ei_OperandNamespace i) ScrapeTokenSecretName w1 = (g, w2)" by fastforce
  have q: "emits quiet w w2" using quiet_calls(7) [OF n] quiet_calls(1) [OF g] by (rule emits_trans)
  consider "w' = w2" "\<exists>e. r = Inl e"
    | existing ttl where "\<not> ScrapeTokenNeedsRefresh X (Some existing) now ttl" "keep_token X (ApplyOwned M A) existing now ttl tc w2 = (r, tc', w')"
    | existed ttl where "mint_token X i c (ApplyOwned M A) existed now ttl tc w2 = (r, tc', w')"
    using run i c n g by (auto simp: EnsurePrometheusScrapeToken_def Let_def split: sum.splits if_splits)
  then show ?thesis
  proof cases
    case 1
    with q show ?thesis by simp
  next
    case (2 existing ttl)
    from 2(1) have t: "has_token (prepareSecretForApply existing)" by (simp add: ScrapeTokenNeedsRefresh_def split: if_splits)
    obtain a tc2 w3 where a: "ApplyOwned M A (prepareSecretForApply existing) tc w2 = (a, tc2, w3)" by (metis prod_cases3)
    with 2(2) have "w' = w3" "\<And>res. r = Inr res \<Longrightarrow> \<exists>y. a = Inr y" by (auto simp: keep_token_def split: sum.splits)
    with token_apply_trace [OF q a t, of r] t show ?thesis by metis
  next
    case (3 existed ttl)
    obtain k w3 where k: "CreateScraperToken (ei_Client i) c (ei_ScraperNamespace i) (ei_ScraperName i) ttl w2 = (k, w3)" by fastforce
    have q3: "emits quiet w w3" using q CreateScraperToken_quiet [OF k] by (rule emits_trans)
    show ?thesis
    proof (cases k)
      case (Inl e)
      with 3 k q3 show ?thesis by (auto simp: mint_token_def)
    next
      case (Inr p)
      obtain token ex where p: "p = (token, ex)" by fastforce
      from CreateScraperToken_token k Inr p have t: "has_token (scrapeTokenSecret (ei_OperandNamespace i) token ex)"
        by (intro scrapeTokenSecret_token) blast
      obtain a tc2 w4 where a: "ApplyOwned M A (scrapeTokenSecret (ei_OperandNamespace i) token ex) tc w3 = (a, tc2, w4)" by (metis prod_cases3)
      with 3 k Inr p have "w' = w4" "\<And>res. r = Inr res \<Longrightarrow> \<exists>y. a = Inr y" by (auto simp: mint_token_def split: sum.splits)
      with token_apply_trace [OF q3 a t, of r] t show ?thesis by metis
    qed
  qed
qed

lemma ensureTLS_trace:
  assumes "ensureMetricsTLSReadyForServiceMonitor X cfg w = (Inr (tls, wait), w')"
  obtains g where "events w' = events w @ [EGet secretGVK (sc_OperandNamespace cfg) MetricsServerCertSecretName g]"
    "wait = None \<Longrightarrow> \<exists>cert. g = Inr cert \<and> cert_verifies X cert" "Reason tls \<noteq> MetricsTLSReasonCertMissing \<Longrightarrow> \<exists>cert. g = Inr cert"
proof -
  obtain g w1 where g: "k_get (metricsTLSReader (sc_Client cfg) (sc_SecretReader cfg)) secretGVK (sc_OperandNamespace cfg)
      MetricsServerCertSecretName w = (g, w1)" by fastforce
  from assms g have "w' = w1" "wait = None \<Longrightarrow> \<exists>cert. g = Inr cert \<and> cert_verifies X cert"
    "Reason tls \<noteq> MetricsTLSReasonCertMissing \<Longrightarrow> \<exists>cert. g = Inr cert"
    by (auto simp: ensureMetricsTLSReadyForServiceMonitor_def ReconcileMetricsScrapeTLS_def EvaluateMetricsScrapeTLS_def Let_def
        MetricsScrapeTLSResult_def cert_verifies_def split: if_splits sum.splits prod.splits)
  with k_call_events(1) [OF g] that show thesis by blast
qed

lemma apply_operand_sm_trace:
  assumes "apply_operand_sm M A S c ns name tc w = (r, tc', w')"
  obtains "w' = w"
  | objects sm sm' opts sent x where "GetForComponent S c = Inr objects" "OperandServiceMonitorFromObjects objects ns name = Some sm"
      "ApplyMetricsScraperBindingSubjects ns sm = Inr sm'" "SetOwnership M tc sm' = Inr sent"
      "events w' = events w @ [EPatch SSAPatch opts sent x]"
proof -
  consider "w' = w" | objects sm sm' a where "GetForComponent S c = Inr objects" "OperandServiceMonitorFromObjects objects ns name = Some sm"
      "ApplyMetricsScraperBindingSubjects ns sm = Inr sm'" "ApplyOwned M A sm' tc w = (a, tc', w')"
    using assms by (auto simp: apply_operand_sm_def split: sum.splits option.splits prod.splits)
  then show thesis
  proof cases
    case 2
    from that show thesis by (cases rule: ApplyOwned_trace [OF 2(4)]) (use 2 in auto)
  qed (rule that(1))
qed

text \<open>The tail of a scrape reconcile: at most one patch of the tracking client, the ServiceMonitor.\<close>

definition sm_patch :: "machinery \<Rightarrow> object_store \<Rightarrow> component \<Rightarrow> string \<Rightarrow> string \<Rightarrow> tracking_client \<Rightarrow> event list \<Rightarrow> bool" where
  "sm_patch M S c ns name tc es \<longleftrightarrow> (\<exists>before after objects sm sm' opts sent x. es = before @ EPatch SSAPatch opts sent x # after \<and>
     list_all quiet before \<and> list_all quiet after \<and> GetForComponent S c = Inr objects \<and>
     OperandServiceMonitorFromObjects objects ns name = Some sm \<and> ApplyMetricsScraperBindingSubjects ns sm = Inr sm' \<and>
     SetOwnership M tc sm' = Inr sent)"

lemma sm_patch_around:
  "emits quiet w w1 \<Longrightarrow> extends w1 w2 \<Longrightarrow> emits quiet w2 w3 \<Longrightarrow> sm_patch M S c ns name tc (added w1 w2) \<Longrightarrow>
     sm_patch M S c ns name tc (added w w3)"
proof -
  assume e: "emits quiet w w1" "extends w1 w2" "emits quiet w2 w3" and p: "sm_patch M S c ns name tc (added w1 w2)"
  have "extends w w1" "extends w2 w3" using e by (auto intro: emits_extends)
  then have ev: "added w w3 = added w w1 @ added w1 w2 @ added w2 w3"
    using e(2) added_trans [of w w1 w2] added_trans [of w w2 w3] extends_trans [of w w1 w2] by simp
  obtain before after objects sm sm' opts sent x where d: "added w1 w2 = before @ EPatch SSAPatch opts sent x # after"
    "list_all quiet before" "list_all quiet after" "GetForComponent S c = Inr objects"
    "OperandServiceMonitorFromObjects objects ns name = Some sm" "ApplyMetricsScraperBindingSubjects ns sm = Inr sm'"
    "SetOwnership M tc sm' = Inr sent"
    using p unfolding sm_patch_def by blast
  have "added w w3 = (added w w1 @ before) @ EPatch SSAPatch opts sent x # (after @ added w2 w3)" using ev d(1) by simp
  moreover have "list_all quiet (added w w1 @ before)" "list_all quiet (after @ added w2 w3)" using e d by (simp_all add: emits_def)
  ultimately show ?thesis unfolding sm_patch_def using d(4-7) by blast
qed

lemma apply_operand_sm_patch:
  assumes "apply_operand_sm M A S c ns name tc w = (r, tc', w')"
  shows "extends w w' \<and> (w' = w \<or> sm_patch M S c ns name tc (added w w'))"
proof (cases rule: apply_operand_sm_trace [OF assms])
  case 1
  then show ?thesis by simp
next
  case (2 objects sm sm' opts sent x)
  then have "added w w' = [] @ EPatch SSAPatch opts sent x # []" by (simp add: addedI)
  then show ?thesis using 2 unfolding sm_patch_def by (fastforce intro: extendsI)
qed

lemma finish_trace:
  assumes run: "finish_scrape X (operand_scrape_config M A S env c ns name) t l tc w = (r, tc', w')"
  shows "extends w w' \<and> (emits quiet w w' \<or> sm_patch M S c ns name tc (added w w'))"
proof -
  let ?cfg = "operand_scrape_config M A S env c ns name"
  obtain p w1 where p: "probeOperandServiceMonitor A ns name w = (p, w1)" by fastforce
  obtain s tc2 w2 where s: "apply_operand_sm M A S c ns name tc w1 = (s, tc2, w2)" by (metis prod_cases3)
  have "emits quiet w2 w'"
    using run p s
    by (auto simp: finish_scrape_def applyOrProbeOperandServiceMonitor_def applyDeferredOperandServiceMonitor_def operand_scrape_config_def
        split: option.splits if_splits prod.splits dest!: plan_quiet ResyncOperandServiceMonitor_quiet intro: emits_trans)
  note around = probe_quiet [OF p] apply_operand_sm_patch [OF s] this
  from around have "extends w w'" by (blast intro: emits_extends extends_trans)
  moreover have "emits quiet w w' \<or> sm_patch M S c ns name tc (added w w')"
    using around sm_patch_around [of w w1 w2 w' M S c ns name tc] by (auto intro: emits_trans)
  ultimately show ?thesis ..
qed

lemma retain_trace:
  assumes run: "retainOperandServiceMonitorIfPresent (operand_scrape_config M A S env c ns name) tc w = (r, tc', w')"
  shows "extends w w' \<and> (emits quiet w w' \<or> (\<exists>prior es. added w w' = EGet serviceMonitorGVK ns name (Inr prior) # es \<and> sm_patch M S c ns name tc es))"
proof (cases "name = []")
  case True
  with run show ?thesis by (simp add: retainOperandServiceMonitorIfPresent_def operand_scrape_config_def)
next
  case False
  obtain g w1 where g: "k_get (metricsTLSReader A (env_SecretReader env)) serviceMonitorGVK ns name w = (g, w1)" by fastforce
  show ?thesis
  proof (cases g)
    case (Inl e)
    with run g False have "w' = w1"
      by (auto simp: retainOperandServiceMonitorIfPresent_def operand_scrape_config_def split: if_splits)
    with quiet_calls(1) [OF g] show ?thesis by (auto intro: emits_extends)
  next
    case (Inr prior)
    obtain s tc2 w2 where s: "apply_operand_sm M A S c ns name tc w1 = (s, tc2, w2)" by (metis prod_cases3)
    with run g False Inr have "w' = w2"
      by (auto simp: retainOperandServiceMonitorIfPresent_def operand_scrape_config_def split: option.splits)
    moreover have "added w w2 = EGet serviceMonitorGVK ns name (Inr prior) # added w1 w2" "extends w w2"
      using k_call_added(1) [OF g] k_call_extends(1) [OF g] apply_operand_sm_patch [OF s] added_trans [of w w1 w2] Inr
      by (auto intro: extends_trans)
    ultimately show ?thesis using apply_operand_sm_patch [OF s] quiet_calls(1) [OF g] by auto
  qed
qed

lemma quiet_prefix:
  assumes "list_all quiet pre" and "pre @ rest = before @ EPatch p opts obj x # after"
  obtains b where "before = pre @ b" "rest = b @ EPatch p opts obj x # after"
proof -
  have "\<not> length before < length pre"
  proof
    assume l: "length before < length pre"
    from arg_cong [OF assms(2), of "\<lambda>xs. xs ! length before"] l have "pre ! length before = EPatch p opts obj x" by (simp add: nth_append)
    moreover have "quiet (pre ! length before)" using assms(1) l by (simp add: list_all_length)
    ultimately show False by simp
  qed
  then show thesis using assms(2) that by (auto simp: append_eq_append_conv2 append_eq_Cons_conv dest: arg_cong [of _ _ length])
qed

lemma quiet_no_EPatch: "list_all quiet es \<Longrightarrow> es \<noteq> before @ EPatch p opts obj x # after"
  by (auto simp: list_all_iff)

lemma sm_patch_here:
  assumes "sm_patch M S c ns name tc es" and "es = b @ EPatch p opts obj x # after"
  shows "\<exists>objects sm sm'. GetForComponent S c = Inr objects \<and> OperandServiceMonitorFromObjects objects ns name = Some sm \<and>
     ApplyMetricsScraperBindingSubjects ns sm = Inr sm' \<and> SetOwnership M tc sm' = Inr obj"
proof -
  from assms(1) obtain bf af objects sm sm' o' sent x' where d: "es = bf @ EPatch SSAPatch o' sent x' # af"
    "list_all quiet bf" "list_all quiet af" "GetForComponent S c = Inr objects"
    "OperandServiceMonitorFromObjects objects ns name = Some sm" "ApplyMetricsScraperBindingSubjects ns sm = Inr sm'"
    "SetOwnership M tc sm' = Inr sent"
    unfolding sm_patch_def by blast
  from d(1) assms(2) have "bf @ EPatch SSAPatch o' sent x' # af = b @ EPatch p opts obj x # after" by simp
  then obtain b' where "EPatch SSAPatch o' sent x' # af = b' @ EPatch p opts obj x # after" by (rule quiet_prefix [OF d(2)])
  then have "obj = sent" using quiet_no_EPatch [OF d(3)] by (cases b') auto
  with d show ?thesis by blast
qed

lemma token_split:
  assumes "list_all quiet pre" and "list_all quiet mid"
    and "pre @ (EPatch SSAPatch opts0 sent x0 # mid @ tail) = before @ EPatch p opts obj x # after"
  obtains "before = pre" "obj = sent"
  | b where "before = pre @ EPatch SSAPatch opts0 sent x0 # mid @ b" "tail = b @ EPatch p opts obj x # after"
proof -
  from assms(3) obtain b where b: "before = pre @ b" "EPatch SSAPatch opts0 sent x0 # mid @ tail = b @ EPatch p opts obj x # after"
    by (rule quiet_prefix [OF assms(1)])
  show thesis
  proof (cases b)
    case Nil
    with b that(1) show thesis by simp
  next
    case (Cons e b')
    with b(2) have "mid @ tail = b' @ EPatch p opts obj x # after" "e = EPatch SSAPatch opts0 sent x0" by auto
    with b(1) Cons that(2) show thesis by (metis quiet_prefix [OF assms(2)])
  qed
qed

text \<open>
  The trace of a scrape reconcile: nothing applied, only the token applied, or the token, reads of the
  certificate and of the ServiceMonitor, and then the ServiceMonitor.
\<close>

definition token_patch :: "machinery \<Rightarrow> tracking_client \<Rightarrow> event \<Rightarrow> bool" where
  "token_patch M tc e \<longleftrightarrow> (\<exists>opts s0 sent x. e = EPatch SSAPatch opts sent x \<and> has_token s0 \<and> SetOwnership M tc s0 = Inr sent)"

definition gate_open :: "scrape_lib \<Rightarrow> string \<Rightarrow> string \<Rightarrow> event list \<Rightarrow> bool" where
  "gate_open X ns name reads \<longleftrightarrow> (\<exists>cert. EGet secretGVK ns MetricsServerCertSecretName (Inr cert) \<in> set reads \<and>
     (cert_verifies X cert \<or> (\<exists>prior. EGet serviceMonitorGVK ns name (Inr prior) \<in> set reads)))"

definition scrape_trace :: "scrape_lib \<Rightarrow> machinery \<Rightarrow> object_store \<Rightarrow> component \<Rightarrow> string \<Rightarrow> string \<Rightarrow> tracking_client \<Rightarrow> event list \<Rightarrow> bool" where
  "scrape_trace X M S c ns name tc es \<longleftrightarrow> list_all quiet es \<or>
     (\<exists>pre e mid. es = pre @ e # mid \<and> list_all quiet pre \<and> token_patch M tc e \<and> list_all quiet mid) \<or>
     (\<exists>pre opts sent ans mid tail. es = pre @ EPatch SSAPatch opts sent (Inr ans) # mid @ tail \<and> list_all quiet pre \<and>
        token_patch M tc (EPatch SSAPatch opts sent (Inr ans)) \<and> list_all quiet mid \<and> gate_open X ns name mid \<and>
        sm_patch M S c ns name tc tail)"

lemma token_patchI: "has_token s0 \<Longrightarrow> SetOwnership M tc s0 = Inr sent \<Longrightarrow> token_patch M tc (EPatch SSAPatch opts sent x)"
  by (auto simp: token_patch_def)

lemma scrape_trace_quiet: "list_all quiet es \<Longrightarrow> scrape_trace X M S c ns name tc es"
  unfolding scrape_trace_def by (rule disjI1)

lemma scrape_trace_token:
  assumes "es = pre @ e # mid" and "list_all quiet pre" and "token_patch M tc e" and "list_all quiet mid"
  shows "scrape_trace X M S c ns name tc es"
  unfolding scrape_trace_def
  by (rule disjI2, rule disjI1, rule exI [of _ pre], rule exI [of _ e], rule exI [of _ mid]) (use assms in blast)

lemma scrape_trace_sm:
  assumes "es = pre @ EPatch SSAPatch opts sent (Inr ans) # mid @ tail" and "list_all quiet pre"
    and "token_patch M tc (EPatch SSAPatch opts sent (Inr ans))" and "list_all quiet mid" and "gate_open X ns name mid"
    and "sm_patch M S c ns name tc tail"
  shows "scrape_trace X M S c ns name tc es"
  unfolding scrape_trace_def
  by (rule disjI2, rule disjI2, rule exI [of _ pre], rule exI [of _ opts], rule exI [of _ sent], rule exI [of _ ans],
      rule exI [of _ mid], rule exI [of _ tail]) (intro conjI assms)

lemma after_token_trace:
  assumes l: "ensureMetricsTLSReadyForServiceMonitor X (operand_scrape_config M A S env c ns name) w1 = (Inr (tls, wait), w2)"
    and own: "SetOwnership M tc1 = SetOwnership M tc"
    and run: "(wait \<noteq> None \<and> Reason tls \<noteq> MetricsTLSReasonCertMissing \<and>
        retainOperandServiceMonitorIfPresent (operand_scrape_config M A S env c ns name) tc1 w2 = (r', tc', w')) \<or>
      (wait = None \<and> finish_scrape X (operand_scrape_config M A S env c ns name) res tls tc1 w2 = (r, tc', w'))"
  shows "extends w1 w' \<and> (list_all quiet (added w1 w') \<or>
    (\<exists>mid tail. added w1 w' = mid @ tail \<and> list_all quiet mid \<and> gate_open X ns name mid \<and> sm_patch M S c ns name tc tail))"
proof -
  let ?cert = "\<lambda>g. EGet secretGVK ns MetricsServerCertSecretName g"
  have "sc_OperandNamespace (operand_scrape_config M A S env c ns name) = ns" by (simp add: operand_scrape_config_def)
  then obtain g where ev: "events w2 = events w1 @ [?cert g]"
    and gate: "wait = None \<Longrightarrow> \<exists>cert. g = Inr cert \<and> cert_verifies X cert" "Reason tls \<noteq> MetricsTLSReasonCertMissing \<Longrightarrow> \<exists>cert. g = Inr cert"
    using ensureTLS_trace [OF l, where thesis = thesis] by simp
  note g = addedI [OF ev] extendsI [OF ev] gate
  have own': "sm_patch M S c ns name tc1 = sm_patch M S c ns name tc" by (intro ext) (simp add: sm_patch_def own)
  have ext: "extends w2 w'" using run by (elim disjE conjE) (simp_all add: retain_trace finish_trace)
  have ad: "added w1 w' = ?cert g # added w2 w'" using added_trans [OF g(2) ext] g(1) by simp
  consider "emits quiet w2 w'" | cert prior es where "g = Inr cert" "added w2 w' = EGet serviceMonitorGVK ns name (Inr prior) # es" "sm_patch M S c ns name tc es"
    | cert where "g = Inr cert" "cert_verifies X cert" "sm_patch M S c ns name tc (added w2 w')"
    using run g(3,4) retain_trace [of M A S env c ns name tc1 w2 r' tc' w'] finish_trace [of X M A S env c ns name res tls tc1 w2 r tc' w']
    unfolding own' by blast
  then show ?thesis
  proof cases
    case 1
    then show ?thesis using ad g(2) ext by (auto simp: emits_def intro: extends_trans)
  next
    case (2 cert prior es)
    have "added w1 w' = [?cert (Inr cert), EGet serviceMonitorGVK ns name (Inr prior)] @ es" using ad 2 by simp
    moreover have "gate_open X ns name [?cert (Inr cert), EGet serviceMonitorGVK ns name (Inr prior)]" by (auto simp: gate_open_def)
    moreover have "list_all quiet [?cert (Inr cert), EGet serviceMonitorGVK ns name (Inr prior)]" by simp
    ultimately show ?thesis using 2(3) extends_trans [OF g(2) ext] by blast
  next
    case (3 cert)
    have "added w1 w' = [?cert (Inr cert)] @ added w2 w'" using ad 3 by simp
    moreover have "gate_open X ns name [?cert (Inr cert)]" using 3(2) by (auto simp: gate_open_def)
    moreover have "list_all quiet [?cert (Inr cert)]" by simp
    ultimately show ?thesis using 3(3) extends_trans [OF g(2) ext] by blast
  qed
qed

lemma token_then_trace:
  assumes "events w1 = events w @ pre @ [EPatch SSAPatch opts sent (Inr ans)]" and "list_all quiet pre"
    and "token_patch M tc (EPatch SSAPatch opts sent (Inr ans))"
    and "extends w1 w' \<and> (list_all quiet (added w1 w') \<or>
      (\<exists>mid tail. added w1 w' = mid @ tail \<and> list_all quiet mid \<and> gate_open X ns name mid \<and> sm_patch M S c ns name tc tail))"
  shows "scrape_trace X M S c ns name tc (added w w')"
proof -
  have ad: "added w w' = pre @ EPatch SSAPatch opts sent (Inr ans) # added w1 w'"
    using assms(1,4) added_trans [of w w1 w'] by (simp add: addedI extendsI)
  from assms(4) consider "list_all quiet (added w1 w')"
    | mid tail where "added w1 w' = mid @ tail" "list_all quiet mid" "gate_open X ns name mid" "sm_patch M S c ns name tc tail"
    by blast
  then show ?thesis
  proof cases
    case 1
    from scrape_trace_token [OF ad assms(2,3) 1] show ?thesis .
  next
    case (2 mid tail)
    from scrape_trace_sm [OF ad [unfolded 2(1)] assms(2,3) 2(2-4)] show ?thesis .
  qed
qed

lemma token_sent:
  assumes "ei_Apply i = Some (ApplyOwned M A)" and "EnsurePrometheusScrapeToken X i tc w = (Inr res, tc', w')"
  obtains pre opts s0 sent ans where "events w' = events w @ pre @ [EPatch SSAPatch opts sent (Inr ans)]" "list_all quiet pre"
    "has_token s0" "SetOwnership M tc s0 = Inr sent"
proof -
  from ensure_trace [OF assms] obtain pre opts s0 sent x where d: "events w' = events w @ pre @ [EPatch SSAPatch opts sent x]"
    "list_all quiet pre" "has_token s0" "SetOwnership M tc s0 = Inr sent" "\<exists>ans. x = Inr ans" by auto
  from d(5) obtain ans where "x = Inr ans" by (elim exE)
  with that d(1-4) show thesis by simp
qed

lemma reconcile_scrape_trace:
  assumes run: "ReconcilePrometheusScrapeToken X (operand_scrape_config M A S env c ns name) tc w = (r, tc', w')"
  shows "scrape_trace X M S c ns name tc (added w w')"
proof (cases "validateScrapeTokenReconcilerConfig (operand_scrape_config M A S env c ns name)")
  case (Some e)
  with run show ?thesis by (auto simp: ReconcilePrometheusScrapeToken_def intro: scrape_trace_quiet)
next
  case valid: None
  let ?cfg = "operand_scrape_config M A S env c ns name"
  let ?i = "\<lparr> ei_Client = A, ei_Clock = env_Clock env, ei_TokenCreator = env_TokenCreator env, ei_ScraperNamespace = ns,
     ei_ScraperName = MetricsScraperServiceAccountName, ei_OperandNamespace = ns, ei_Apply = Some (ApplyOwned M A), ei_TTL = 0 \<rparr>"
  have sel: "sc_Client ?cfg = A" "sc_Clock ?cfg = env_Clock env" "sc_TokenCreator ?cfg = env_TokenCreator env"
    "sc_ScraperNamespace ?cfg = ns" "sc_ScraperName ?cfg = MetricsScraperServiceAccountName" "sc_OperandNamespace ?cfg = ns"
    "sc_Apply ?cfg = Some (ApplyOwned M A)"
    by (simp_all add: operand_scrape_config_def)
  obtain t tc1 w1 where t: "EnsurePrometheusScrapeToken X ?i tc w = (t, tc1, w1)" by (metis prod_cases3)
  have own: "SetOwnership M tc1 = SetOwnership M tc"
    using operand_scrape.ensure_step [of ?i M A S env c ns name X tc w t tc1 w1] t sel
    by (intro ext) (simp add: good_step_def tracked_phase_def SetOwnership_def)
  obtain l w2 where l: "ensureMetricsTLSReadyForServiceMonitor X ?cfg w1 = (l, w2)" by fastforce
  have ap: "ei_Apply ?i = Some (ApplyOwned M A)" by simp
  note tok = ensure_trace [OF ap t]
  consider (failed) e where "t = Inl e" "w' = w1" | (only) res where "t = Inr res" "w' = w1 \<or> w' = w2"
    | (more) res tls wait r' where "t = Inr res" "l = Inr (tls, wait)"
        "(wait \<noteq> None \<and> Reason tls \<noteq> MetricsTLSReasonCertMissing \<and> retainOperandServiceMonitorIfPresent ?cfg tc1 w2 = (r', tc', w')) \<or>
         (wait = None \<and> finish_scrape X ?cfg res tls tc1 w2 = (r, tc', w'))"
    using run valid t sel l
    by (auto simp: ReconcilePrometheusScrapeToken_def split: sum.splits if_splits prod.splits option.splits)
  then show ?thesis
  proof cases
    case failed
    from tok show ?thesis
    proof (elim disjE exE conjE)
      assume "emits quiet w w1"
      then show ?thesis using failed(2) by (intro scrape_trace_quiet) (simp add: emits_def)
    next
      fix pre opts s0 sent x
      assume "events w1 = events w @ pre @ [EPatch SSAPatch opts sent x]" "list_all quiet pre" "has_token s0" "SetOwnership M tc s0 = Inr sent"
      then show ?thesis using failed(2)
        by (intro scrape_trace_token [of _ pre "EPatch SSAPatch opts sent x" "[]"] token_patchI) (simp_all add: addedI)
    qed
  next
    case only
    from token_sent [OF ap t [unfolded only(1)]] obtain pre opts s0 sent ans where "events w1 = events w @ pre @ [EPatch SSAPatch opts sent (Inr ans)]" "list_all quiet pre"
      "has_token s0" "SetOwnership M tc s0 = Inr sent" .
    moreover have "emits quiet w1 w'" using only(2) ensureTLS_quiet [OF l] by auto
    ultimately show ?thesis by (intro token_then_trace [of w1 w pre opts sent ans]) (auto simp: emits_def intro: token_patchI)
  next
    case more
    from token_sent [OF ap t [unfolded more(1)]] obtain pre opts s0 sent ans where "events w1 = events w @ pre @ [EPatch SSAPatch opts sent (Inr ans)]" "list_all quiet pre"
      "has_token s0" "SetOwnership M tc s0 = Inr sent" .
    then show ?thesis
      by (intro token_then_trace [OF _ _ _ after_token_trace [OF l [unfolded more(2)] own more(3)]]) (auto intro: token_patchI)
  qed
qed

text \<open>
  When a ServiceMonitor may be applied: a Secret with a token was accepted, the metrics certificate was
  read, and it verifies or a ServiceMonitor was found to exist already.
\<close>

definition sm_allowed :: "scrape_lib \<Rightarrow> machinery \<Rightarrow> string \<Rightarrow> string \<Rightarrow> tracking_client \<Rightarrow> event list \<Rightarrow> bool" where
  "sm_allowed X M ns name tc before \<longleftrightarrow> (\<exists>s0 opts sent ans cert.
     has_token s0 \<and> SetOwnership M tc s0 = Inr sent \<and> EPatch SSAPatch opts sent (Inr ans) \<in> set before \<and>
     EGet secretGVK ns MetricsServerCertSecretName (Inr cert) \<in> set before \<and>
     (cert_verifies X cert \<or> (\<exists>prior. EGet serviceMonitorGVK ns name (Inr prior) \<in> set before)))"

text \<open>
  Whatever the API server answers, an object that a scrape reconcile applies is a Secret with a token,
  applied first, or the ServiceMonitor of the component's manifests.
\<close>

lemma scrape_patch_cases:
  assumes run: "ReconcilePrometheusScrapeToken X (operand_scrape_config M A S env c ns name) tc w = (r, tc', w')"
    and patch: "added w w' = before @ EPatch p opts obj x # after"
  shows "(list_all quiet before \<and> (\<exists>s0. has_token s0 \<and> SetOwnership M tc s0 = Inr obj)) \<or>
    (\<exists>objects sm sm'. GetForComponent S c = Inr objects \<and> OperandServiceMonitorFromObjects objects ns name = Some sm \<and>
       ApplyMetricsScraperBindingSubjects ns sm = Inr sm' \<and> SetOwnership M tc sm' = Inr obj \<and> sm_allowed X M ns name tc before)"
proof -
  from reconcile_scrape_trace [OF run] patch have "\<not> list_all quiet (added w w')" by auto
  with reconcile_scrape_trace [OF run] consider
      pre e mid where "added w w' = pre @ e # mid" "list_all quiet pre" "token_patch M tc e" "list_all quiet mid"
    | pre opts' sent ans mid tail where "added w w' = pre @ EPatch SSAPatch opts' sent (Inr ans) # mid @ tail" "list_all quiet pre"
        "token_patch M tc (EPatch SSAPatch opts' sent (Inr ans))" "list_all quiet mid" "gate_open X ns name mid" "sm_patch M S c ns name tc tail"
    unfolding scrape_trace_def by blast
  then show ?thesis
  proof cases
    case (1 pre e mid)
    then obtain opts' s0 sent x' where e: "e = EPatch SSAPatch opts' sent x'" "has_token s0" "SetOwnership M tc s0 = Inr sent"
      by (auto simp: token_patch_def)
    with 1(1) patch have "pre @ (EPatch SSAPatch opts' sent x' # mid @ []) = before @ EPatch p opts obj x # after" by simp
    then show ?thesis by (rule token_split [OF 1(2,4)]) (use e 1(2) in auto)
  next
    case (2 pre opts' sent ans mid tail)
    then obtain s0 where s0: "has_token s0" "SetOwnership M tc s0 = Inr sent" by (auto simp: token_patch_def)
    from 2(1) patch have "pre @ (EPatch SSAPatch opts' sent (Inr ans) # mid @ tail) = before @ EPatch p opts obj x # after" by simp
    then show ?thesis
    proof (rule token_split [OF 2(2,4)])
      fix b assume b: "before = pre @ EPatch SSAPatch opts' sent (Inr ans) # mid @ b" "tail = b @ EPatch p opts obj x # after"
      with sm_patch_here [OF 2(6) b(2)] 2(5) s0 show ?thesis unfolding gate_open_def sm_allowed_def by (intro disjI2) fastforce
    qed (use s0 2(2) in auto)
  qed
qed

end
