(* ===== verification/Content_Hash.thy ===== *)
theory Content_Hash
  imports Component_Reconcilers Go_Paths "HOL-Library.Word" "HOL-Library.List_Lexorder" "HOL-Library.Char_ord"
begin

text \<open>
  Names with a content hash: \<open>pkg/contenthash\<close>, \<open>pkg/hashedconfigmap\<close> and \<open>pkg/hashedsecret\<close>. The
  suffix is the start of the SHA-256 digest of the content in hexadecimal; \<open>crypto/sha256\<close> and
  \<open>encoding/hex\<close> are modelled on 32-bit words, so that the definitions compute real names.
\<close>

unbundle bit_operations_syntax

section \<open>SHA-256\<close>

type_synonym w32 = "32 word"

definition sha_k :: "w32 list" where
  "sha_k = [
     1116352408, 1899447441, 3049323471, 3921009573, 961987163, 1508970993, 2453635748, 2870763221,
     3624381080, 310598401, 607225278, 1426881987, 1925078388, 2162078206, 2614888103, 3248222580,
     3835390401, 4022224774, 264347078, 604807628, 770255983, 1249150122, 1555081692, 1996064986,
     2554220882, 2821834349, 2952996808, 3210313671, 3336571891, 3584528711, 113926993, 338241895,
     666307205, 773529912, 1294757372, 1396182291, 1695183700, 1986661051, 2177026350, 2456956037,
     2730485921, 2820302411, 3259730800, 3345764771, 3516065817, 3600352804, 4094571909, 275423344,
     430227734, 506948616, 659060556, 883997877, 958139571, 1322822218, 1537002063, 1747873779,
     1955562222, 2024104815, 2227730452, 2361852424, 2428436474, 2756734187, 3204031479, 3329325298]"

definition sha_init :: "w32 list" where
  "sha_init = [1779033703, 3144134277, 1013904242, 2773480762, 1359893119, 2600822924, 528734635, 1541459225]"

definition rotr :: "nat \<Rightarrow> w32 \<Rightarrow> w32" where
  "rotr n x = drop_bit n x OR push_bit (32 - n) x"

definition small_sigma0 :: "w32 \<Rightarrow> w32" where
  "small_sigma0 x = rotr 7 x XOR rotr 18 x XOR drop_bit 3 x"

definition small_sigma1 :: "w32 \<Rightarrow> w32" where
  "small_sigma1 x = rotr 17 x XOR rotr 19 x XOR drop_bit 10 x"

definition big_sigma0 :: "w32 \<Rightarrow> w32" where
  "big_sigma0 x = rotr 2 x XOR rotr 13 x XOR rotr 22 x"

definition big_sigma1 :: "w32 \<Rightarrow> w32" where
  "big_sigma1 x = rotr 6 x XOR rotr 11 x XOR rotr 25 x"

text \<open>The message is padded with a one bit, zeros and its bit length to whole 64-byte blocks.\<close>

fun be_bytes :: "nat \<Rightarrow> int \<Rightarrow> int list" where
  "be_bytes 0 v = []"
| "be_bytes (Suc n) v = be_bytes n (v div 256) @ [v mod 256]"

definition sha_pad :: "int list \<Rightarrow> int list" where
  "sha_pad bs = (let l = length bs in bs @ [128] @ replicate ((119 - l mod 64) mod 64) 0 @ be_bytes 8 (8 * int l))"

fun be_words :: "int list \<Rightarrow> w32 list" where
  "be_words (a # b # c # d # bs) = word_of_int (((a * 256 + b) * 256 + c) * 256 + d) # be_words bs"
| "be_words _ = []"

text \<open>The message schedule keeps the last sixteen words, newest first, and emits the oldest.\<close>

fun msg_schedule :: "nat \<Rightarrow> w32 list \<Rightarrow> w32 list" where
  "msg_schedule 0 ws = []"
| "msg_schedule (Suc n) ws = ws ! 15 # msg_schedule n
     ((small_sigma1 (ws ! 1) + ws ! 6 + small_sigma0 (ws ! 14) + ws ! 15) # take 15 ws)"

fun sha_round :: "w32 list \<Rightarrow> w32 \<times> w32 \<Rightarrow> w32 list" where
  "sha_round [a, b, c, d, e, f, g, h] (k, w) =
     (let t1 = h + big_sigma1 e + ((e AND f) XOR (NOT e AND g)) + k + w;
          t2 = big_sigma0 a + ((a AND b) XOR (a AND c) XOR (b AND c))
      in [t1 + t2, a, b, c, d + t1, e, f, g])"
| "sha_round st kw = st"

definition sha_block :: "w32 list \<Rightarrow> w32 list \<Rightarrow> w32 list" where
  "sha_block st block = map2 (+) st (foldl sha_round st (zip sha_k (msg_schedule 64 (rev block))))"

function sha_blocks :: "w32 list \<Rightarrow> w32 list \<Rightarrow> w32 list" where
  "sha_blocks st ws = (if ws = [] then st else sha_blocks (sha_block st (take 16 ws)) (drop 16 ws))"
  by pat_completeness auto

termination sha_blocks
  by (relation "measure (\<lambda>(st, ws). length ws)") auto

declare sha_blocks.simps [simp del]

definition word_bytes :: "w32 \<Rightarrow> int list" where
  "word_bytes w = be_bytes 4 (uint w)"

definition sha256 :: "string \<Rightarrow> int list" where
  "sha256 content = concat (map word_bytes (sha_blocks sha_init (be_words (sha_pad (map of_char content)))))"

definition EncodeToString :: "int list \<Rightarrow> string" where
  "EncodeToString bs = concat (map (\<lambda>b. [hex_digit (nat (b div 16 mod 16)), hex_digit (nat (b mod 16))]) bs)"

text \<open>The digest has 32 bytes whatever the message, so that slicing its hex form cannot go out of range.\<close>

lemma length_be_bytes [simp]: "length (be_bytes n v) = n"
  by (induction n arbitrary: v) auto

lemma length_sha_round [simp]: "length (sha_round st kw) = length st"
  by (cases "(st, kw)" rule: sha_round.cases) (auto simp: Let_def)

lemma length_rounds [simp]: "length (foldl sha_round st kws) = length st"
  by (induction kws arbitrary: st) auto

lemma length_sha_block [simp]: "length (sha_block st block) = length st"
  by (simp add: sha_block_def)

lemma length_sha_blocks [simp]: "length (sha_blocks st ws) = length st"
  by (induction st ws rule: sha_blocks.induct) (subst sha_blocks.simps, simp)

lemma length_concat_map: "(\<And>x. length (f x) = n) \<Longrightarrow> length (concat (map f xs)) = n * length xs"
  by (induction xs) auto

lemma length_sha256 [simp]: "length (sha256 content) = 32"
  by (simp add: sha256_def length_concat_map [of _ 4] word_bytes_def sha_init_def)

definition hex_digits :: string where
  "hex_digits = ''0123456789abcdef''"

lemma hex_digit_in: "n < 16 \<Longrightarrow> hex_digit n \<in> set hex_digits"
  unfolding hex_digit_def hex_digits_def by (rule nth_mem) simp

lemma length_EncodeToString [simp]: "length (EncodeToString bs) = 2 * length bs"
  by (simp add: EncodeToString_def length_concat_map [of _ 2])

lemma set_EncodeToString: "set (EncodeToString bs) \<subseteq> set hex_digits"
  by (auto simp: EncodeToString_def intro!: hex_digit_in)

section \<open>Content hashes\<close>

abbreviation suffixLength :: nat where "suffixLength \<equiv> 10"
abbreviation HashSuffixLength :: nat where "HashSuffixLength \<equiv> 10"
abbreviation newline :: string where "newline \<equiv> [CHR 0x0A]"

definition contenthash_String :: "string \<Rightarrow> string" where
  "contenthash_String content = take suffixLength (EncodeToString (sha256 content))"

definition map_pairs :: "smap \<Rightarrow> string list" where
  "map_pairs data = map (\<lambda>k. k @ ''='' @ go_get data k) (sort (remdups (map fst data)))"

definition contenthash_Map :: "smap \<Rightarrow> string" where
  "contenthash_Map data = take suffixLength (EncodeToString (sha256 (Join (map_pairs data) newline)))"

definition GenerateHashSuffix :: "string \<Rightarrow> string" where
  "GenerateHashSuffix content = take HashSuffixLength (EncodeToString (sha256 content))"

definition BuildConfigMapName :: "string \<Rightarrow> string \<Rightarrow> string" where
  "BuildConfigMapName baseName content = baseName @ ''-'' @ GenerateHashSuffix content"

text \<open>\<open>hashedsecret.Build\<close>.\<close>

definition hashedsecret_Build :: "string \<Rightarrow> string \<Rightarrow> smap \<Rightarrow> kobj" where
  "hashedsecret_Build baseName namespace data =
     new_object secretGVK namespace (baseName @ ''-'' @ contenthash_Map data) (BSecretStringData data)"

lemma take_hex: "length (take 10 (EncodeToString (sha256 s))) = 10"
  "set (take 10 (EncodeToString (sha256 s))) \<subseteq> set hex_digits"
  using set_EncodeToString [of "sha256 s"] by (auto dest: in_set_takeD)


text \<open>
  Two representations of the same map have the same hash: neither the iteration order of the Go map
  nor overwritten entries matter.
\<close>

theorem contenthash_Map_order_irrelevant:
  assumes "map_of m = map_of n"
  shows "contenthash_Map m = contenthash_Map n"
proof -
  have keys: "sort (remdups (map fst m)) = sort (remdups (map fst n))"
  proof (rule sorted_distinct_set_unique)
    show "set (sort (remdups (map fst m))) = set (sort (remdups (map fst n)))"
      using arg_cong [OF assms, of dom] by (simp add: dom_map_of_conv_image_fst)
  qed simp_all
  have "go_get m = go_get n" using assms by (simp add: go_get_def fun_eq_iff)
  with keys show ?thesis by (simp add: contenthash_Map_def map_pairs_def)
qed

theorem contenthash_Map_order_irrelevant_witness:
  "contenthash_Map [(''b'', ''2''), (''a'', ''1'')] = contenthash_Map [(''a'', ''1''), (''b'', ''2''), (''a'', ''0'')]"
  by (rule contenthash_Map_order_irrelevant) (simp add: fun_eq_iff)

text \<open>
  The encoding of a map before hashing is not injective: a value that contains a newline can imitate
  another entry, so that two different payloads get the same name.
\<close>

lemma contenthash_Map_collision:
  "contenthash_Map [(''a'', ''1'' @ newline @ ''b=2'')] = contenthash_Map [(''a'', ''1''), (''b'', ''2'')]"
proof -
  have "sort [''a'', ''b''] = [''a'', ''b'']" by (simp add: less_eq_list_code less_eq_char_def less_char_def)
  then show ?thesis by (simp add: contenthash_Map_def map_pairs_def go_get_def)
qed

section \<open>Hashed ConfigMaps\<close>

record hashed_config_map =
  hcm_baseName :: string
  hcm_namespace :: string
  hcm_dataKey :: string
  hcm_label :: string
  hcm_fieldManager :: string

definition hashedconfigmap_New :: "string \<Rightarrow> string \<Rightarrow> string \<Rightarrow> string \<Rightarrow> string \<Rightarrow> hashed_config_map" where
  "hashedconfigmap_New baseName namespace dataKey label fieldManager = \<lparr> hcm_baseName = baseName, hcm_namespace = namespace,
     hcm_dataKey = dataKey, hcm_label = label, hcm_fieldManager = fieldManager \<rparr>"

record hashed_result =
  ConfigMapName :: string
  res_ConfigMap :: kobj

definition configMapGVK :: gvk where "configMapGVK = mk_gvk [] ''v1'' ''ConfigMap''"
definition configMapListGVK :: gvk where "configMapListGVK = mk_gvk [] ''v1'' ''ConfigMapList''"

text \<open>A ConfigMap of an earlier content.\<close>

definition outdated :: "hashed_config_map \<Rightarrow> string \<Rightarrow> kobj \<Rightarrow> bool" where
  "outdated h current cm \<longleftrightarrow> o_name cm \<noteq> current \<and> HasPrefix (o_name cm) (hcm_baseName h @ ''-'')"

text \<open>The loop over the listed ConfigMaps; a failed deletion is logged and the loop goes on.\<close>

fun delete_outdated :: "'s api \<Rightarrow> hashed_config_map \<Rightarrow> string \<Rightarrow> kobj list \<Rightarrow> 's world \<Rightarrow> 's world" where
  "delete_outdated A h current [] w = w"
| "delete_outdated A h current (cm # cms) w =
     (if outdated h current cm
      then (case k_direct_delete A cm w of (r, w') \<Rightarrow> delete_outdated A h current cms w')
      else delete_outdated A h current cms w)"

definition cleanupOld :: "'s api \<Rightarrow> hashed_config_map \<Rightarrow> string \<Rightarrow> 's world \<Rightarrow> go_error option \<times> 's world" where
  "cleanupOld A h currentConfigMapName w =
     (case k_list_in A (hcm_namespace h) configMapListGVK [(hcm_label h, ''true'')] w of
        (Inl e, w') \<Rightarrow> (Some (Errorf ''failed to list ConfigMaps'' e), w')
      | (Inr cms, w') \<Rightarrow> (None, delete_outdated A h currentConfigMapName cms w'))"

definition hashedConfigMap :: "hashed_config_map \<Rightarrow> string \<Rightarrow> kobj" where
  "hashedConfigMap h content =
     (new_object configMapGVK (hcm_namespace h) (hcm_baseName h @ ''-'' @ GenerateHashSuffix content)
        (BConfigMap [(hcm_dataKey h, content)]))\<lparr> o_labels := [(hcm_label h, ''true'')] \<rparr>"

definition hashedconfigmap_Apply :: "machinery \<Rightarrow> 's api \<Rightarrow> hashed_config_map \<Rightarrow> string \<Rightarrow> kobj \<Rightarrow> 's world \<Rightarrow>
    hashed_result result \<times> 's world" where
  "hashedconfigmap_Apply M A h content owner w =
     (let configMapName = hcm_baseName h @ ''-'' @ GenerateHashSuffix content
      in case SetControllerReference M owner (hashedConfigMap h content) of
           Inl e \<Rightarrow> (Inl (Errorf ''failed to set owner reference'' e), w)
         | Inr configMap \<Rightarrow>
             (case k_direct_patch A SSAPatch \<lparr> FieldOwner = hcm_fieldManager h, ForceOwnership = True \<rparr> configMap w of
                (Inl e, w1) \<Rightarrow> (Inl (Errorf (''failed to apply ConfigMap '' @ configMapName) e), w1)
              | (Inr configMap', w1) \<Rightarrow>
                  (case cleanupOld A h configMapName w1 of
                     (_, w2) \<Rightarrow> (Inr \<lparr> ConfigMapName = configMapName, res_ConfigMap = configMap' \<rparr>, w2))))"

text \<open>The trace of the deletion loop: one deletion per outdated ConfigMap, in list order.\<close>

lemma delete_outdated_events:
  "\<exists>rs. length rs = length (filter (outdated h current) cms) \<and>
     events (delete_outdated A h current cms w) =
       events w @ map2 EDirectDelete (filter (outdated h current) cms) rs"
proof (induction cms arbitrary: w)
  case (Cons cm cms)
  show ?case
  proof (cases "outdated h current cm")
    case True
    obtain r w1 where d: "k_direct_delete A cm w = (r, w1)" by fastforce
    from Cons.IH [of w1] obtain rs where "length rs = length (filter (outdated h current) cms)"
      "events (delete_outdated A h current cms w1) = events w1 @ map2 EDirectDelete (filter (outdated h current) cms) rs"
      by blast
    with True d k_call_events(11) [OF d] show ?thesis by (intro exI [of _ "r # rs"]) simp
  qed (use Cons.IH [of w] in simp)
qed simp

lemma cleanupOld_events:
  assumes "cleanupOld A h current w = (r, w')"
  obtains e where "events w' = events w @ [EListIn (hcm_namespace h) configMapListGVK [(hcm_label h, ''true'')] (Inl e)]"
  | cms rs where "length rs = length (filter (outdated h current) cms)"
      "events w' = events w @ EListIn (hcm_namespace h) configMapListGVK [(hcm_label h, ''true'')] (Inr cms) #
        map2 EDirectDelete (filter (outdated h current) cms) rs"
proof -
  obtain l w1 where l: "k_list_in A (hcm_namespace h) configMapListGVK [(hcm_label h, ''true'')] w = (l, w1)" by fastforce
  note ev = k_call_events(9) [OF l]
  show thesis
  proof (cases l)
    case (Inl e)
    with assms l ev that(1) show thesis by (auto simp: cleanupOld_def)
  next
    case (Inr cms)
    obtain rs where "length rs = length (filter (outdated h current) cms)"
      "events (delete_outdated A h current cms w1) = events w1 @ map2 EDirectDelete (filter (outdated h current) cms) rs"
      using delete_outdated_events by blast
    with assms l Inr ev that(2) show thesis by (auto simp: cleanupOld_def)
  qed
qed

text \<open>
  (C38) A hashed ConfigMap is replaced in a safe order. \<open>Apply\<close> first sends the new ConfigMap, named after
  its content, and reports an error exactly when that fails, in which case nothing is listed or
  deleted. Once the new one is accepted, it deletes, in list order, exactly the ConfigMaps listed
  under its label in its namespace whose name has the base name but not the new suffix; failures of
  this cleanup are not reported. In particular the current ConfigMap is never deleted.
\<close>

theorem hashedconfigmap_Apply_correct:
  assumes "SetControllerReference M owner (hashedConfigMap h content) = Inr owned"
    and "hashedconfigmap_Apply M A h content owner w = (r, w')"
  shows "let name = BuildConfigMapName (hcm_baseName h) content;
             send = EDirectPatch SSAPatch \<lparr> FieldOwner = hcm_fieldManager h, ForceOwnership = True \<rparr> owned
         in case r of
              Inl e \<Rightarrow> \<exists>cause. e = Errorf (''failed to apply ConfigMap '' @ name) cause \<and>
                events w' = events w @ [send (Inl cause)]
            | Inr res \<Rightarrow> ConfigMapName res = name \<and>
                (\<exists>listed rs. events w' = events w @ send (Inr (res_ConfigMap res)) #
                    EListIn (hcm_namespace h) configMapListGVK [(hcm_label h, ''true'')] listed #
                    (case listed of Inl e \<Rightarrow> [] | Inr cms \<Rightarrow>
                       map2 EDirectDelete (filter (outdated h name) cms) rs) \<and>
                  (case listed of Inl e \<Rightarrow> True | Inr cms \<Rightarrow>
                     length rs = length (filter (outdated h name) cms) \<and>
                     (\<forall>cm \<in> set (filter (outdated h name) cms). o_name cm \<noteq> name \<and> HasPrefix (o_name cm) (hcm_baseName h @ ''-''))))"
proof -
  let ?name = "BuildConfigMapName (hcm_baseName h) content"
  obtain p w1 where p: "k_direct_patch A SSAPatch \<lparr> FieldOwner = hcm_fieldManager h, ForceOwnership = True \<rparr> owned w = (p, w1)"
    by fastforce
  note ev = k_call_events(10) [OF p]
  show ?thesis
  proof (cases p)
    case (Inl e)
    with assms p ev show ?thesis by (auto simp: hashedconfigmap_Apply_def BuildConfigMapName_def)
  next
    case (Inr cm')
    obtain c w2 where c: "cleanupOld A h ?name w1 = (c, w2)" by fastforce
    with assms p Inr have r: "r = Inr \<lparr> ConfigMapName = ?name, res_ConfigMap = cm' \<rparr>" "w' = w2"
      by (simp_all add: hashedconfigmap_Apply_def BuildConfigMapName_def)
    show ?thesis
    proof (cases rule: cleanupOld_events [OF c])
      case (1 e)
      with ev Inr r show ?thesis by (auto intro!: exI [of _ "Inl e :: kobj list result"])
    next
      case (2 cms rs)
      with ev Inr r show ?thesis
        by (auto simp: outdated_def Let_def intro!: exI [of _ "Inr cms :: kobj list result"] exI [of _ rs])
    qed
  qed
qed

definition ex_hcm :: hashed_config_map where
  "ex_hcm = hashedconfigmap_New ''dex'' ''ns'' ''config.yaml'' ''managed'' ''ui''"

definition ex_old_cm :: kobj where
  "ex_old_cm = (new_object configMapGVK ''ns'' ''dex-old'' (BConfigMap []))\<lparr> o_labels := [(''managed'', ''true'')] \<rparr>"

lemma ex_old_outdated: "outdated ex_hcm (BuildConfigMapName ''dex'' content) ex_old_cm"
proof -
  have "length (BuildConfigMapName ''dex'' content) \<noteq> length ''dex-old''"
    by (simp add: BuildConfigMapName_def GenerateHashSuffix_def)
  then have "''dex-old'' \<noteq> BuildConfigMapName ''dex'' content" by metis
  then show ?thesis
    by (simp add: outdated_def ex_hcm_def hashedconfigmap_New_def ex_old_cm_def new_object_def HasPrefix_def)
qed

definition ex_hcm_api :: "kobj list api" where
  "ex_hcm_api = ref_api\<lparr> api_patch := (\<lambda>p opts obj s. (Inr obj, s @ [obj])) \<rparr>"

theorem hashedconfigmap_Apply_correct_witness:
  "\<exists>res w' d. hashedconfigmap_Apply ref_machinery ex_hcm_api ex_hcm ''issuer: x'' ex_ec (start [ex_old_cm]) = (Inr res, w') \<and>
     ConfigMapName res = BuildConfigMapName ''dex'' ''issuer: x'' \<and> EDirectDelete ex_old_cm d \<in> set (events w')"
proof -
  let ?new = "hashedConfigMap ex_hcm ''issuer: x''"
  let ?name = "BuildConfigMapName ''dex'' ''issuer: x''"
  obtain owned where own: "SetControllerReference ref_machinery ex_ec ?new = Inr owned" by (simp add: ref_machinery_def)
  have old: "(o_gvk ex_old_cm)\<lparr> Kind := Kind (o_gvk ex_old_cm) @ ''List'' \<rparr> = configMapListGVK \<and> o_namespace ex_old_cm = ''ns'' \<and>
      labels_match [(''managed'', ''true'')] ex_old_cm"
    by (simp add: ex_old_cm_def new_object_def configMapGVK_def configMapListGVK_def mk_gvk_def labels_match_def)
  have base: "hcm_baseName ex_hcm = ''dex''" "hcm_namespace ex_hcm = ''ns''" "hcm_label ex_hcm = ''managed''"
    by (simp_all add: ex_hcm_def hashedconfigmap_New_def)
  let ?w1 = "emit (EDirectPatch SSAPatch \<lparr> FieldOwner = hcm_fieldManager ex_hcm, ForceOwnership = True \<rparr> owned (Inr owned))
      [ex_old_cm, owned] (start [ex_old_cm])"
  obtain zs w2 where c: "k_list_in ex_hcm_api ''ns'' configMapListGVK [(''managed'', ''true'')] ?w1 = (Inr (ex_old_cm # zs), w2)"
    using old by (simp add: k_list_in_def ex_hcm_api_def ref_api_def)
  let ?w' = "delete_outdated ex_hcm_api ex_hcm ?name (ex_old_cm # zs) w2"
  have run: "hashedconfigmap_Apply ref_machinery ex_hcm_api ex_hcm ''issuer: x'' ex_ec (start [ex_old_cm]) =
      (Inr \<lparr> ConfigMapName = ?name, res_ConfigMap = owned \<rparr>, ?w')"
    unfolding hashedconfigmap_Apply_def Let_def own cleanupOld_def base BuildConfigMapName_def [symmetric]
    by (simp add: k_direct_patch_def ex_hcm_api_def start_def c [unfolded ex_hcm_api_def start_def])
  have "events w2 = events ?w1 @ [EListIn ''ns'' configMapListGVK [(''managed'', ''true'')] (Inr (ex_old_cm # zs))]"
    by (rule k_call_events(9) [OF c])
  then have ev: "\<exists>x y. events ?w' = x # EListIn ''ns'' configMapListGVK [(''managed'', ''true'')] (Inr (ex_old_cm # zs)) # y"
    using delete_outdated_events [of ex_hcm ?name "ex_old_cm # zs" ex_hcm_api w2] by (auto simp: start_def)
  from hashedconfigmap_Apply_correct [OF own run] ev ex_old_outdated [of "''issuer: x''"]
  have "\<exists>x y d rest. events ?w' = x # y # EDirectDelete ex_old_cm d # rest"
    by (auto simp: Let_def base start_def length_Suc_conv)
  then have "\<exists>d. EDirectDelete ex_old_cm d \<in> set (events ?w')" by (metis list.set_intros)
  with run show ?thesis by fastforce
qed

end
