(* ===== verification/Operands.thy ===== *)
theory Operands
  imports Scrape_Token Content_Hash Go_Paths
begin

text \<open>
  The controllers of the operand services: integration service, build service, release service and
  image controller (\<open>internal/controller/integrationservice\<close>, \<open>buildservice\<close>, \<open>releaseservice\<close>,
  \<open>imagecontroller\<close>). Each applies its manifests with the user's customisations, keeps the ServiceMonitor
  back while a scrape token has to be minted, and then runs the scrape reconcile of \<open>Scrape_Token\<close>. Their
  apply phases are composed with \<open>step_then\<close>, and every controller interprets \<open>service_reconciler\<close>.
\<close>

section \<open>What the operand controllers share\<close>

text \<open>
  The body of the loop over the manifests: the ServiceMonitor is deferred, scrape resources are
  skipped when metrics are disabled, and everything else is customised and gets the scraper's binding
  subjects.
\<close>

definition operand_prepare :: "component_metrics_config option \<Rightarrow> 's operand_env \<Rightarrow> string \<Rightarrow>
    (kobj \<Rightarrow> kobj option result) \<Rightarrow> kobj \<Rightarrow> kobj option result" where
  "operand_prepare metrics env namespace customize obj =
     (let metricsEnabled = IsEnabled metrics;
          deferServiceMonitor = metricsEnabled \<and> env_TokenCreator env \<noteq> None
      in if deferServiceMonitor \<and> IsComponentMetricsServiceMonitor obj then Inr None
         else if \<not> metricsEnabled \<and> IsComponentMetricsScrapeResource obj then Inr None
         else (case customize obj of
             Inl e \<Rightarrow> Inl e
           | Inr None \<Rightarrow> Inr None
           | Inr (Some obj1) \<Rightarrow> (case ApplyMetricsScraperBindingSubjects namespace obj1 of
               Inl e \<Rightarrow> Inl (Errorf (''apply metrics scraper binding subjects for '' @ o_name obj1) e)
             | Inr obj2 \<Rightarrow> Inr (Some obj2))))"

definition scrape_phase :: "machinery \<Rightarrow> scrape_lib \<Rightarrow> 's api \<Rightarrow> object_store \<Rightarrow> 's operand_env \<Rightarrow> component_metrics_config option \<Rightarrow>
    component \<Rightarrow> string \<Rightarrow> string \<Rightarrow> 's phase" where
  "scrape_phase M X A S env metrics c namespace serviceMonitor tc w =
     (if IsEnabled metrics \<and> env_TokenCreator env \<noteq> None
      then (case ReconcilePrometheusScrapeToken X (operand_scrape_config M A S env c namespace serviceMonitor) tc w of
              (Inl e, tc', w') \<Rightarrow> (Inl (e, ReasonApplyFailed, ''reconcile prometheus scrape token''), tc', w')
            | (Inr res, tc', w') \<Rightarrow> (Inr res, tc', w'))
      else (Inr no_requeue, tc, w))"

lemma good_scrape_phase [good_intros]: "good_phase M (scrape_phase M X A S env metrics c namespace sm)"
proof (rule good_phaseI)
  fix tc w r tc' w'
  assume run: "scrape_phase M X A S env metrics c namespace sm tc w = (r, tc', w')"
  obtain s tc1 w1 where s: "ReconcilePrometheusScrapeToken X (operand_scrape_config M A S env c namespace sm) tc w = (s, tc1, w1)"
    by (metis prod_cases3)
  from operand_scrape.reconcile_step [OF s] run s show "good_step M (\<exists>x. r = Inr x) tc w tc' w'"
    by (auto simp: scrape_phase_def split: if_splits sum.splits)
qed

definition cleanup_allow_list :: "string \<Rightarrow> string \<Rightarrow> allow_list" where
  "cleanup_allow_list role binding = Some [(clusterRoleGVK, [role]), (clusterRoleBindingGVK, [binding])]"

text \<open>A customisation of the CronJobs among the manifests.\<close>

definition customize_cronjob :: "(string \<Rightarrow> cron_job \<Rightarrow> cron_job result) \<Rightarrow> kobj \<Rightarrow> kobj result" where
  "customize_cronjob f obj = (case o_body obj of
     BCronJob cj \<Rightarrow> (case f (o_name obj) cj of
         Inl e \<Rightarrow> Inl (Errorf (''failed to apply customizations to CronJob '' @ o_name obj) e)
       | Inr cj' \<Rightarrow> Inr (obj\<lparr> o_body := BCronJob cj' \<rparr>))
   | _ \<Rightarrow> Inr obj)"

definition as_result :: "go_error option \<times> 'a \<Rightarrow> 'a result" where
  "as_result r = (case r of (Some e, x) \<Rightarrow> Inl e | (None, x) \<Rightarrow> Inr x)"

definition set_replicas :: "controller_manager_spec option \<Rightarrow> deployment \<Rightarrow> deployment" where
  "set_replicas spec d = (case spec of None \<Rightarrow> d | Some s \<Rightarrow> d\<lparr> dep_replicas := Some (cm_replicas s) \<rparr>)"

section \<open>Integration service\<close>

abbreviation integrationServiceNamespace :: string where "integrationServiceNamespace \<equiv> ''integration-service''"
abbreviation snapshotGCCronJobName :: string where "snapshotGCCronJobName \<equiv> ''integration-service-snapshot-garbage-collector''"
abbreviation snapshotGCContainerName :: string where "snapshotGCContainerName \<equiv> ''test-gc''"

definition integration_service_spec_of :: "kobj \<Rightarrow> integration_service_spec" where
  "integration_service_spec_of cr = (case o_body cr of BKonfluxCR (IntegrationServiceSpec s) \<Rightarrow> s
     | _ \<Rightarrow> \<lparr> is_config = IntegrationServiceConfigSpec, is_componentMetrics = None \<rparr>)"

definition console_url :: "'s api \<Rightarrow> 's world \<Rightarrow> string \<times> 's world" where
  "console_url A w = (case k_get A (konflux_gvk ''KonfluxUI'') [] ''konflux-ui'' w of
     (Inl e, w') \<Rightarrow> ([], w')
   | (Inr ui, w') \<Rightarrow> (case o_body ui of BKonfluxCR (UISpec s (Some ingress)) \<Rightarrow> ist_url ingress | _ \<Rightarrow> [], w'))"

definition buildControllerManagerOverlay :: "controller_manager_spec option \<Rightarrow> string \<Rightarrow> integration_service_config_spec \<Rightarrow> pod_overlay" where
  "buildControllerManagerOverlay spec consoleURL integrationSpec =
     (let base = TrimSuffix consoleURL ''/'';
          consoleURLTemplate = (if consoleURL \<noteq> [] then base @ ''/ns/{{ .Namespace }}/pipelinerun/{{ .PipelineRunName }}'' else []);
          consoleURLTasklogTemplate = (if consoleURL \<noteq> [] then consoleURLTemplate @ ''/logs/{{ .TaskName }}'' else []);
          replicas = (case spec of None \<Rightarrow> 1 | Some s \<Rightarrow> cm_replicas s);
          managerSpec = (case spec of None \<Rightarrow> None | Some s \<Rightarrow> cm_manager s)
      in NewPodOverlay
           [WithContainerOpts ''manager'' \<lparr> Replicas = replicas \<rparr>
              [FromContainerSpec managerSpec,
               WithEnvOverride ''CONSOLE_URL'' consoleURLTemplate,
               WithEnvOverride ''CONSOLE_URL_TASKLOG'' consoleURLTasklogTemplate,
               WithOptionalEnvOverride ''PIPELINE_TIMEOUT'' (pipelineTimeout integrationSpec),
               WithOptionalEnvOverride ''TASKS_TIMEOUT'' (tasksTimeout integrationSpec),
               WithOptionalEnvOverride ''FINALLY_TIMEOUT'' (finallyTimeout integrationSpec)],
            WithLeaderElection ''manager'' replicas])"

definition applyIntegrationServiceDeploymentCustomizations :: "merge_libs \<Rightarrow> integration_service_config_spec \<Rightarrow> string \<Rightarrow>
    string \<Rightarrow> deployment \<Rightarrow> deployment result" where
  "applyIntegrationServiceDeploymentCustomizations L spec consoleURL name d =
     (if name = ''integration-service-controller-manager''
      then as_result (ApplyToDeployment L (Some (buildControllerManagerOverlay (integrationControllerManager spec) consoleURL spec))
             (set_replicas (integrationControllerManager spec) d))
      else Inr d)"

definition applySnapshotGCCustomizations :: "merge_libs \<Rightarrow> integration_service_config_spec \<Rightarrow> string \<Rightarrow> cron_job \<Rightarrow> cron_job result" where
  "applySnapshotGCCustomizations L spec name cj =
     (case ApplyCronJobContainerSpec L name cj snapshotGCContainerName (snapshotGarbageCollector spec) of
        (Some e, cj1) \<Rightarrow> Inl e
      | (None, cj1) \<Rightarrow>
          if \<not> (prSnapshotsToKeep spec \<noteq> [] \<or> nonPRSnapshotsToKeep spec \<noteq> [] \<or> minSnapshotsToKeepPerComponent spec \<noteq> []) then Inr cj1
          else (case ValidateCronJobContainer name cj1 snapshotGCContainerName of
              Some e \<Rightarrow> Inl e
            | None \<Rightarrow> as_result (ApplyToCronJob L (Some (BuildPodOverlay \<lparr> Replicas = 0 \<rparr>
                [WithContainerBuilder snapshotGCContainerName
                   [WithOptionalEnvOverride ''PR_SNAPSHOTS_TO_KEEP'' (prSnapshotsToKeep spec),
                    WithOptionalEnvOverride ''NON_PR_SNAPSHOTS_TO_KEEP'' (nonPRSnapshotsToKeep spec),
                    WithOptionalEnvOverride ''MIN_SNAPSHOTS_TO_KEEP_PER_COMPONENT'' (minSnapshotsToKeepPerComponent spec)]])) cj1)))"

definition integration_customize :: "merge_libs \<Rightarrow> integration_service_config_spec \<Rightarrow> string \<Rightarrow> kobj \<Rightarrow> kobj option result" where
  "integration_customize L spec consoleURL obj =
     (case customize_deployment (applyIntegrationServiceDeploymentCustomizations L spec consoleURL) obj of
        Inl e \<Rightarrow> Inl e
      | Inr obj1 \<Rightarrow> (case customize_cronjob (\<lambda>name cj. if name = snapshotGCCronJobName then applySnapshotGCCustomizations L spec name cj
                                                         else Inr cj) obj1 of
          Inl e \<Rightarrow> Inl e | Inr obj2 \<Rightarrow> Inr (Some obj2)))"

definition integration_applyManifests :: "machinery \<Rightarrow> merge_libs \<Rightarrow> 's api \<Rightarrow> object_store \<Rightarrow> 's operand_env \<Rightarrow>
    integration_service_spec \<Rightarrow> string \<Rightarrow> 's op" where
  "integration_applyManifests M L A S env spec consoleURL =
     apply_manifests M A S Integration ''failed to get parsed manifests for Integration''
       (operand_prepare (is_componentMetrics spec) env integrationServiceNamespace (integration_customize L (is_config spec) consoleURL))"

definition integration_apply :: "machinery \<Rightarrow> merge_libs \<Rightarrow> scrape_lib \<Rightarrow> 's api \<Rightarrow> object_store \<Rightarrow> 's operand_env \<Rightarrow> cluster_info option \<Rightarrow>
    kobj \<Rightarrow> 's phase" where
  "integration_apply M L X A S env ci cr tc w = (case console_url A w of (consoleURL, w1) \<Rightarrow>
     step_then (EnsureNamespaceExists M A S Integration integrationServiceNamespace) ReasonNamespaceCreationFailed ''ensure namespace exists''
      (step_then (EnsureTrustedCAConfigMap M A integrationServiceNamespace ci) ReasonConfigMapFailed ''ensure trusted-ca ConfigMap''
        (step_then (integration_applyManifests M L A S env (integration_service_spec_of cr) consoleURL) ReasonApplyFailed ''apply manifests''
          (scrape_phase M X A S env (is_componentMetrics (integration_service_spec_of cr)) Integration integrationServiceNamespace
             ''integration-service''))) tc w1)"

definition integration_component :: "machinery \<Rightarrow> merge_libs \<Rightarrow> scrape_lib \<Rightarrow> 's api \<Rightarrow> object_store \<Rightarrow> 's operand_env \<Rightarrow> cluster_info option \<Rightarrow>
    's component_def" where
  "integration_component M L X A S env ci = \<lparr> cmp_gvk = konflux_gvk ''KonfluxIntegrationService'', cmp_component = component_name Integration,
     cmp_fieldManager = ''konflux-integrationservice-controller'', cmp_cleanupGVKs = ComponentMetricsOrphanCleanupGVKs,
     cmp_opts = [WithClusterScopedAllowList (cleanup_allow_list ''integration-service-metrics-reader''
                   ''prometheus-integration-service-metrics-reader'')],
     cmp_apply = integration_apply M L X A S env ci,
     cmp_status = deployments_status M A \<rparr>"

lemma console_url_quiet: "console_url A w = (u, w') \<Longrightarrow> emits quiet w w'"
  by (auto simp: console_url_def split: prod.splits sum.splits dest!: quiet_calls)

interpretation integration: service_reconciler M "integration_component M L X A S env ci" A for M L X A S env ci
proof (rule service_reconcilerI)
  show "good_phase M (cmp_apply (integration_component M L X A S env ci) cr)" for cr
    unfolding integration_component_def integration_apply_def integration_applyManifests_def component_def.simps
    by (rule good_phase_quiet, erule console_url_quiet) (intro good_intros)
qed (simp add: integration_component_def)

section \<open>Build service\<close>

abbreviation webhookConfigNamespace :: string where "webhookConfigNamespace \<equiv> ''build-service''"
abbreviation buildManagerContainerName :: string where "buildManagerContainerName \<equiv> ''manager''"
abbreviation pacWebhookURLNonOpenShift :: string where
  "pacWebhookURLNonOpenShift \<equiv> ''http://pipelines-as-code-controller.tekton-pipelines.svc.cluster.local:8080''"

definition build_service_spec_of :: "kobj \<Rightarrow> build_service_spec" where
  "build_service_spec_of cr = (case o_body cr of BKonfluxCR (BuildServiceSpec s) \<Rightarrow> s
     | _ \<Rightarrow> \<lparr> bs_config = BuildServiceConfigSpec, bs_componentMetrics = None \<rparr>)"

definition buildBuildControllerManagerOverlay :: "build_service_config_spec \<Rightarrow> cluster_info option \<Rightarrow> string \<Rightarrow> pod_overlay" where
  "buildBuildControllerManagerOverlay spec ci webhookConfigMapName =
     (let deployCtx = \<lparr> Replicas = (case buildControllerManager spec of None \<Rightarrow> 0 | Some s \<Rightarrow> cm_replicas s) \<rparr>;
          managerSpec = (case buildControllerManager spec of None \<Rightarrow> None | Some s \<Rightarrow> cm_manager s);
          containerOpts =
            (if \<not> on_openshift ci then [WithEnv [EnvVar ''PAC_NAMESPACE'' ''tekton-pipelines'']] else []) @
            (if webhookURLs spec = [] \<and> \<not> on_openshift ci then [WithEnv [EnvVar ''PAC_WEBHOOK_URL'' pacWebhookURLNonOpenShift]] else []) @
            [FromContainerSpec managerSpec] @
            (case pacWebhookInsecureSSL spec of None \<Rightarrow> []
             | Some b \<Rightarrow> if b then [WithEnvOverride ''PAC_WEBHOOK_INSECURE_SSL'' ''1''] else [WithoutEnv ''PAC_WEBHOOK_INSECURE_SSL'']);
          podOpts =
            (if webhookConfigMapName \<noteq> [] then [WithConfigMapVolumeUpdate ''webhook-config'' webhookConfigMapName] else []) @
            (if bs_logEncoder spec \<noteq> [] then [WithArgReplace buildManagerContainerName [ZapEncoderArg @ ''='' @ bs_logEncoder spec]] else []) @
            [WithContainerOpts buildManagerContainerName deployCtx containerOpts,
             WithLeaderElection buildManagerContainerName (Replicas deployCtx)]
      in NewPodOverlay podOpts)"

definition applyBuildServiceDeploymentCustomizations :: "merge_libs \<Rightarrow> build_service_config_spec \<Rightarrow> cluster_info option \<Rightarrow> string \<Rightarrow>
    string \<Rightarrow> deployment \<Rightarrow> deployment result" where
  "applyBuildServiceDeploymentCustomizations L spec ci webhookConfigMapName name d =
     (if name = ''build-service-controller-manager''
      then as_result (ApplyToDeployment L (Some (buildBuildControllerManagerOverlay spec ci webhookConfigMapName))
             (set_replicas (buildControllerManager spec) d))
      else Inr d)"

text \<open>\<open>json.Marshal\<close> of a \<open>map[string]string\<close>: the entries by ascending key, without spaces.\<close>

definition json_Marshal_map :: "smap \<Rightarrow> string" where
  "json_Marshal_map data = ''{'' @ Join (map (\<lambda>k. json_string k @ '':'' @ json_string (go_get data k))
     (sort (remdups (map fst data)))) '','' @ ''}''"

definition reconcileWebhookConfig :: "machinery \<Rightarrow> 's api \<Rightarrow> kobj \<Rightarrow> 's world \<Rightarrow> string result \<times> 's world" where
  "reconcileWebhookConfig M A owner w =
     (case hashedconfigmap_Apply M A (hashedconfigmap_New ''webhook-config'' webhookConfigNamespace ''webhook-config.json''
               ''konflux.konflux-ci.dev/webhook-config'' ''konflux-buildservice-controller'')
             (json_Marshal_map (webhookURLs (bs_config (build_service_spec_of owner)))) owner w of
        (Inl e, w') \<Rightarrow> (Inl e, w')
      | (Inr result, w') \<Rightarrow> (Inr (ConfigMapName result), w'))"

definition isSCC :: "kobj \<Rightarrow> bool" where
  "isSCC obj = (case o_body obj of BOther t j \<Rightarrow> t = ''*v1.SecurityContextConstraints'' | _ \<Rightarrow> False)"

definition customize_pipeline_config :: "yaml_lib \<Rightarrow> pipeline_config_spec option \<Rightarrow> kobj \<Rightarrow> kobj result" where
  "customize_pipeline_config Y spec obj = (case o_body obj of
     BConfigMap data \<Rightarrow>
       if o_name obj = ''build-pipeline-config''
       then (case applyPipelineConfigMerge Y data spec of
               Inl e \<Rightarrow> Inl (Errorf ''failed to merge pipeline config'' e)
             | Inr data' \<Rightarrow> Inr (obj\<lparr> o_body := BConfigMap data' \<rparr>))
       else Inr obj
   | _ \<Rightarrow> Inr obj)"

definition build_customize :: "merge_libs \<Rightarrow> yaml_lib \<Rightarrow> build_service_config_spec \<Rightarrow> cluster_info option \<Rightarrow> string \<Rightarrow>
    kobj \<Rightarrow> kobj option result" where
  "build_customize L Y spec ci webhookConfigMapName obj =
     (case customize_deployment (applyBuildServiceDeploymentCustomizations L spec ci webhookConfigMapName) obj of
        Inl e \<Rightarrow> Inl e
      | Inr obj1 \<Rightarrow> (case customize_pipeline_config Y (pipelineConfig spec) obj1 of
          Inl e \<Rightarrow> Inl e
        | Inr obj2 \<Rightarrow> if isSCC obj2 \<and> \<not> on_openshift ci then Inr None else Inr (Some obj2)))"

definition build_applyManifests :: "machinery \<Rightarrow> merge_libs \<Rightarrow> yaml_lib \<Rightarrow> 's api \<Rightarrow> object_store \<Rightarrow> 's operand_env \<Rightarrow> cluster_info option \<Rightarrow>
    build_service_spec \<Rightarrow> string \<Rightarrow> 's op" where
  "build_applyManifests M L Y A S env ci spec webhookConfigMapName =
     apply_manifests M A S BuildService ''failed to get parsed manifests for BuildService''
       (operand_prepare (bs_componentMetrics spec) env webhookConfigNamespace (build_customize L Y (bs_config spec) ci webhookConfigMapName))"

definition build_apply :: "machinery \<Rightarrow> merge_libs \<Rightarrow> yaml_lib \<Rightarrow> scrape_lib \<Rightarrow> 's api \<Rightarrow> object_store \<Rightarrow> 's operand_env \<Rightarrow> cluster_info option \<Rightarrow>
    kobj \<Rightarrow> 's phase" where
  "build_apply M L Y X A S env ci cr =
     step_then (EnsureNamespaceExists M A S BuildService webhookConfigNamespace) ReasonNamespaceCreationFailed ''ensure namespace exists''
      (step_then (EnsureTrustedCAConfigMap M A webhookConfigNamespace ci) ReasonConfigMapFailed ''ensure trusted-ca ConfigMap''
        (value_then (reconcileWebhookConfig M A cr) ReasonConfigMapFailed ''reconcile webhook config''
          (\<lambda>webhookConfigMapName.
             step_then (build_applyManifests M L Y A S env ci (build_service_spec_of cr) webhookConfigMapName) ReasonApplyFailed ''apply manifests''
              (scrape_phase M X A S env (bs_componentMetrics (build_service_spec_of cr)) BuildService webhookConfigNamespace ''build-service''))))"

definition build_component :: "machinery \<Rightarrow> merge_libs \<Rightarrow> yaml_lib \<Rightarrow> scrape_lib \<Rightarrow> 's api \<Rightarrow> object_store \<Rightarrow> 's operand_env \<Rightarrow>
    cluster_info option \<Rightarrow> 's component_def" where
  "build_component M L Y X A S env ci = \<lparr> cmp_gvk = konflux_gvk ''KonfluxBuildService'', cmp_component = component_name BuildService,
     cmp_fieldManager = ''konflux-buildservice-controller'', cmp_cleanupGVKs = ComponentMetricsOrphanCleanupGVKs,
     cmp_opts = [WithClusterScopedAllowList (cleanup_allow_list ''build-service-metrics-reader'' ''prometheus-build-service-metrics-reader'')],
     cmp_apply = build_apply M L Y X A S env ci,
     cmp_status = deployments_status M A \<rparr>"

lemma delete_outdated_quiet: "emits quiet w (delete_outdated A h current cms w)"
proof (induction cms arbitrary: w)
  case (Cons cm cms)
  obtain r w1 where d: "k_direct_delete A cm w = (r, w1)" by fastforce
  from emits_trans [OF quiet_calls(5) [OF d] Cons.IH] Cons.IH [of w] d show ?case by simp
qed simp

lemma cleanupOld_quiet: "cleanupOld A h current w = (r, w') \<Longrightarrow> emits quiet w w'"
  by (auto simp: cleanupOld_def split: prod.splits sum.splits dest!: quiet_calls intro: emits_trans delete_outdated_quiet)

lemma hashedconfigmap_Apply_quiet: "hashedconfigmap_Apply M A h content owner w = (r, w') \<Longrightarrow> emits quiet w w'"
  by (auto simp: hashedconfigmap_Apply_def Let_def split: prod.splits sum.splits
      dest!: quiet_calls cleanupOld_quiet intro: emits_trans)

lemma reconcileWebhookConfig_quiet: "reconcileWebhookConfig M A owner w = (r, w') \<Longrightarrow> emits quiet w w'"
  by (auto simp: reconcileWebhookConfig_def split: prod.splits sum.splits dest!: hashedconfigmap_Apply_quiet)

interpretation build: service_reconciler M "build_component M L Y X A S env ci" A for M L Y X A S env ci
proof (rule service_reconcilerI)
  show "good_phase M (cmp_apply (build_component M L Y X A S env ci) cr)" for cr
    unfolding build_component_def build_apply_def build_applyManifests_def component_def.simps
    by (intro good_intros good_value_then) (erule reconcileWebhookConfig_quiet)
qed (simp add: build_component_def)

section \<open>Release service\<close>

abbreviation releaseServiceNamespace :: string where "releaseServiceNamespace \<equiv> ''release-service''"
abbreviation releaseManagerContainerName :: string where "releaseManagerContainerName \<equiv> ''manager''"

definition releaseServiceConfigGVK :: gvk where
  "releaseServiceConfigGVK = mk_gvk ''appstudio.redhat.com'' ''v1alpha1'' ''ReleaseServiceConfig''"

definition release_service_spec_of :: "kobj \<Rightarrow> release_service_spec" where
  "release_service_spec_of cr = (case o_body cr of BKonfluxCR (ReleaseServiceSpec s) \<Rightarrow> s
     | _ \<Rightarrow> \<lparr> rs_config = ReleaseServiceConfigSpec, rs_componentMetrics = None \<rparr>)"

definition buildReleaseControllerManagerOverlay :: "controller_manager_spec option \<Rightarrow> pod_overlay" where
  "buildReleaseControllerManagerOverlay spec = (case spec of
     None \<Rightarrow> NewPodOverlay []
   | Some s \<Rightarrow> NewPodOverlay
       [WithContainerOpts releaseManagerContainerName \<lparr> Replicas = cm_replicas s \<rparr> [FromContainerSpec (cm_manager s)],
        WithLeaderElection releaseManagerContainerName (cm_replicas s)])"

definition applyReleaseServiceDeploymentCustomizations :: "merge_libs \<Rightarrow> release_service_config_spec \<Rightarrow> string \<Rightarrow> deployment \<Rightarrow> deployment result" where
  "applyReleaseServiceDeploymentCustomizations L spec name d =
     (if name = ''release-service-controller-manager''
      then as_result (ApplyToDeployment L (Some (buildReleaseControllerManagerOverlay (releaseControllerManager spec)))
             (set_replicas (releaseControllerManager spec) d))
      else Inr d)"

definition isReleaseServiceConfig :: "kobj \<Rightarrow> bool" where
  "isReleaseServiceConfig obj \<longleftrightarrow> Kind (o_gvk obj) = Kind releaseServiceConfigGVK \<and> Group (o_gvk obj) = Group releaseServiceConfigGVK"

text \<open>A field that holds a map, as the type assertion on it reads it: nil unless it is a map.\<close>

definition json_map_field :: "json \<Rightarrow> string \<Rightarrow> (string \<times> json) list" where
  "json_map_field j k = (case j of JObject fs \<Rightarrow> (case map_of fs k of Some (JObject g) \<Rightarrow> g | _ \<Rightarrow> []) | _ \<Rightarrow> [])"

definition empty_dir_json :: "empty_dir_override \<Rightarrow> json" where
  "empty_dir_json d = JObject [(''url'', JString (edo_url d)), (''revision'', JString (edo_revision d)), (''pathInRepo'', JString (edo_pathInRepo d))]"

definition applyReleaseServiceConfigCustomizations :: "release_service_config_spec \<Rightarrow> kobj \<Rightarrow> kobj result" where
  "applyReleaseServiceConfigCustomizations spec obj = (case o_body obj of
     BUnstructured j \<Rightarrow>
       let currentSpec = AList.update ''debug'' (JBool (rs_debug spec)) (json_map_field j ''spec'');
           currentSpec = (if emptyDirOverrides spec \<noteq> []
                          then AList.update ''EmptyDirOverrides'' (JArray (map empty_dir_json (emptyDirOverrides spec))) currentSpec
                          else AList.delete ''EmptyDirOverrides'' currentSpec)
       in Inr (obj\<lparr> o_body := BUnstructured (json_put ''spec'' (JObject currentSpec) j) \<rparr>)
   | b \<Rightarrow> Inl (NewError (''expected *unstructured.Unstructured, got '' @ go_type b)))"

definition release_customize :: "merge_libs \<Rightarrow> release_service_config_spec \<Rightarrow> kobj \<Rightarrow> kobj option result" where
  "release_customize L spec obj =
     (case customize_deployment (applyReleaseServiceDeploymentCustomizations L spec) obj of
        Inl e \<Rightarrow> Inl e
      | Inr obj1 \<Rightarrow>
          if isReleaseServiceConfig obj1
          then (case applyReleaseServiceConfigCustomizations spec obj1 of
                  Inl e \<Rightarrow> Inl (Errorf (''failed to apply customizations to ReleaseServiceConfig '' @ o_name obj1) e)
                | Inr obj2 \<Rightarrow> Inr (Some obj2))
          else Inr (Some obj1))"

definition release_applyManifests :: "machinery \<Rightarrow> merge_libs \<Rightarrow> 's api \<Rightarrow> object_store \<Rightarrow> 's operand_env \<Rightarrow> release_service_spec \<Rightarrow> 's op" where
  "release_applyManifests M L A S env spec =
     apply_manifests M A S Release ''failed to get parsed manifests for Release''
       (operand_prepare (rs_componentMetrics spec) env releaseServiceNamespace (release_customize L (rs_config spec)))"

definition release_apply :: "machinery \<Rightarrow> merge_libs \<Rightarrow> scrape_lib \<Rightarrow> 's api \<Rightarrow> object_store \<Rightarrow> 's operand_env \<Rightarrow> kobj \<Rightarrow> 's phase" where
  "release_apply M L X A S env cr =
     step_then (release_applyManifests M L A S env (release_service_spec_of cr)) ReasonApplyFailed ''apply manifests''
      (scrape_phase M X A S env (rs_componentMetrics (release_service_spec_of cr)) Release releaseServiceNamespace ''release-service'')"

definition release_component :: "machinery \<Rightarrow> merge_libs \<Rightarrow> scrape_lib \<Rightarrow> 's api \<Rightarrow> object_store \<Rightarrow> 's operand_env \<Rightarrow> 's component_def" where
  "release_component M L X A S env = \<lparr> cmp_gvk = konflux_gvk ''KonfluxReleaseService'', cmp_component = component_name Release,
     cmp_fieldManager = ''konflux-releaseservice-controller'', cmp_cleanupGVKs = ComponentMetricsOrphanCleanupGVKs,
     cmp_opts = [WithClusterScopedAllowList (cleanup_allow_list ''release-service-metrics-reader'' ''prometheus-release-service-metrics-reader'')],
     cmp_apply = release_apply M L X A S env,
     cmp_status = deployments_status M A \<rparr>"

interpretation release: service_reconciler M "release_component M L X A S env" A for M L X A S env
proof (rule service_reconcilerI)
  show "good_phase M (cmp_apply (release_component M L X A S env) cr)" for cr
    unfolding release_component_def release_apply_def release_applyManifests_def component_def.simps by (intro good_intros)
qed (simp add: release_component_def)

section \<open>Image controller\<close>

abbreviation imageControllerNamespace :: string where "imageControllerNamespace \<equiv> ''image-controller''"
abbreviation quayCABundleMountPath :: string where "quayCABundleMountPath \<equiv> ''/etc/ssl/certs/quay-ca''"
abbreviation defaultQuayCAConfigMapName :: string where "defaultQuayCAConfigMapName \<equiv> ''quay-ca-bundle''"

definition image_controller_spec_of :: "kobj \<Rightarrow> image_controller_spec" where
  "image_controller_spec_of cr = (case o_body cr of BKonfluxCR (ImageControllerSpec s) \<Rightarrow> s
     | _ \<Rightarrow> \<lparr> ic_config = ImageControllerConfigSpec, ic_componentMetrics = None \<rparr>)"

text \<open>\<open>filepath.Base\<close>: trailing slashes are dropped, then everything up to the last slash.\<close>

definition Base :: "string \<Rightarrow> string" where
  "Base p = (if p = [] then ''.''
     else let q = rev (dropWhile (\<lambda>c. c = CHR ''/'') (rev p));
              b = rev (takeWhile (\<lambda>c. c \<noteq> CHR ''/'') (rev q))
          in if b = [] then ''/'' else b)"

definition buildImageControllerManagerOverlay :: "image_controller_config_spec \<Rightarrow> pod_overlay result" where
  "buildImageControllerManagerOverlay spec =
     (let deployCtx = \<lparr> Replicas = (case imageControllerManager spec of None \<Rightarrow> 0 | Some s \<Rightarrow> cm_replicas s) \<rparr>;
          managerSpec = (case imageControllerManager spec of None \<Rightarrow> None | Some s \<Rightarrow> cm_manager s);
          rest = (\<lambda>podOpts containerOpts. NewPodOverlay (podOpts @
            (if ic_logEncoder spec \<noteq> [] then [WithArgReplace ''manager'' [ZapEncoderArg @ ''='' @ ic_logEncoder spec]] else []) @
            [WithContainerOpts ''manager'' deployCtx (containerOpts @ [FromContainerSpec managerSpec]),
             WithLeaderElection ''manager'' (Replicas deployCtx)]))
      in case quayCABundle spec of
           None \<Rightarrow> Inr (rest [] [])
         | Some b \<Rightarrow>
             let key = qcb_key b
             in if Base key \<noteq> key \<or> key = ''.'' \<or> key = ''..''
                then Inl (NewError (''invalid CA bundle key '' @ strconv_Quote key @
                       '': must be a plain filename without path separators or traversal sequences''))
                else Inr (rest (if qcb_configMapName b \<noteq> defaultQuayCAConfigMapName
                                then [WithConfigMapVolumeUpdate ''quay-ca-bundle'' (qcb_configMapName b)] else [])
                       [WithEnv [EnvVar ''QUAY_ADDITIONAL_CA'' (PathJoin quayCABundleMountPath key)]]))"

definition applyImageControllerDeploymentCustomizations :: "merge_libs \<Rightarrow> image_controller_config_spec \<Rightarrow> string \<Rightarrow> deployment \<Rightarrow> deployment result" where
  "applyImageControllerDeploymentCustomizations L spec name d =
     (if name = ''image-controller-controller-manager''
      then (case buildImageControllerManagerOverlay spec of
              Inl e \<Rightarrow> Inl e
            | Inr overlay \<Rightarrow> as_result (ApplyToDeployment L (Some overlay) (set_replicas (imageControllerManager spec) d)))
      else Inr d)"

definition applyImagePrunerCustomizations :: "merge_libs \<Rightarrow> image_controller_config_spec \<Rightarrow> string \<Rightarrow> cron_job \<Rightarrow> cron_job result" where
  "applyImagePrunerCustomizations L spec name cj = as_result (ApplyCronJobContainerSpec L name cj ''image-pruner'' (imagePruner spec))"

definition applyNotificationResetterCustomizations :: "merge_libs \<Rightarrow> image_controller_config_spec \<Rightarrow> string \<Rightarrow> cron_job \<Rightarrow> cron_job result" where
  "applyNotificationResetterCustomizations L spec name cj =
     as_result (ApplyCronJobContainerSpec L name cj ''notification-resetter'' (notificationResetter spec))"

definition image_customize :: "merge_libs \<Rightarrow> image_controller_config_spec \<Rightarrow> kobj \<Rightarrow> kobj option result" where
  "image_customize L spec obj =
     (case customize_deployment (applyImageControllerDeploymentCustomizations L spec) obj of
        Inl e \<Rightarrow> Inl e
      | Inr obj1 \<Rightarrow>
          (case customize_cronjob (\<lambda>name cj.
               if name = ''image-controller-image-pruner-cronjob'' then applyImagePrunerCustomizations L spec name cj
               else if name = ''image-controller-notification-resetter-cronjob'' then applyNotificationResetterCustomizations L spec name cj
               else Inr cj) obj1 of
             Inl e \<Rightarrow> Inl e | Inr obj2 \<Rightarrow> Inr (Some obj2)))"

definition image_applyManifests :: "machinery \<Rightarrow> merge_libs \<Rightarrow> 's api \<Rightarrow> object_store \<Rightarrow> 's operand_env \<Rightarrow> image_controller_spec \<Rightarrow> 's op" where
  "image_applyManifests M L A S env spec =
     apply_manifests M A S ImageController ''failed to get parsed manifests for ImageController''
       (operand_prepare (ic_componentMetrics spec) env imageControllerNamespace (image_customize L (ic_config spec)))"

definition image_apply :: "machinery \<Rightarrow> merge_libs \<Rightarrow> scrape_lib \<Rightarrow> 's api \<Rightarrow> object_store \<Rightarrow> 's operand_env \<Rightarrow> kobj \<Rightarrow> 's phase" where
  "image_apply M L X A S env cr =
     step_then (image_applyManifests M L A S env (image_controller_spec_of cr)) ReasonApplyFailed ''apply manifests''
      (scrape_phase M X A S env (ic_componentMetrics (image_controller_spec_of cr)) ImageController imageControllerNamespace ''image-controller'')"

definition image_component :: "machinery \<Rightarrow> merge_libs \<Rightarrow> scrape_lib \<Rightarrow> 's api \<Rightarrow> object_store \<Rightarrow> 's operand_env \<Rightarrow> 's component_def" where
  "image_component M L X A S env = \<lparr> cmp_gvk = konflux_gvk ''KonfluxImageController'', cmp_component = component_name ImageController,
     cmp_fieldManager = ''konflux-imagecontroller-controller'', cmp_cleanupGVKs = ComponentMetricsOrphanCleanupGVKs,
     cmp_opts = [WithClusterScopedAllowList (cleanup_allow_list ''image-controller-metrics-reader'' ''prometheus-image-controller-metrics-reader'')],
     cmp_apply = image_apply M L X A S env,
     cmp_status = deployments_status M A \<rparr>"

interpretation image: service_reconciler M "image_component M L X A S env" A for M L X A S env
proof (rule service_reconcilerI)
  show "good_phase M (cmp_apply (image_component M L X A S env) cr)" for cr
    unfolding image_component_def image_apply_def image_applyManifests_def component_def.simps by (intro good_intros)
qed (simp add: image_component_def)

section \<open>The path of the CA bundle\<close>

lemma Base_no_slash: "CHR ''/'' \<notin> set (Base p) \<or> Base p = ''/''"
  by (auto simp: Base_def Let_def dest: set_takeWhileD)

lemma Base_fixed: "Base key = key \<and> key \<noteq> ''.'' \<and> key \<noteq> ''..'' \<longleftrightarrow> proper_elem key \<or> key = ''/''"
proof (cases "CHR ''/'' \<in> set key \<or> key = []")
  case True
  then have "Base key = key \<Longrightarrow> key = ''/''" using Base_no_slash [of key] by (auto simp: Base_def)
  moreover have "Base ''/'' = ''/''" by (simp add: Base_def)
  ultimately show ?thesis using True by (auto simp: proper_elem_def)
next
  case False
  then have tw: "takeWhile (\<lambda>c. c \<noteq> CHR ''/'') (rev key) = rev key" and dw: "dropWhile (\<lambda>c. c = CHR ''/'') (rev key) = rev key"
    by (auto simp: takeWhile_eq_all_conv dropWhile_eq_self_iff hd_rev dest: last_in_set)
  have "Base key = key" using False unfolding Base_def Let_def dw rev_rev_ident tw by simp
  moreover have "key \<noteq> ''/''" using False by auto
  ultimately show ?thesis using False by (simp add: proper_elem_def)
qed

lemma image_overlay_env:
  assumes "buildImageControllerManagerOverlay spec = Inr overlay" and "quayCABundle spec = Some b"
  shows "EnvVar ''QUAY_ADDITIONAL_CA'' (PathJoin quayCABundleMountPath (qcb_key b)) \<in> set (overlay_env (containerOverlays overlay) ''manager'')"
  using assms
  by (auto simp: buildImageControllerManagerOverlay_def Let_def NewPodOverlay_def WithContainerOpts_def overlay_env_def WithLeaderElection_def
      WithArgReplace_def WithConfigMapVolumeUpdate_def NewContainerOverlay_def WithEnv_def FromContainerSpec_def
      split: if_splits option.splits)


definition ex_image_spec :: "string \<Rightarrow> image_controller_config_spec" where
  "ex_image_spec key = ImageControllerConfigSpec\<lparr> quayCABundle := Some \<lparr> qcb_configMapName = ''ca'', qcb_key = key \<rparr> \<rparr>"


text \<open>The key \<open>/\<close> passes the check of the controller, and the path is then the mount directory itself.\<close>

lemma quay_ca_slash_accepted:
  "(\<exists>overlay. buildImageControllerManagerOverlay (ex_image_spec ''/'') = Inr overlay) \<and> PathJoin quayCABundleMountPath ''/'' = quayCABundleMountPath"
proof
  show "\<exists>overlay. buildImageControllerManagerOverlay (ex_image_spec ''/'') = Inr overlay"
    by (simp add: buildImageControllerManagerOverlay_def ex_image_spec_def ImageControllerConfigSpec_def Base_def)
  show "PathJoin quayCABundleMountPath ''/'' = quayCABundleMountPath" by code_simp
qed

end
