(* ===== verification/Side_Services.thy ===== *)
theory Side_Services
  imports Operands
begin

text \<open>
  The controllers that keep Secrets of their own beside their manifests: segment bridge, internal
  registry and default tenant (\<open>internal/controller/segmentbridge\<close>, \<open>internalregistry\<close>, \<open>defaulttenant\<close>).
  \<open>net/url\<close> is the parameter \<open>url_lib\<close>, bcrypt and the random bytes of a reconcile are arguments of the
  registry's operations.
\<close>

section \<open>Segment bridge\<close>

record parsed_url =
  u_host :: string
  u_path :: string
  u_rest :: json

record url_lib =
  url_Parse :: "string \<Rightarrow> parsed_url result"
  url_String :: "parsed_url \<Rightarrow> string"
  url_EscapedPath :: "parsed_url \<Rightarrow> string"
  url_JoinPath :: "string \<Rightarrow> string list \<Rightarrow> string result"

text \<open>\<open>strings.TrimRight\<close> with a cutset of one byte.\<close>

definition TrimRight :: "string \<Rightarrow> char \<Rightarrow> string" where
  "TrimRight s c = rev (dropWhile (\<lambda>d. d = c) (rev s))"

definition sanitizeSegmentHost :: "url_lib \<Rightarrow> string \<Rightarrow> string" where
  "sanitizeSegmentHost U rawURL = (case url_Parse U rawURL of
     Inl e \<Rightarrow> rawURL
   | Inr u \<Rightarrow>
       let u1 = u\<lparr> u_path := TrimRight (u_path u) (CHR ''/'') \<rparr>;
           u2 = u1\<lparr> u_path := TrimSuffix (u_path u1) ''/batch'' \<rparr>;
           u3 = u2\<lparr> u_path := TrimRight (u_path u2) (CHR ''/'') \<rparr>
       in url_String U u3)"

definition GetSegmentAPIURL :: "url_lib \<Rightarrow> segment_bridge_spec option \<Rightarrow> string" where
  "GetSegmentAPIURL U s = sanitizeSegmentHost U (case s of
     Some sp \<Rightarrow> if segmentAPIURL sp \<noteq> [] then segmentAPIURL sp else DefaultSegmentAPIURL
   | None \<Rightarrow> DefaultSegmentAPIURL)"

definition ExtractURLHostAndPath :: "url_lib \<Rightarrow> string \<Rightarrow> string" where
  "ExtractURLHostAndPath U rawURL = (case url_Parse U rawURL of
     Inl e \<Rightarrow> rawURL
   | Inr u \<Rightarrow> if u_host u = [] then rawURL else u_host u @ url_EscapedPath U u)"

text \<open>Logging aside, \<open>LogWriteKeyResolution\<close> tells whether there is a key.\<close>

definition LogWriteKeyResolution :: "string \<Rightarrow> string \<Rightarrow> bool" where
  "LogWriteKeyResolution key source \<longleftrightarrow> key \<noteq> []"

abbreviation segmentBridgeCRName :: string where "segmentBridgeCRName \<equiv> ''konflux-segment-bridge''"
abbreviation segmentBridgeNamespace :: string where "segmentBridgeNamespace \<equiv> ''segment-bridge''"
abbreviation segmentBridgeSecretName :: string where "segmentBridgeSecretName \<equiv> ''segment-bridge-config''"
abbreviation cronJobName :: string where "cronJobName \<equiv> ''segment-bridge''"
abbreviation cronJobContainerName :: string where "cronJobContainerName \<equiv> ''segment-bridge''"
abbreviation tektonResultsAPIAddrK8s :: string where
  "tektonResultsAPIAddrK8s \<equiv> ''tekton-results-api-service.tekton-pipelines.svc.cluster.local:8080''"
abbreviation tektonResultsAPIAddrOpenShift :: string where
  "tektonResultsAPIAddrOpenShift \<equiv> ''tekton-results-api-service.openshift-pipelines.svc.cluster.local:8080''"

definition segment_bridge_spec_of :: "kobj \<Rightarrow> segment_bridge_spec" where
  "segment_bridge_spec_of cr = (case o_body cr of BKonfluxCR (KonfluxSegmentBridgeSpec s) \<Rightarrow> s | _ \<Rightarrow> SegmentBridgeSpec)"

definition applySegmentBridgeCronJobCustomizations :: "merge_libs \<Rightarrow> segment_bridge_spec \<Rightarrow> string \<Rightarrow> cron_job \<Rightarrow> cron_job result" where
  "applySegmentBridgeCronJobCustomizations L spec name cj =
     as_result (ApplyCronJobContainerSpec L name cj cronJobContainerName (sb_cronJob spec))"

definition segmentbridge_prepare :: "merge_libs \<Rightarrow> segment_bridge_spec \<Rightarrow> kobj \<Rightarrow> kobj option result" where
  "segmentbridge_prepare L spec obj =
     (case customize_cronjob (\<lambda>name cj. if name = cronJobName then applySegmentBridgeCronJobCustomizations L spec name cj
                                        else Inr cj) obj of
        Inl e \<Rightarrow> Inl e | Inr obj' \<Rightarrow> Inr (Some obj'))"

definition segmentbridge_applyManifests :: "machinery \<Rightarrow> merge_libs \<Rightarrow> 's api \<Rightarrow> object_store \<Rightarrow> segment_bridge_spec \<Rightarrow> 's op" where
  "segmentbridge_applyManifests M L A S spec =
     apply_manifests M A S SegmentBridge ''failed to get parsed manifests for SegmentBridge'' (segmentbridge_prepare L spec)"

definition tektonResultsAPIAddr :: "cluster_info option \<Rightarrow> string" where
  "tektonResultsAPIAddr ci = (if on_openshift ci then tektonResultsAPIAddrOpenShift else tektonResultsAPIAddrK8s)"

definition segmentBridgeSecret :: "cluster_info option \<Rightarrow> segment_bridge_spec \<Rightarrow> string \<Rightarrow> string \<Rightarrow> kobj" where
  "segmentBridgeSecret ci spec key batchURL =
     new_object secretGVK segmentBridgeNamespace segmentBridgeSecretName (BSecretStringData
       [(''TEKTON_RESULTS_API_ADDR'', tektonResultsAPIAddr ci),
        (''SEGMENT_WRITE_KEY'', key),
        (''SEGMENT_BATCH_API'', batchURL),
        (''TEKTON_LIMIT'', show_int (GetTektonLimit (Some spec)))])"

definition resolve_segment_key :: "'s api \<Rightarrow> segment_bridge_spec \<Rightarrow> 's world \<Rightarrow> string result \<times> 's world" where
  "resolve_segment_key A spec w =
     (if GetSegmentKey (Some spec) = []
      then (case ResolveWriteKeySecretRef A segmentBridgeNamespace (GetSegmentKeySecretRef (Some spec)) w of
              (Inl e, w1) \<Rightarrow> (Inl (Errorf ''failed to resolve segmentKeySecretRef'' e), w1)
            | (Inr secretKey, w1) \<Rightarrow> (Inr (fst (ResolveWriteKey (GetSegmentKey (Some spec)) secretKey)), w1))
      else (Inr (fst (ResolveWriteKey (GetSegmentKey (Some spec)) [])), w))"

definition reconcileSegmentBridgeSecret :: "machinery \<Rightarrow> url_lib \<Rightarrow> 's api \<Rightarrow> cluster_info option \<Rightarrow> segment_bridge_spec \<Rightarrow> 's op" where
  "reconcileSegmentBridgeSecret M U A ci spec tc w =
     (case resolve_segment_key A spec w of
        (Inl e, w1) \<Rightarrow> (Some e, tc, w1)
      | (Inr writeKey, w1) \<Rightarrow>
          (case url_JoinPath U (GetSegmentAPIURL U (Some spec)) [''batch''] of
             Inl e \<Rightarrow> (Some (Errorf ''invalid segment API URL'' e), tc, w1)
           | Inr batchURL \<Rightarrow>
               (case ApplyOwned M A (segmentBridgeSecret ci spec writeKey batchURL) tc w1 of
                  (Inl e, tc', w2) \<Rightarrow> (Some (Errorf ''failed to apply Secret'' e), tc', w2)
                | (Inr x, tc', w2) \<Rightarrow> (None, tc', w2))))"

definition segmentbridge_apply :: "machinery \<Rightarrow> merge_libs \<Rightarrow> url_lib \<Rightarrow> 's api \<Rightarrow> object_store \<Rightarrow> cluster_info option \<Rightarrow> kobj \<Rightarrow> 's phase" where
  "segmentbridge_apply M L U A S ci cr =
     step_then (segmentbridge_applyManifests M L A S (segment_bridge_spec_of cr)) ReasonApplyFailed ''apply manifests''
      (step_then (reconcileSegmentBridgeSecret M U A ci (segment_bridge_spec_of cr)) ReasonSecretCreationFailed
         ''reconcile segment-bridge secret'' (done_phase no_requeue))"

definition segmentbridge_component :: "machinery \<Rightarrow> merge_libs \<Rightarrow> url_lib \<Rightarrow> 's api \<Rightarrow> object_store \<Rightarrow> cluster_info option \<Rightarrow>
    's component_def" where
  "segmentbridge_component M L U A S ci = \<lparr> cmp_gvk = konflux_gvk ''KonfluxSegmentBridge'', cmp_component = component_name SegmentBridge,
     cmp_fieldManager = ''konflux-segmentbridge-controller'', cmp_cleanupGVKs = [], cmp_opts = [WithClusterScopedAllowList None],
     cmp_apply = segmentbridge_apply M L U A S ci,
     cmp_status = deployments_status M A \<rparr>"

definition mapSegmentKeySecretToSegmentBridge :: "'s api \<Rightarrow> kobj \<Rightarrow> 's world \<Rightarrow> string list \<times> 's world" where
  "mapSegmentKeySecretToSegmentBridge A obj w =
     (if go_type (o_body obj) \<noteq> ''*v1.Secret'' \<or> o_namespace obj \<noteq> segmentBridgeNamespace then ([], w)
      else (case k_get A (konflux_gvk ''KonfluxSegmentBridge'') [] segmentBridgeCRName w of
          (Inl e, w') \<Rightarrow> ([], w')
        | (Inr sb, w') \<Rightarrow> (case GetSegmentKeySecretRef (Some (segment_bridge_spec_of sb)) of
            None \<Rightarrow> ([], w')
          | Some ref \<Rightarrow> (if sks_name ref \<noteq> o_name obj then [] else [segmentBridgeCRName], w'))))"

lemma ResolveWriteKeySecretRef_quiet: "ResolveWriteKeySecretRef A ns ref w = (r, w') \<Longrightarrow> emits quiet w w'"
  by (auto simp: ResolveWriteKeySecretRef_def Let_def split: option.splits prod.splits sum.splits if_splits dest!: quiet_calls(1))

lemma resolve_segment_key_quiet: "resolve_segment_key A spec w = (r, w') \<Longrightarrow> emits quiet w w'"
  by (auto simp: resolve_segment_key_def split: if_splits prod.splits sum.splits dest!: ResolveWriteKeySecretRef_quiet)

lemma good_reconcileSegmentBridgeSecret [good_intros]: "good_op M (reconcileSegmentBridgeSecret M U A ci spec)"
proof (rule good_opI)
  fix tc w r tc' w'
  assume run: "reconcileSegmentBridgeSecret M U A ci spec tc w = (r, tc', w')"
  obtain k w1 where k: "resolve_segment_key A spec w = (k, w1)" by fastforce
  note reads = good_step_quiet [OF resolve_segment_key_quiet [OF k], of M _ tc]
  show "good_step M (r = None) tc w tc' w'"
  proof (cases "\<exists>key batchURL. k = Inr key \<and> url_JoinPath U (GetSegmentAPIURL U (Some spec)) [''batch''] = Inr batchURL")
    case True
    then obtain key batchURL where some: "k = Inr key" "url_JoinPath U (GetSegmentAPIURL U (Some spec)) [''batch''] = Inr batchURL" by blast
    obtain a tc1 w2 where a: "ApplyOwned M A (segmentBridgeSecret ci spec key batchURL) tc w1 = (a, tc1, w2)" by (metis prod_cases3)
    from run k some a have "tc' = tc1" "w' = w2" "r = None \<longleftrightarrow> (\<exists>x. a = Inr x)"
      by (auto simp: reconcileSegmentBridgeSecret_def split: sum.splits)
    with good_step_trans [OF reads ApplyOwned_good [OF a]] show ?thesis by simp
  next
    case False
    with run k have "tc' = tc" "w' = w1" by (auto simp: reconcileSegmentBridgeSecret_def split: sum.splits)
    with reads show ?thesis by simp
  qed
qed

interpretation segmentbridge: service_reconciler M "segmentbridge_component M L U A S ci" A for M L U A S ci
proof (rule service_reconcilerI)
  show "good_phase M (cmp_apply (segmentbridge_component M L U A S ci) cr)" for cr
    unfolding segmentbridge_component_def segmentbridge_apply_def segmentbridge_applyManifests_def component_def.simps by (intro good_intros)
qed (simp add: segmentbridge_component_def)

section \<open>Base64\<close>

text \<open>
  \<open>encoding/base64\<close>: \<open>StdEncoding\<close> pads with \<open>=\<close>, \<open>RawURLEncoding\<close> uses the URL-safe alphabet without
  padding. \<open>DecodeBase64\<close> is the reference decoder of the round trip.
\<close>

definition std_alphabet :: string where
  "std_alphabet = ''ABCDEFGHIJKLMNOPQRSTUVWXYZabcdefghijklmnopqrstuvwxyz0123456789+/''"

definition url_alphabet :: string where
  "url_alphabet = ''ABCDEFGHIJKLMNOPQRSTUVWXYZabcdefghijklmnopqrstuvwxyz0123456789-_''"

fun EncodeBase64 :: "string \<Rightarrow> string \<Rightarrow> nat list \<Rightarrow> string" where
  "EncodeBase64 abc padding [] = []"
| "EncodeBase64 abc padding [a] = abc ! (a div 4) # abc ! (a mod 4 * 16) # padding @ padding"
| "EncodeBase64 abc padding [a, b] = abc ! (a div 4) # abc ! (a mod 4 * 16 + b div 16) # abc ! (b mod 16 * 4) # padding"
| "EncodeBase64 abc padding (a # b # c # bs) =
     abc ! (a div 4) # abc ! (a mod 4 * 16 + b div 16) # abc ! (b mod 16 * 4 + c div 64) # abc ! (c mod 64) # EncodeBase64 abc padding bs"

definition bytes_of :: "string \<Rightarrow> nat list" where
  "bytes_of s = map of_char s"

definition StdEncoding :: "string \<Rightarrow> string" where
  "StdEncoding s = EncodeBase64 std_alphabet ''='' (bytes_of s)"

definition RawURLEncoding :: "nat list \<Rightarrow> string" where
  "RawURLEncoding bs = EncodeBase64 url_alphabet [] bs"

fun sextets :: "string \<Rightarrow> string \<Rightarrow> nat list" where
  "sextets abc [] = []"
| "sextets abc (c # cs) = (if c \<in> set abc then length (takeWhile (\<lambda>d. d \<noteq> c) abc) # sextets abc cs else [])"

fun bytes_of_sextets :: "nat list \<Rightarrow> nat list" where
  "bytes_of_sextets (p # q # r # s # rest) = (p * 4 + q div 16) # (q mod 16 * 16 + r div 4) # (r mod 4 * 64 + s) # bytes_of_sextets rest"
| "bytes_of_sextets [p, q, r] = [p * 4 + q div 16, q mod 16 * 16 + r div 4]"
| "bytes_of_sextets [p, q] = [p * 4 + q div 16]"
| "bytes_of_sextets _ = []"

definition DecodeBase64 :: "string \<Rightarrow> string \<Rightarrow> nat list" where
  "DecodeBase64 abc s = bytes_of_sextets (sextets abc s)"

definition is_alphabet :: "string \<Rightarrow> bool" where
  "is_alphabet abc \<longleftrightarrow> length abc = 64 \<and> distinct abc"

lemma alphabets: "is_alphabet std_alphabet" "is_alphabet url_alphabet" "CHR ''='' \<notin> set std_alphabet"
  by (simp_all add: is_alphabet_def std_alphabet_def url_alphabet_def)

lemma takeWhile_nth: "distinct xs \<Longrightarrow> i < length xs \<Longrightarrow> length (takeWhile (\<lambda>d. d \<noteq> xs ! i) xs) = i"
  by (subst takeWhile_eq_take_P_nth [of i]) (auto simp: nth_eq_iff_index_eq)

lemma sextets_nth: "is_alphabet abc \<Longrightarrow> i < 64 \<Longrightarrow> sextets abc (abc ! i # cs) = i # sextets abc cs"
  by (simp add: is_alphabet_def takeWhile_nth)

lemma sextets_pad: "set padding \<inter> set abc = {} \<Longrightarrow> sextets abc (padding @ padding) = []" "set padding \<inter> set abc = {} \<Longrightarrow> sextets abc padding = []"
  by (cases padding; auto)+


lemma digit_bounds:
  fixes a :: nat
  shows "a < 256 \<Longrightarrow> a div 4 < 64" "a < 256 \<Longrightarrow> a div 16 < 16" "a < 256 \<Longrightarrow> a div 64 < 4" "a mod 4 < 4" "a mod 16 < 16" "a mod 64 < 64"
  by (simp_all add: less_mult_imp_div_less)

lemma sextet_bounds:
  fixes a b c :: nat
  shows "a < 256 \<Longrightarrow> a div 4 < 64" "a mod 4 * 16 < 64" "b < 256 \<Longrightarrow> a mod 4 * 16 + b div 16 < 64" "b mod 16 * 4 < 64"
    "c < 256 \<Longrightarrow> b mod 16 * 4 + c div 64 < 64" "c mod 64 < 64"
proof -
  have "x < 4 \<Longrightarrow> y < 16 \<Longrightarrow> x * 16 + y < 64" "x < 4 \<Longrightarrow> x * 16 < 64" "x < 16 \<Longrightarrow> x * 4 < 64" "x < 16 \<Longrightarrow> y < 4 \<Longrightarrow> x * 4 + y < 64" for x y :: nat
    by simp_all
  then show "a mod 4 * 16 < 64" "b < 256 \<Longrightarrow> a mod 4 * 16 + b div 16 < 64" "b mod 16 * 4 < 64" "c < 256 \<Longrightarrow> b mod 16 * 4 + c div 64 < 64"
    by (simp_all only: digit_bounds)
qed (simp_all only: digit_bounds)

lemma sextet_bytes:
  fixes a b c :: nat
  shows "a div 4 * 4 + a mod 4 * 16 div 16 = a"
    "b < 256 \<Longrightarrow> a div 4 * 4 + (a mod 4 * 16 + b div 16) div 16 = a"
    "b < 256 \<Longrightarrow> (a mod 4 * 16 + b div 16) mod 16 * 16 + b mod 16 * 4 div 4 = b"
    "b < 256 \<Longrightarrow> c < 256 \<Longrightarrow> (a mod 4 * 16 + b div 16) mod 16 * 16 + (b mod 16 * 4 + c div 64) div 4 = b"
    "c < 256 \<Longrightarrow> (b mod 16 * 4 + c div 64) mod 4 * 64 + c mod 64 = c"
  using digit_bounds [of a] digit_bounds [of b] digit_bounds [of c] by simp_all

text \<open>Decoding an encoding gives the bytes back, with either alphabet and with or without padding.\<close>

lemma DecodeBase64_Encode:
  assumes "is_alphabet abc" and "set padding \<inter> set abc = {}" and "\<forall>b \<in> set bs. b < 256"
  shows "DecodeBase64 abc (EncodeBase64 abc padding bs) = bs"
  using assms
proof (induction abc padding bs rule: EncodeBase64.induct)
  case (4 abc padding a b c bs)
  then have "bytes_of_sextets (sextets abc (EncodeBase64 abc padding bs)) = bs" by (simp add: DecodeBase64_def)
  with "4.prems" show ?case
    by (simp only: EncodeBase64.simps DecodeBase64_def sextets_nth sextet_bounds sextet_bytes bytes_of_sextets.simps list.set insert_iff ball_simps simp_thms)
qed (simp_all only: EncodeBase64.simps DecodeBase64_def sextets_nth sextets_pad sextet_bounds sextet_bytes bytes_of_sextets.simps
    sextets.simps(1) list.set insert_iff ball_simps append_Nil append_Cons simp_thms)
section \<open>Internal registry\<close>

abbreviation internalRegistryCRName :: string where "internalRegistryCRName \<equiv> ''konflux-internal-registry''"
abbreviation RegistryNamespace :: string where "RegistryNamespace \<equiv> ''kind-registry''"
abbreviation HtpasswdSecretName :: string where "HtpasswdSecretName \<equiv> ''zot-htpasswd''"
abbreviation ClientCredentialsSecretName :: string where "ClientCredentialsSecretName \<equiv> ''internal-registry-client-auth''"
abbreviation RegistryServiceHost :: string where "RegistryServiceHost \<equiv> ''registry-service.kind-registry''"
abbreviation RegistryAuthUsername :: string where "RegistryAuthUsername \<equiv> ''konflux''"
abbreviation DockerConfigJsonKey :: string where "DockerConfigJsonKey \<equiv> ''.dockerconfigjson''"

definition IsNoKindMatchError :: "go_error \<Rightarrow> bool" where
  "IsNoKindMatchError e \<longleftrightarrow> error_kind_of e = Some NoKindMatch"

text \<open>The loop over the manifests: a Bundle whose kind is not installed is skipped.\<close>

fun registry_apply_objects :: "machinery \<Rightarrow> 's api \<Rightarrow> kobj list \<Rightarrow> 's op" where
  "registry_apply_objects M A [] tc w = (None, tc, w)"
| "registry_apply_objects M A (obj # objs) tc w = (case ApplyOwned M A obj tc w of
     (Inl e, tc1, w1) \<Rightarrow>
       if IsNoKindMatchError e \<and> Group (o_gvk obj) = ''trust.cert-manager.io'' then registry_apply_objects M A objs tc1 w1
       else (Some (apply_error Registry obj e), tc1, w1)
   | (Inr x, tc1, w1) \<Rightarrow> registry_apply_objects M A objs tc1 w1)"

definition registry_applyManifests :: "machinery \<Rightarrow> 's api \<Rightarrow> object_store \<Rightarrow> 's op" where
  "registry_applyManifests M A S tc w = (case GetForComponent S Registry of
     Inl e \<Rightarrow> (Some (Errorf ''failed to get parsed manifests for Registry'' e), tc, w)
   | Inr objs \<Rightarrow> registry_apply_objects M A objs tc w)"

text \<open>
  The API server never returns \<open>stringData\<close>: a fetched Secret is a \<open>BSecret\<close> of its type and data.
  \<open>rand_Read\<close> are the random bytes the reconcile at hand gets, \<open>GenerateFromPassword\<close> is bcrypt with the
  default cost and the salt it draws.
\<close>

record registry_lib =
  rand_Read :: "nat \<Rightarrow> nat list result"
  GenerateFromPassword :: "string \<Rightarrow> string result"

definition hasSecretData :: "kobj \<Rightarrow> string \<Rightarrow> bool" where
  "hasSecretData secret key = (case o_body secret of
     BSecret t d \<Rightarrow> go_get d key \<noteq> [] | BSecretStringData d \<Rightarrow> go_get d key \<noteq> [] | _ \<Rightarrow> False)"

definition generateRandomSecret :: "registry_lib \<Rightarrow> nat \<Rightarrow> string result" where
  "generateRandomSecret R n = (case rand_Read R n of
     Inl e \<Rightarrow> Inl (Errorf ''generate random bytes'' e)
   | Inr bs \<Rightarrow> Inr (RawURLEncoding bs))"

definition buildDockerConfigJSON :: "string \<Rightarrow> string \<Rightarrow> string \<Rightarrow> string" where
  "buildDockerConfigJSON registry username password =
     ''{'' @ json_string ''auths'' @ '':{'' @ json_string registry @ '':{'' @ json_string ''auth'' @ '':'' @
     json_string (StdEncoding (username @ '':'' @ password)) @ ''}}}''"

definition secret_type_data :: "kobj \<Rightarrow> string \<times> smap" where
  "secret_type_data obj = (case o_body obj of BSecret t d \<Rightarrow> (t, d) | _ \<Rightarrow> ([], []))"

definition mutate_htpasswd :: "machinery \<Rightarrow> registry_lib \<Rightarrow> bool \<Rightarrow> string \<Rightarrow> tracking_client \<Rightarrow> kobj \<Rightarrow> kobj result" where
  "mutate_htpasswd M R rotateCredentials password tc obj = (case SetOwnership M tc obj of
     Inl e \<Rightarrow> Inl e
   | Inr htpasswd \<Rightarrow> (case secret_type_data htpasswd of (t, d) \<Rightarrow>
       let t' = (if t = [] then ''Opaque'' else t)
       in if rotateCredentials
          then (case GenerateFromPassword R password of
                  Inl e \<Rightarrow> Inl (Errorf ''generate htpasswd hash'' e)
                | Inr hash \<Rightarrow> Inr (htpasswd\<lparr> o_body := BSecret t' (sput ''htpasswd'' (RegistryAuthUsername @ '':'' @ hash @ newline) d) \<rparr>))
          else Inr (htpasswd\<lparr> o_body := BSecret t' d \<rparr>)))"

definition mutate_client_auth :: "machinery \<Rightarrow> bool \<Rightarrow> string \<Rightarrow> tracking_client \<Rightarrow> kobj \<Rightarrow> kobj result" where
  "mutate_client_auth M rotateCredentials password tc obj = (case SetOwnership M tc obj of
     Inl e \<Rightarrow> Inl e
   | Inr auth \<Rightarrow> (case secret_type_data auth of (t, d) \<Rightarrow>
       let t' = (if t = [] then ''kubernetes.io/dockerconfigjson'' else t)
       in Inr (auth\<lparr> o_body := BSecret t' (if rotateCredentials
            then sput DockerConfigJsonKey (buildDockerConfigJSON RegistryServiceHost RegistryAuthUsername password) d else d) \<rparr>)))"

definition registry_secret :: "string \<Rightarrow> kobj" where
  "registry_secret name = new_object (mk_gvk [] [] []) RegistryNamespace name (BSecret [] [])"

definition get_registry_secret :: "'s api \<Rightarrow> string \<Rightarrow> 's world \<Rightarrow> kobj result \<times> 's world" where
  "get_registry_secret A name w = (case k_get A secretGVK RegistryNamespace name w of
     (Inl e, w') \<Rightarrow> (if IgnoreNotFound e \<noteq> None then Inl (Errorf (''get '' @ name) e) else Inr (registry_secret name), w')
   | (Inr obj, w') \<Rightarrow> (Inr obj, w'))"

definition must_rotate :: "kobj \<Rightarrow> kobj \<Rightarrow> bool" where
  "must_rotate htpasswd registryAuthSecret \<longleftrightarrow>
     \<not> hasSecretData htpasswd ''htpasswd'' \<or> \<not> hasSecretData registryAuthSecret DockerConfigJsonKey"

definition write_credentials :: "machinery \<Rightarrow> 's api \<Rightarrow> registry_lib \<Rightarrow> kobj \<Rightarrow> kobj \<Rightarrow> bool \<Rightarrow> string \<Rightarrow> 's op" where
  "write_credentials M A R htpasswd registryAuthSecret rotateCredentials password tc w =
     (case CreateOrUpdate M A htpasswd (mutate_htpasswd M R rotateCredentials password tc) tc w of
        (Inl e, tc1, w1) \<Rightarrow> (Some (Errorf (''ensure '' @ HtpasswdSecretName) e), tc1, w1)
      | (Inr x, tc1, w1) \<Rightarrow>
          (case CreateOrUpdate M A registryAuthSecret (mutate_client_auth M rotateCredentials password tc1) tc1 w1 of
             (Inl e, tc2, w2) \<Rightarrow> (Some (Errorf (''ensure '' @ ClientCredentialsSecretName) e), tc2, w2)
           | (Inr y, tc2, w2) \<Rightarrow> (None, tc2, w2)))"

definition ensureRegistryCredentials :: "machinery \<Rightarrow> 's api \<Rightarrow> registry_lib \<Rightarrow> 's op" where
  "ensureRegistryCredentials M A R tc w =
     (case get_registry_secret A HtpasswdSecretName w of
        (Inl e, w1) \<Rightarrow> (Some e, tc, w1)
      | (Inr htpasswd, w1) \<Rightarrow> (case get_registry_secret A ClientCredentialsSecretName w1 of
          (Inl e, w2) \<Rightarrow> (Some e, tc, w2)
        | (Inr registryAuthSecret, w2) \<Rightarrow>
            let rotateCredentials = must_rotate htpasswd registryAuthSecret
            in (case (if rotateCredentials then generateRandomSecret R 24 else Inr []) of
                  Inl e \<Rightarrow> (Some e, tc, w2)
                | Inr password \<Rightarrow> write_credentials M A R htpasswd registryAuthSecret rotateCredentials password tc w2)))"

definition registry_apply :: "machinery \<Rightarrow> 's api \<Rightarrow> object_store \<Rightarrow> registry_lib \<Rightarrow> kobj \<Rightarrow> 's phase" where
  "registry_apply M A S R cr =
     step_then (registry_applyManifests M A S) ReasonApplyFailed ''apply manifests''
      (step_then (ensureRegistryCredentials M A R) ReasonApplyFailed ''apply manifests'' (done_phase no_requeue))"

definition internalregistry_component :: "machinery \<Rightarrow> 's api \<Rightarrow> object_store \<Rightarrow> registry_lib \<Rightarrow> 's component_def" where
  "internalregistry_component M A S R = \<lparr> cmp_gvk = konflux_gvk ''KonfluxInternalRegistry'', cmp_component = component_name Registry,
     cmp_fieldManager = ''konflux-internal-registry-controller'', cmp_cleanupGVKs = [secretGVK], cmp_opts = [WithClusterScopedAllowList None],
     cmp_apply = registry_apply M A S R,
     cmp_status = deployments_status M A \<rparr>"
text \<open>
  A step of this controller keeps the laws of \<open>reconcile_laws\<close>, but may succeed although a patch failed
  (the skipped Bundle), so the controller is a \<open>deployment_reconciler\<close> and no \<open>strict_reconciler\<close>.
\<close>

definition tracked_op :: "machinery \<Rightarrow> 's op \<Rightarrow> bool" where
  "tracked_op M f \<longleftrightarrow> (\<forall>tc w r tc' w'. f tc w = (r, tc', w') \<longrightarrow> tracked_phase M tc w tc' w')"

lemma tracked_opI: "(\<And>tc w r tc' w'. f tc w = (r, tc', w') \<Longrightarrow> tracked_phase M tc w tc' w') \<Longrightarrow> tracked_op M f"
  by (simp add: tracked_op_def)

lemma tracked_opD: "tracked_op M f \<Longrightarrow> f tc w = (r, tc', w') \<Longrightarrow> tracked_phase M tc w tc' w'"
  by (simp add: tracked_op_def)

lemma registry_apply_objects_tracked:
  "registry_apply_objects M A objs tc w = (r, tc', w') \<Longrightarrow> tracked_phase M tc w tc' w'"
proof (induction objs arbitrary: tc w)
  case (Cons obj objs)
  obtain a tc1 w1 where a: "ApplyOwned M A obj tc w = (a, tc1, w1)" by (metis prod_cases3)
  note first = ApplyOwned_phase(1) [OF a]
  from Cons.prems a consider "tc' = tc1" "w' = w1" | "registry_apply_objects M A objs tc1 w1 = (r, tc', w')"
    by (auto split: sum.splits if_splits)
  then show ?case
  proof cases
    case 2
    from tracked_phase_trans [OF first Cons.IH [OF this]] show ?thesis .
  qed (use first in simp)
qed simp

lemma registry_applyManifests_tracked: "tracked_op M (registry_applyManifests M A S)"
  by (rule tracked_opI) (auto simp: registry_applyManifests_def split: sum.splits dest: registry_apply_objects_tracked)

lemma get_registry_secret_quiet: "get_registry_secret A name w = (r, w') \<Longrightarrow> emits quiet w w'"
  by (auto simp: get_registry_secret_def split: prod.splits sum.splits dest!: quiet_calls(1))

lemma write_credentials_tracked: "tracked_op M (write_credentials M A R h c b p)"
  by (rule tracked_opI) (auto simp: write_credentials_def split: prod.splits sum.splits
      dest!: CreateOrUpdate_phase(1) intro: tracked_phase_trans)

lemma ensureRegistryCredentials_tracked: "tracked_op M (ensureRegistryCredentials M A R)"
proof (rule tracked_opI)
  fix tc w r tc' w'
  assume run: "ensureRegistryCredentials M A R tc w = (r, tc', w')"
  obtain h w1 where h: "get_registry_secret A HtpasswdSecretName w = (h, w1)" by fastforce
  obtain c w2 where c: "get_registry_secret A ClientCredentialsSecretName w1 = (c, w2)" by fastforce
  note first = quiet_phase [OF get_registry_secret_quiet [OF h], of M tc]
  note both = tracked_phase_trans [OF first quiet_phase [OF get_registry_secret_quiet [OF c]]]
  from run h c consider "tc' = tc" "w' = w1" | "tc' = tc" "w' = w2" | ho co p where
      "write_credentials M A R ho co (must_rotate ho co) p tc w2 = (r, tc', w')"
    by (auto simp: ensureRegistryCredentials_def Let_def split: sum.splits)
  then show "tracked_phase M tc w tc' w'"
  proof cases
    case 3
    from tracked_phase_trans [OF both tracked_opD [OF write_credentials_tracked this]] show ?thesis .
  qed (use first both in auto)
qed

interpretation internalregistry: deployment_reconciler M "internalregistry_component M A S R" A for M A S R
proof (rule deployment_reconcilerI)
  fix cr tc w r tc' w'
  assume run: "cmp_apply (internalregistry_component M A S R) cr tc w = (r, tc', w')"
  obtain e tc1 w1 where m: "registry_applyManifests M A S tc w = (e, tc1, w1)" by (metis prod_cases3)
  note first = tracked_opD [OF registry_applyManifests_tracked m]
  show "tracked_phase M tc w tc' w'"
  proof (cases e)
    case (Some x)
    with run m first show ?thesis by (simp add: internalregistry_component_def registry_apply_def step_then_def)
  next
    case None
    obtain e2 tc2 w2 where c: "ensureRegistryCredentials M A R tc1 w1 = (e2, tc2, w2)" by (metis prod_cases3)
    with run m None have "tc' = tc2" "w' = w2"
      by (auto simp: internalregistry_component_def registry_apply_def step_then_def done_phase_def split: option.splits)
    with tracked_phase_trans [OF first tracked_opD [OF ensureRegistryCredentials_tracked c]] show ?thesis by simp
  qed
qed (simp add: internalregistry_component_def)
section \<open>The registry credentials\<close>

text \<open>
  What \<open>controllerutil.CreateOrUpdate\<close> documents: it fetches the object, keeps the one passed when there
  is none, runs the mutate function and writes the result. \<open>SetControllerReference\<close> only touches owner
  references.
\<close>

definition stored_secret :: "'s api \<Rightarrow> kobj \<Rightarrow> 's \<Rightarrow> kobj" where
  "stored_secret A obj s = (case fst (api_get A secretGVK (o_namespace obj) (o_name obj) s) of Inl e \<Rightarrow> obj | Inr cur \<Rightarrow> cur)"

definition create_or_update_laws :: "machinery \<Rightarrow> 's api \<Rightarrow> bool" where
  "create_or_update_laws M A \<longleftrightarrow>
     (\<forall>obj f s x s'. api_create_or_update A obj f s = (Inr x, s') \<longrightarrow>
        (\<exists>written. f (stored_secret A obj s) = Inr written \<and> o_body x = o_body written)) \<and>
     (\<forall>owner obj obj'. SetControllerReference M owner obj = Inr obj' \<longrightarrow> o_body obj' = o_body obj)"

lemma SetOwnership_body:
  assumes "create_or_update_laws M A" and "SetOwnership M tc obj = Inr obj'"
  shows "o_body obj' = o_body obj"
  using assms by (fastforce simp: create_or_update_laws_def SetOwnership_def Let_def split: option.splits if_splits sum.splits)

lemma CreateOrUpdate_secret:
  assumes "create_or_update_laws M A" and "CreateOrUpdate M A obj f tc w = (Inr x, tc', w')"
  obtains written where "f (stored_secret A obj (cluster w)) = Inr written" "o_body x = o_body written"
    "events w' = events w @ [ECreateOrUpdate obj (Inr x)]"
proof -
  from assms(2) obtain s where call: "api_create_or_update A obj f (cluster w) = (Inr x, s)" and w': "w' = emit (ECreateOrUpdate obj (Inr x)) s w"
    by (auto simp: CreateOrUpdate_def k_create_or_update_def split: prod.splits sum.splits)
  from assms(1) call obtain written where "f (stored_secret A obj (cluster w)) = Inr written" "o_body x = o_body written"
    unfolding create_or_update_laws_def by blast
  with w' that show thesis by simp
qed

definition secret_data :: "kobj \<Rightarrow> smap" where
  "secret_data obj = snd (secret_type_data obj)"

lemma mutate_htpasswd_data:
  assumes laws: "create_or_update_laws M A" and run: "mutate_htpasswd M R fresh password tc obj = Inr written" and x: "o_body x = o_body written"
  shows "if fresh then \<exists>hash. GenerateFromPassword R password = Inr hash \<and>
      secret_data x = sput ''htpasswd'' (RegistryAuthUsername @ '':'' @ hash @ newline) (secret_data obj)
    else secret_data x = secret_data obj"
proof -
  from run obtain owned where o: "SetOwnership M tc obj = Inr owned" by (auto simp: mutate_htpasswd_def split: sum.splits)
  from SetOwnership_body [OF laws o] have "secret_type_data owned = secret_type_data obj" by (simp add: secret_type_data_def)
  with run o x show ?thesis
    by (auto simp: mutate_htpasswd_def secret_data_def secret_type_data_def Let_def split: prod.splits sum.splits)
qed

lemma mutate_client_auth_data:
  assumes laws: "create_or_update_laws M A" and run: "mutate_client_auth M fresh password tc obj = Inr written" and x: "o_body x = o_body written"
  shows "secret_data x = (if fresh then sput DockerConfigJsonKey (buildDockerConfigJSON RegistryServiceHost RegistryAuthUsername password)
      (secret_data obj) else secret_data obj)"
proof -
  from run obtain owned where o: "SetOwnership M tc obj = Inr owned" by (auto simp: mutate_client_auth_def split: sum.splits)
  from SetOwnership_body [OF laws o] have "secret_type_data owned = secret_type_data obj" by (simp add: secret_type_data_def)
  with run o x show ?thesis
    by (auto simp: mutate_client_auth_def secret_data_def secret_type_data_def Let_def split: prod.splits)
qed

text \<open>The password of the client configuration can be read back: its \<open>auth\<close> entry decodes to user and password.\<close>

lemma StdEncoding_roundtrip: "DecodeBase64 std_alphabet (StdEncoding s) = bytes_of s"
  unfolding StdEncoding_def
  by (rule DecodeBase64_Encode) (use alphabets in \<open>auto simp: bytes_of_def\<close>)

definition credentials_written :: "'s api \<Rightarrow> registry_lib \<Rightarrow> kobj \<Rightarrow> 's \<Rightarrow> kobj \<Rightarrow> kobj \<Rightarrow> 's \<Rightarrow> kobj \<Rightarrow> bool" where
  "credentials_written A R h s h' c s' c' \<longleftrightarrow>
    (if \<not> hasSecretData h ''htpasswd'' \<or> \<not> hasSecretData c DockerConfigJsonKey
     then \<exists>password hash auth. generateRandomSecret R 24 = Inr password \<and> GenerateFromPassword R password = Inr hash \<and>
       map_of (secret_data h') ''htpasswd'' = Some (RegistryAuthUsername @ '':'' @ hash @ newline) \<and>
       map_of (secret_data c') DockerConfigJsonKey = Some (''{'' @ json_string ''auths'' @ '':{'' @ json_string RegistryServiceHost @ '':{'' @
         json_string ''auth'' @ '':'' @ json_string auth @ ''}}}'') \<and>
       DecodeBase64 std_alphabet auth = bytes_of (RegistryAuthUsername @ '':'' @ password)
     else secret_data h' = secret_data (stored_secret A h s) \<and> secret_data c' = secret_data (stored_secret A c s'))"

text \<open>
  (C26) The two credential Secrets of the registry go together. When \<open>ensureRegistryCredentials\<close> succeeds, it
  wrote exactly the htpasswd Secret and then the client Secret. If one of the two had no credentials when
  they were read, both were given the same fresh password: the htpasswd entry is its hash and the client
  configuration has an \<open>auth\<close> entry that decodes to it. Otherwise both were written with the data stored.
\<close>

theorem registry_credentials_in_sync:
  fixes A :: "'s api"
  assumes laws: "create_or_update_laws M A" and run: "ensureRegistryCredentials M A R tc w = (None, tc', w')"
  shows "\<exists>h w1 c w2 h' (w3 :: 's world) c'. get_registry_secret A HtpasswdSecretName w = (Inr h, w1) \<and>
    get_registry_secret A ClientCredentialsSecretName w1 = (Inr c, w2) \<and>
    events w3 = events w2 @ [ECreateOrUpdate h (Inr h')] \<and> events w' = events w3 @ [ECreateOrUpdate c (Inr c')] \<and>
    credentials_written A R h (cluster w2) h' c (cluster w3) c'"
proof -
  from run obtain h w1 c w2 password where reads: "get_registry_secret A HtpasswdSecretName w = (Inr h, w1)"
      "get_registry_secret A ClientCredentialsSecretName w1 = (Inr c, w2)"
    and pw: "(if must_rotate h c then generateRandomSecret R 24 else Inr []) = Inr password"
    and both: "write_credentials M A R h c (must_rotate h c) password tc w2 = (None, tc', w')"
    by (auto simp: ensureRegistryCredentials_def Let_def split: prod.splits sum.splits)
  from both obtain h' tc1 w3 c' where H: "CreateOrUpdate M A h (mutate_htpasswd M R (must_rotate h c) password tc) tc w2 = (Inr h', tc1, w3)"
    and C: "CreateOrUpdate M A c (mutate_client_auth M (must_rotate h c) password tc1) tc1 w3 = (Inr c', tc', w')"
    by (auto simp: write_credentials_def split: prod.splits sum.splits)
  from laws H obtain wh where h: "mutate_htpasswd M R (must_rotate h c) password tc (stored_secret A h (cluster w2)) = Inr wh"
      "o_body h' = o_body wh" and eh: "events w3 = events w2 @ [ECreateOrUpdate h (Inr h')]" by (rule CreateOrUpdate_secret)
  from laws C obtain wc where c: "mutate_client_auth M (must_rotate h c) password tc1 (stored_secret A c (cluster w3)) = Inr wc"
      "o_body c' = o_body wc" and ec: "events w' = events w3 @ [ECreateOrUpdate c (Inr c')]" by (rule CreateOrUpdate_secret)
  note datas = mutate_htpasswd_data [OF laws h] mutate_client_auth_data [OF laws c]
  have "credentials_written A R h (cluster w2) h' c (cluster w3) c'"
  proof (cases "must_rotate h c")
    case True
    with datas obtain hash where "GenerateFromPassword R password = Inr hash"
      "secret_data h' = sput ''htpasswd'' (RegistryAuthUsername @ '':'' @ hash @ newline) (secret_data (stored_secret A h (cluster w2)))" by auto
    moreover from datas True have "secret_data c' = sput DockerConfigJsonKey (buildDockerConfigJSON RegistryServiceHost RegistryAuthUsername password)
      (secret_data (stored_secret A c (cluster w3)))" by simp
    ultimately show ?thesis using True pw
      unfolding credentials_written_def must_rotate_def [symmetric] if_P [OF True]
      by (intro exI [of _ password] exI [of _ hash] exI [of _ "StdEncoding (RegistryAuthUsername @ '':'' @ password)"])
        (simp_all add: buildDockerConfigJSON_def StdEncoding_roundtrip)
  next
    case False
    with datas show ?thesis by (simp add: credentials_written_def must_rotate_def)
  qed
  with reads eh ec show ?thesis by blast
qed


text \<open>A cluster on which the laws hold, and the credentials after the first reconcile.\<close>

definition secret_api :: "kobj list api" where
  "secret_api = ref_api\<lparr> api_create_or_update := (\<lambda>obj f s. case f (stored_secret ref_api obj s) of
     Inl e \<Rightarrow> (Inl e, s)
   | Inr x \<Rightarrow> (Inr (x\<lparr> o_gvk := secretGVK \<rparr>), upsert_object (x\<lparr> o_gvk := secretGVK \<rparr>) s)) \<rparr>"

lemma secret_api_laws: "create_or_update_laws ref_machinery secret_api"
  by (auto simp: create_or_update_laws_def secret_api_def stored_secret_def ref_machinery_def split: sum.splits)

definition ex_registry_lib :: registry_lib where
  "ex_registry_lib = \<lparr> rand_Read = (\<lambda>n. Inr (replicate n 0)), GenerateFromPassword = (\<lambda>p. Inr (''hash of '' @ p)) \<rparr>"

definition ex_registry_client :: tracking_client where
  "ex_registry_client = component_client (internalregistry_component ref_machinery ref_api \<lparr> store_objects = [] \<rparr> ex_registry_lib)
     (new_object (konflux_gvk ''KonfluxInternalRegistry'') [] internalRegistryCRName (BKonfluxCR InternalRegistrySpec))"

lemma ref_SetOwnership: "ownership tc = Some cfg \<Longrightarrow> \<exists>owned. SetOwnership ref_machinery tc obj = Inr owned"
  by (simp add: SetOwnership_def Let_def ref_machinery_def)

lemma secret_api_CreateOrUpdate:
  assumes "\<And>obj. \<exists>x. f obj = Inr x"
  shows "\<exists>x w'. CreateOrUpdate M secret_api obj f tc w = (Inr x, track M x tc, w')"
proof -
  obtain x where "f (stored_secret ref_api obj (cluster w)) = Inr x" using assms by blast
  then show ?thesis by (simp add: CreateOrUpdate_def k_create_or_update_def secret_api_def)
qed

lemma ex_mutate:
  assumes "ownership tc = Some cfg"
  shows "\<exists>x. mutate_htpasswd ref_machinery ex_registry_lib b p tc obj = Inr x" "\<exists>x. mutate_client_auth ref_machinery b p tc obj = Inr x"
  using ref_SetOwnership [OF assms, of obj]
  by (auto simp: mutate_htpasswd_def mutate_client_auth_def Let_def ex_registry_lib_def split: prod.splits)

lemma ex_write_credentials:
  assumes "ownership tc = Some cfg"
  shows "\<exists>tc' w'. write_credentials ref_machinery secret_api ex_registry_lib h c b p tc w = (None, tc', w')"
proof -
  obtain x w1 where x: "CreateOrUpdate ref_machinery secret_api h (mutate_htpasswd ref_machinery ex_registry_lib b p tc) tc w =
      (Inr x, track ref_machinery x tc, w1)"
    using secret_api_CreateOrUpdate [of "mutate_htpasswd ref_machinery ex_registry_lib b p tc"] ex_mutate(1) [OF assms] by blast
  have "ownership (track ref_machinery x tc) = Some cfg" using assms by (simp add: track_def)
  with secret_api_CreateOrUpdate [of "mutate_client_auth ref_machinery b p (track ref_machinery x tc)"] ex_mutate(2) obtain y w2 where
    "CreateOrUpdate ref_machinery secret_api c (mutate_client_auth ref_machinery b p (track ref_machinery x tc)) (track ref_machinery x tc) w1 =
      (Inr y, track ref_machinery y (track ref_machinery x tc), w2)" by blast
  with x show ?thesis by (simp add: write_credentials_def)
qed

lemma ex_get_registry_secret:
  assumes "cluster w = []"
  shows "get_registry_secret secret_api n w = (Inr (registry_secret n), emit (EGet secretGVK RegistryNamespace n (Inl not_found)) [] w)"
  using assms by (simp add: get_registry_secret_def k_get_def secret_api_def ref_api_def not_found_def IgnoreNotFound_def IsNotFound_def)

theorem registry_credentials_in_sync_witness:
  "create_or_update_laws ref_machinery secret_api \<and>
   (\<exists>tc' w' s s' h' c'. ensureRegistryCredentials ref_machinery secret_api ex_registry_lib ex_registry_client (start []) = (None, tc', w') \<and>
     events w' = [EGet secretGVK RegistryNamespace HtpasswdSecretName (Inl not_found),
       EGet secretGVK RegistryNamespace ClientCredentialsSecretName (Inl not_found),
       ECreateOrUpdate (registry_secret HtpasswdSecretName) (Inr h'), ECreateOrUpdate (registry_secret ClientCredentialsSecretName) (Inr c')] \<and>
     credentials_written secret_api ex_registry_lib (registry_secret HtpasswdSecretName) s h' (registry_secret ClientCredentialsSecretName) s' c')"
proof -
  have "generateRandomSecret ex_registry_lib 24 = Inr (RawURLEncoding (replicate 24 0))"
    by (simp add: generateRandomSecret_def ex_registry_lib_def)
  moreover have "must_rotate (registry_secret HtpasswdSecretName) (registry_secret ClientCredentialsSecretName)"
    by (simp add: must_rotate_def hasSecretData_def registry_secret_def new_object_def go_get_def)
  moreover obtain cfg where "ownership ex_registry_client = Some cfg"
    by (simp add: ex_registry_client_def component_client_def NewClientWithOwnership_def)
  then have "\<exists>tc' w'. write_credentials ref_machinery secret_api ex_registry_lib h c b p ex_registry_client w = (None, tc', w')" for h c b p w
    by (rule ex_write_credentials)
  ultimately obtain tc' w' where run:
    "ensureRegistryCredentials ref_machinery secret_api ex_registry_lib ex_registry_client (start []) = (None, tc', w')"
    unfolding ensureRegistryCredentials_def by (simp add: ex_get_registry_secret start_def Let_def) blast
  from registry_credentials_in_sync [OF secret_api_laws run] obtain h w1 c w2 h' and w3 :: "kobj list world" and c' where
    r: "get_registry_secret secret_api HtpasswdSecretName (start []) = (Inr h, w1)"
      "get_registry_secret secret_api ClientCredentialsSecretName w1 = (Inr c, w2)"
    and e: "events w3 = events w2 @ [ECreateOrUpdate h (Inr h')]" "events w' = events w3 @ [ECreateOrUpdate c (Inr c')]"
    and g: "credentials_written secret_api ex_registry_lib h (cluster w2) h' c (cluster w3) c'" by blast
  from r have "h = registry_secret HtpasswdSecretName" "c = registry_secret ClientCredentialsSecretName"
    "events w2 = [EGet secretGVK RegistryNamespace HtpasswdSecretName (Inl not_found),
       EGet secretGVK RegistryNamespace ClientCredentialsSecretName (Inl not_found)]"
    by (auto simp: ex_get_registry_secret start_def)
  with run e g secret_api_laws show ?thesis by auto
qed
text \<open>
  The two writes are not atomic. When the htpasswd Secret is missing, it is rewritten with a fresh
  password; if the write of the client Secret then fails, the next reconcile finds credentials in both
  Secrets and keeps them, although the client still has the old password.
\<close>

definition conflict_api :: "kobj list api" where
  "conflict_api = secret_api\<lparr> api_create_or_update := (\<lambda>obj f s.
     if o_name obj = ClientCredentialsSecretName then (Inl (ApiError OtherError ''conflict''), s)
     else api_create_or_update secret_api obj f s) \<rparr>"

definition ex_client_secret :: kobj where
  "ex_client_secret = (registry_secret ClientCredentialsSecretName)\<lparr> o_gvk := secretGVK,
     o_body := BSecret ''kubernetes.io/dockerconfigjson'' [(DockerConfigJsonKey, ''old'')] \<rparr>"

definition ex_htpasswd_secret :: "string \<Rightarrow> kobj" where
  "ex_htpasswd_secret password = (case mutate_htpasswd ref_machinery ex_registry_lib True password ex_registry_client
     (registry_secret HtpasswdSecretName) of Inr x \<Rightarrow> x\<lparr> o_gvk := secretGVK \<rparr> | Inl e \<Rightarrow> registry_secret [])"

lemma ex_htpasswd_secret:
  "mutate_htpasswd ref_machinery ex_registry_lib True password ex_registry_client (registry_secret HtpasswdSecretName) =
     Inr ((ex_htpasswd_secret password)\<lparr> o_gvk := mk_gvk [] [] [] \<rparr>)"
  "o_name (ex_htpasswd_secret password) = HtpasswdSecretName" "o_namespace (ex_htpasswd_secret password) = RegistryNamespace"
  "o_gvk (ex_htpasswd_secret password) = secretGVK"
  "secret_data (ex_htpasswd_secret password) = [(''htpasswd'', ''konflux:hash of '' @ password @ newline)]"
  "hasSecretData (ex_htpasswd_secret password) ''htpasswd''"
  by (simp_all add: ex_htpasswd_secret_def mutate_htpasswd_def registry_secret_def new_object_def SetOwnership_def Let_def
      ref_machinery_def ex_registry_client_def component_client_def NewClientWithOwnership_def ex_registry_lib_def secret_type_data_def
      secret_data_def hasSecretData_def go_get_def)

lemma ex_client_secret:
  "o_name ex_client_secret = ClientCredentialsSecretName" "o_namespace ex_client_secret = RegistryNamespace" "o_gvk ex_client_secret = secretGVK"
  "secret_data ex_client_secret = [(DockerConfigJsonKey, ''old'')]" "hasSecretData ex_client_secret DockerConfigJsonKey"
  by (simp_all add: ex_client_secret_def registry_secret_def new_object_def secret_data_def secret_type_data_def hasSecretData_def go_get_def)

lemma registry_credentials_can_diverge:
  "\<exists>e tc1 w1. ensureRegistryCredentials ref_machinery conflict_api ex_registry_lib ex_registry_client (start [ex_client_secret]) = (Some e, tc1, w1) \<and>
    cluster w1 = [ex_client_secret, ex_htpasswd_secret (RawURLEncoding (replicate 24 0))] \<and>
    \<not> must_rotate (ex_htpasswd_secret (RawURLEncoding (replicate 24 0))) ex_client_secret"
proof -
  let ?w = "start [ex_client_secret]" and ?p = "RawURLEncoding (replicate 24 0)"
  let ?w1 = "emit (EGet secretGVK RegistryNamespace HtpasswdSecretName (Inl not_found)) [ex_client_secret] ?w"
  let ?w2 = "emit (EGet secretGVK RegistryNamespace ClientCredentialsSecretName (Inr ex_client_secret)) [ex_client_secret] ?w1"
  have 1: "get_registry_secret conflict_api HtpasswdSecretName ?w = (Inr (registry_secret HtpasswdSecretName), ?w1)"
    by (simp add: get_registry_secret_def k_get_def conflict_api_def secret_api_def ref_api_def start_def ex_client_secret not_found_def
        IgnoreNotFound_def IsNotFound_def)
  have 2: "get_registry_secret conflict_api ClientCredentialsSecretName ?w1 = (Inr ex_client_secret, ?w2)"
    by (simp add: get_registry_secret_def k_get_def conflict_api_def secret_api_def ref_api_def ex_client_secret)
  have 3: "must_rotate (registry_secret HtpasswdSecretName) ex_client_secret"
    by (simp add: must_rotate_def hasSecretData_def registry_secret_def new_object_def go_get_def)
  have 4: "generateRandomSecret ex_registry_lib 24 = Inr ?p"
    by (simp add: generateRandomSecret_def ex_registry_lib_def)
  have stored: "stored_secret ref_api (registry_secret HtpasswdSecretName) [ex_client_secret] = registry_secret HtpasswdSecretName"
    by (simp add: stored_secret_def ref_api_def ex_client_secret registry_secret_def new_object_def not_found_def)
  have 5: "CreateOrUpdate ref_machinery conflict_api (registry_secret HtpasswdSecretName)
      (mutate_htpasswd ref_machinery ex_registry_lib True ?p ex_registry_client) ex_registry_client ?w2 =
    (Inr (ex_htpasswd_secret ?p), track ref_machinery (ex_htpasswd_secret ?p) ex_registry_client,
     emit (ECreateOrUpdate (registry_secret HtpasswdSecretName) (Inr (ex_htpasswd_secret ?p))) [ex_client_secret, ex_htpasswd_secret ?p] ?w2)"
  proof -
    have same: "(ex_htpasswd_secret ?p)\<lparr> o_gvk := secretGVK \<rparr> = ex_htpasswd_secret ?p" using ex_htpasswd_secret(4) [of ?p] by (cases "ex_htpasswd_secret ?p") simp
    have name: "o_name (registry_secret HtpasswdSecretName) = HtpasswdSecretName" by (simp add: registry_secret_def new_object_def)
    show ?thesis
      by (simp add: same name CreateOrUpdate_def k_create_or_update_def conflict_api_def secret_api_def stored ex_htpasswd_secret ex_client_secret same_object_def)
  qed
  have 6: "CreateOrUpdate ref_machinery conflict_api ex_client_secret f tc w = (Inl (ApiError OtherError ''conflict''), tc,
      emit (ECreateOrUpdate ex_client_secret (Inl (ApiError OtherError ''conflict''))) (cluster w) w)" for f tc w
    by (simp add: CreateOrUpdate_def k_create_or_update_def conflict_api_def ex_client_secret)
  have 7: "\<not> must_rotate (ex_htpasswd_secret ?p) ex_client_secret"
    by (simp add: must_rotate_def ex_htpasswd_secret ex_client_secret)
  show ?thesis
    unfolding ensureRegistryCredentials_def write_credentials_def
    by (simp add: 1 2 3 4 5 6 7 Let_def)
qed
section \<open>Default tenant\<close>

abbreviation defaultTenantCRName :: string where "defaultTenantCRName \<equiv> ''konflux-default-tenant''"
abbreviation DefaultTenantNamespace :: string where "DefaultTenantNamespace \<equiv> ''default-tenant''"
abbreviation RegistryCredentialsSecretName :: string where "RegistryCredentialsSecretName \<equiv> ''regcred-internal-registry''"
abbreviation RegistrySourceSecretNamespace :: string where "RegistrySourceSecretNamespace \<equiv> RegistryNamespace"
abbreviation RegistrySourceSecretName :: string where "RegistrySourceSecretName \<equiv> ClientCredentialsSecretName"

definition defaulttenant_applyManifests :: "machinery \<Rightarrow> 's api \<Rightarrow> object_store \<Rightarrow> 's op" where
  "defaulttenant_applyManifests M A S =
     apply_manifests M A S DefaultTenant ''failed to get parsed manifests for DefaultTenant'' keep_all"

definition tenant_secret :: "kobj \<Rightarrow> kobj" where
  "tenant_secret source = (case secret_type_data source of (t, d) \<Rightarrow>
     new_object secretGVK DefaultTenantNamespace RegistryCredentialsSecretName (BSecret t d))"

definition syncInternalRegistryCredentialsSecret :: "machinery \<Rightarrow> 's api \<Rightarrow> tracking_client \<Rightarrow> 's world \<Rightarrow>
    ctrl_result result \<times> tracking_client \<times> 's world" where
  "syncInternalRegistryCredentialsSecret M A tc w =
     (case k_get A (konflux_gvk ''KonfluxInternalRegistry'') [] internalRegistryCRName w of
        (Inl e, w1) \<Rightarrow> (if IsNotFound e then Inr no_requeue
                       else Inl (Errorf (''get internal registry '' @ strconv_Quote internalRegistryCRName) e), tc, w1)
      | (Inr registry, w1) \<Rightarrow> (case k_get A secretGVK RegistrySourceSecretNamespace RegistrySourceSecretName w1 of
          (Inl e, w2) \<Rightarrow> (if IsNotFound e then Inr \<lparr> RequeueAfter = 10 * Second \<rparr>
                         else Inl (Errorf (''get source secret '' @ RegistrySourceSecretNamespace @ ''/'' @ RegistrySourceSecretName) e), tc, w2)
        | (Inr source, w2) \<Rightarrow> (case ApplyOwned M A (tenant_secret source) tc w2 of
            (Inl e, tc', w3) \<Rightarrow> (Inl (Errorf (''sync target secret '' @ DefaultTenantNamespace @ ''/'' @ RegistryCredentialsSecretName) e), tc', w3)
          | (Inr x, tc', w3) \<Rightarrow> (Inr no_requeue, tc', w3))))"

definition tenant_sync_phase :: "machinery \<Rightarrow> 's api \<Rightarrow> 's phase" where
  "tenant_sync_phase M A tc w = (case syncInternalRegistryCredentialsSecret M A tc w of
     (Inl e, tc', w') \<Rightarrow> (Inl (e, ReasonApplyFailed, ''apply manifests''), tc', w')
   | (Inr res, tc', w') \<Rightarrow> (Inr res, tc', w'))"

definition defaulttenant_apply :: "machinery \<Rightarrow> 's api \<Rightarrow> object_store \<Rightarrow> kobj \<Rightarrow> 's phase" where
  "defaulttenant_apply M A S cr =
     step_then (defaulttenant_applyManifests M A S) ReasonApplyFailed ''apply manifests'' (tenant_sync_phase M A)"

definition defaulttenant_component :: "machinery \<Rightarrow> 's api \<Rightarrow> object_store \<Rightarrow> 's component_def" where
  "defaulttenant_component M A S = \<lparr> cmp_gvk = konflux_gvk ''KonfluxDefaultTenant'', cmp_component = component_name DefaultTenant,
     cmp_fieldManager = ''konflux-defaulttenant-controller'', cmp_cleanupGVKs = [secretGVK], cmp_opts = [WithClusterScopedAllowList None],
     cmp_apply = defaulttenant_apply M A S,
     cmp_status = deployments_status M A \<rparr>"

text \<open>While the source Secret is awaited, the reconcile ends before cleanup and status.\<close>

definition defaulttenant_Reconcile :: "machinery \<Rightarrow> 's api \<Rightarrow> nat list \<Rightarrow> object_store \<Rightarrow> string \<Rightarrow> string \<Rightarrow> 's world \<Rightarrow> 's outcome" where
  "defaulttenant_Reconcile M A schedule S ns name w =
     (let K = defaulttenant_component M A S
      in case k_get A (cmp_gvk K) ns name w of
           (Inl e, w1) \<Rightarrow> \<lparr> out_result = no_requeue, out_err = IgnoreNotFound e, out_cr = None, out_world = w1 \<rparr>
         | (Inr cr, w1) \<Rightarrow> (case cmp_apply K cr (component_client K cr) w1 of
             (Inl (e, reason, operation), tc, w2) \<Rightarrow> HandleWithReason M A cr e reason operation w2
           | (Inr res, tc, w2) \<Rightarrow>
               if RequeueAfter res > 0 then \<lparr> out_result = res, out_err = None, out_cr = Some cr, out_world = w2 \<rparr>
               else finish_reconcile M A schedule K no_requeue cr tc w2))"

definition mapSourceSecretToDefaultTenant :: "'s api \<Rightarrow> kobj \<Rightarrow> 's world \<Rightarrow> string list \<times> 's world" where
  "mapSourceSecretToDefaultTenant A obj w =
     (if go_type (o_body obj) \<noteq> ''*v1.Secret'' then ([], w)
      else if o_namespace obj \<noteq> RegistrySourceSecretNamespace \<or> o_name obj \<noteq> RegistrySourceSecretName then ([], w)
      else (case k_get A (konflux_gvk ''KonfluxDefaultTenant'') [] defaultTenantCRName w of
          (Inl e, w') \<Rightarrow> ([], w')
        | (Inr dt, w') \<Rightarrow> ([defaultTenantCRName], w')))"

lemma sync_good:
  assumes run: "syncInternalRegistryCredentialsSecret M A tc w = (r, tc', w')"
  shows "good_step M (\<exists>x. r = Inr x) tc w tc' w'"
proof -
  obtain g w1 where g: "k_get A (konflux_gvk ''KonfluxInternalRegistry'') [] internalRegistryCRName w = (g, w1)" by fastforce
  obtain s w2 where s: "k_get A secretGVK RegistrySourceSecretNamespace RegistrySourceSecretName w1 = (s, w2)" by fastforce
  note one = good_step_quiet [OF quiet_calls(1) [OF g], of M _ tc]
  note two = good_step_trans [OF one good_step_quiet [OF quiet_calls(1) [OF s], of M _ tc]]
  show ?thesis
  proof (cases "\<exists>registry source. g = Inr registry \<and> s = Inr source")
    case True
    then obtain registry source where some: "g = Inr registry" "s = Inr source" by blast
    obtain a tc1 w3 where a: "ApplyOwned M A (tenant_secret source) tc w2 = (a, tc1, w3)" by (metis prod_cases3)
    from run g s some a have "tc' = tc1" "w' = w3" "(\<exists>x. r = Inr x) \<longleftrightarrow> (\<exists>x. a = Inr x)"
      by (auto simp: syncInternalRegistryCredentialsSecret_def split: sum.splits)
    with good_step_trans [OF two ApplyOwned_good [OF a]] show ?thesis by simp
  next
    case False
    with run g s have "tc' = tc \<and> (w' = w1 \<or> w' = w2)" by (auto simp: syncInternalRegistryCredentialsSecret_def split: sum.splits)
    with one two show ?thesis by auto
  qed
qed

lemma good_tenant_sync_phase [good_intros]: "good_phase M (tenant_sync_phase M A)"
  by (rule good_phaseI) (auto simp: tenant_sync_phase_def split: prod.splits sum.splits dest!: sync_good)

interpretation defaulttenant: service_reconciler M "defaulttenant_component M A S" A for M A S
proof (rule service_reconcilerI)
  show "good_phase M (cmp_apply (defaulttenant_component M A S) cr)" for cr
    unfolding defaulttenant_component_def defaulttenant_apply_def defaulttenant_applyManifests_def component_def.simps by (intro good_intros)
qed (simp add: defaulttenant_component_def)
text \<open>What a successful synchronisation did.\<close>

lemma sync_cases:
  assumes "syncInternalRegistryCredentialsSecret M A tc w = (Inr res, tc', w')"
  obtains e where "res = no_requeue" "IsNotFound e" "EGet (konflux_gvk ''KonfluxInternalRegistry'') [] internalRegistryCRName (Inl e) \<in> set (added w w')"
  | e where "res = \<lparr> RequeueAfter = 10 * Second \<rparr>" "IsNotFound e"
      "EGet secretGVK RegistrySourceSecretNamespace RegistrySourceSecretName (Inl e) \<in> set (added w w')"
  | source sent opts x where "res = no_requeue" "EGet secretGVK RegistrySourceSecretNamespace RegistrySourceSecretName (Inr source) \<in> set (added w w')"
      "SetOwnership M tc (tenant_secret source) = Inr sent" "EPatch SSAPatch opts sent (Inr x) \<in> set (added w w')"
proof -
  obtain g w1 where g: "k_get A (konflux_gvk ''KonfluxInternalRegistry'') [] internalRegistryCRName w = (g, w1)" by fastforce
  obtain s w2 where s: "k_get A secretGVK RegistrySourceSecretNamespace RegistrySourceSecretName w1 = (s, w2)" by fastforce
  note evs = k_call_events(1) [OF g] k_call_events(1) [OF s]
  show thesis
  proof (cases g)
    case (Inl e)
    with assms g evs that(1) [of e] show ?thesis
      by (auto simp: syncInternalRegistryCredentialsSecret_def addedI split: if_splits)
  next
    case (Inr registry)
    show ?thesis
    proof (cases s)
      case (Inl e)
      with assms g s Inr evs that(2) [of e] show ?thesis
        by (auto simp: syncInternalRegistryCredentialsSecret_def addedI split: if_splits)
    next
      case (Inr source)
      obtain a tc1 w3 where a: "ApplyOwned M A (tenant_secret source) tc w2 = (a, tc1, w3)" by (metis prod_cases3)
      from assms g s Inr \<open>g = Inr registry\<close> a obtain y where ok: "a = Inr y" "res = no_requeue" "w' = w3"
        by (auto simp: syncInternalRegistryCredentialsSecret_def split: sum.splits)
      from ok(1) show ?thesis
      proof (cases rule: ApplyOwned_trace [OF a])
        case (2 opts sent x)
        with ok evs Inr show ?thesis by (intro that(3) [of source sent opts y]) (auto simp: added_def)
      qed simp
    qed
  qed
qed

lemma Handle_extends: "extends w (out_world (Handle M A cr err reason operation w))"
  using Handle_events [of M A cr err reason operation w] by (auto intro: extendsI)

lemma finish_extends:
  assumes "cmp_status K = deployments_status M A"
  shows "extends w (out_world (finish_reconcile M A schedule K res cr tc w))"
proof -
  obtain c w1 where c: "CleanupOrphans M A schedule tc KonfluxOwnerLabel (o_name cr) (cmp_cleanupGVKs K) (cmp_opts K) w = (c, w1)" by fastforce
  obtain s w2 where s: "deployments_status M A res cr w1 = (s, w2)" by fastforce
  note w1 = emits_extends [OF CleanupOrphans_emits [OF c]]
  note w2 = extends_trans [OF w1 emits_extends [OF deployments_status_reads [OF s]]]
  show ?thesis
  proof (cases c)
    case (Some e)
    with c extends_trans [OF w1 Handle_extends] show ?thesis by (simp add: finish_reconcile_def HandleCleanupError_def)
  next
    case None
    then have "finish_reconcile M A schedule K res cr tc w = (case s of
        Inl (cr', e, reason, operation) \<Rightarrow> HandleWithReason M A cr' e reason operation w2
      | Inr (cr', res') \<Rightarrow> (case k_status_update A cr' w2 of
            (Inl e, w3) \<Rightarrow> \<lparr> out_result = no_requeue, out_err = Some e, out_cr = Some cr', out_world = w3 \<rparr>
          | (Inr cr'', w3) \<Rightarrow> \<lparr> out_result = res', out_err = None, out_cr = Some cr'', out_world = w3 \<rparr>))"
      using c s by (simp add: finish_reconcile_def assms split: sum.splits)
    with w2 extends_trans [OF w2 Handle_extends] show ?thesis
      by (auto simp: HandleWithReason_def split: sum.splits prod.splits dest!: k_call_extends(7) intro: extends_trans)
  qed
qed

lemma added_subset: "extends w w1 \<Longrightarrow> extends w1 w2 \<Longrightarrow> extends w2 w3 \<Longrightarrow> set (added w1 w2) \<subseteq> set (added w w3)"
  using added_trans [of w w1 w3] added_trans [of w1 w2 w3] extends_trans [of w1 w2 w3] by auto

lemma tenant_ran:
  assumes run: "defaulttenant_Reconcile M A schedule S ns name w = out" and ok: "out_err out = None" "out_cr out = Some cr'"
  obtains cr w1 tc1 wm res tc w2 where "k_get A (konflux_gvk ''KonfluxDefaultTenant'') ns name w = (Inr cr, w1)"
    "tracked_phase M (component_client (defaulttenant_component M A S) cr) w1 tc1 wm"
    "syncInternalRegistryCredentialsSecret M A tc1 wm = (Inr res, tc, w2)"
    "cmp_apply (defaulttenant_component M A S) cr (component_client (defaulttenant_component M A S) cr) w1 = (Inr res, tc, w2)"
    "out = (if RequeueAfter res > 0 then \<lparr> out_result = res, out_err = None, out_cr = Some cr, out_world = w2 \<rparr>
       else finish_reconcile M A schedule (defaulttenant_component M A S) no_requeue cr tc w2)"
proof -
  let ?K = "defaulttenant_component M A S"
  from run ok obtain cr w1 where g: "k_get A (cmp_gvk ?K) ns name w = (Inr cr, w1)"
    by (auto simp: defaulttenant_Reconcile_def Let_def split: prod.splits sum.splits)
  obtain r tc w2 where a: "cmp_apply ?K cr (component_client ?K cr) w1 = (r, tc, w2)" by (metis prod_cases3)
  from run g a ok(1) obtain res where r: "r = Inr res"
    by (cases r) (auto simp: defaulttenant_Reconcile_def Let_def HandleWithReason_def split: prod.splits)
  from a r obtain tc1 wm where m: "defaulttenant_applyManifests M A S (component_client ?K cr) w1 = (None, tc1, wm)"
    and s: "syncInternalRegistryCredentialsSecret M A tc1 wm = (Inr res, tc, w2)"
    by (auto simp: defaulttenant_component_def defaulttenant_apply_def step_then_def tenant_sync_phase_def split: prod.splits option.splits sum.splits)
  show thesis
  proof (rule that [OF _ _ s])
    show "k_get A (konflux_gvk ''KonfluxDefaultTenant'') ns name w = (Inr cr, w1)" using g by (simp add: defaulttenant_component_def)
    show "tracked_phase M (component_client ?K cr) w1 tc1 wm"
      using m unfolding defaulttenant_applyManifests_def by (rule apply_manifests_phase)
    show "cmp_apply ?K cr (component_client ?K cr) w1 = (Inr res, tc, w2)" using a r by simp
    show "out = (if RequeueAfter res > 0 then \<lparr> out_result = res, out_err = None, out_cr = Some cr, out_world = w2 \<rparr>
       else finish_reconcile M A schedule ?K no_requeue cr tc w2)"
      using run g a r by (simp add: defaulttenant_Reconcile_def Let_def)
  qed
qed

definition ex_tenant_cluster :: "kobj list" where
  "ex_tenant_cluster = [new_object (konflux_gvk ''KonfluxDefaultTenant'') [] defaultTenantCRName (BKonfluxCR DefaultTenantSpec),
     new_object (konflux_gvk ''KonfluxInternalRegistry'') [] internalRegistryCRName (BKonfluxCR InternalRegistrySpec)]"

definition ex_tenant_run :: "kobj list outcome" where
  "ex_tenant_run = defaulttenant_Reconcile ref_machinery ref_api [] \<lparr> store_objects = [(DefaultTenant, [])] \<rparr> [] defaultTenantCRName
     (start ex_tenant_cluster)"

lemma ex_tenant_run: "out_err ex_tenant_run = None" "\<exists>cr. out_cr ex_tenant_run = Some cr" 
  "added (start ex_tenant_cluster) (out_world ex_tenant_run) =
     [EGet (konflux_gvk ''KonfluxDefaultTenant'') [] defaultTenantCRName (Inr (ex_tenant_cluster ! 0)),
      EGet (konflux_gvk ''KonfluxInternalRegistry'') [] internalRegistryCRName (Inr (ex_tenant_cluster ! 1)),
      EGet secretGVK RegistrySourceSecretNamespace RegistrySourceSecretName (Inl not_found)]"
  by (simp_all add: ex_tenant_run_def defaulttenant_Reconcile_def Let_def defaulttenant_component_def defaulttenant_apply_def step_then_def
      defaulttenant_applyManifests_def apply_manifests_def GetForComponent_def deepCopyObjects_def tenant_sync_phase_def
      syncInternalRegistryCredentialsSecret_def k_get_def ref_api_def start_def ex_tenant_cluster_def new_object_def konflux_gvk_def mk_gvk_def
      secretGVK_def not_found_def IsNotFound_def added_def)


end
