(* ===== verification/Ui_Endpoint.thy ===== *)
theory Ui_Endpoint
  imports Side_Services
begin

text \<open>
  Where the user interface is reached, and what is derived from it: \<open>pkg/ingress\<close> (the endpoint URL and the
  Ingress), \<open>pkg/consolelink\<close>, \<open>pkg/dex\<close> (the configuration of the identity provider) and \<open>pkg/oauth2proxy\<close>
  (the environment of the proxy). The endpoint URLs have a scheme and a host only; the methods of \<open>url.URL\<close>
  on them are modelled.
\<close>

section \<open>URLs with a host\<close>

text \<open>\<open>URL.String\<close> percent-encodes the bytes of the host that \<open>net/url\<close> does not allow there.\<close>

definition host_plain :: "char \<Rightarrow> bool" where
  "host_plain c \<longleftrightarrow> c \<in> set ''ABCDEFGHIJKLMNOPQRSTUVWXYZabcdefghijklmnopqrstuvwxyz0123456789-_.~!$&()*+,;=:[]<>'' \<or> c = CHR 0x27 \<or> c = CHR 0x22"

definition escape_host :: "string \<Rightarrow> string" where
  "escape_host s = concat (map (\<lambda>c. if host_plain c then [c] else
     [CHR ''%'', ''0123456789ABCDEF'' ! (of_char c div 16), ''0123456789ABCDEF'' ! (of_char c mod 16)]) s)"

definition URL_String :: "url \<Rightarrow> string" where
  "URL_String u = Scheme u @ (if Host u = [] then '':'' else ''://'' @ escape_host (Host u))"

text \<open>\<open>u.JoinPath(p).String()\<close> for a URL without path and a clean absolute path \<open>p\<close>, as all callers pass.\<close>

definition join_url :: "url \<Rightarrow> string \<Rightarrow> string" where
  "join_url u p = URL_String u @ p"

definition https :: "string \<Rightarrow> url" where
  "https host = \<lparr> Scheme = ''https'', Host = host \<rparr>"

text \<open>\<open>Hostname\<close> and \<open>Port\<close> split the host at its last colon if only digits follow, and drop the brackets of an IPv6 literal.\<close>

definition splitHostPort :: "string \<Rightarrow> string \<times> string" where
  "splitHostPort hostPort =
     (let port = rev (takeWhile (\<lambda>c. c \<noteq> CHR '':'') (rev hostPort));
          (host, p) = (if CHR '':'' \<in> set hostPort \<and> set port \<subseteq> set ''0123456789''
                       then (take (length hostPort - length port - 1) hostPort, port) else (hostPort, []));
          host' = (if HasPrefix host ''['' \<and> HasSuffix host '']'' then butlast (tl host) else host)
      in (host', p))"

definition Hostname :: "url \<Rightarrow> string" where
  "Hostname u = fst (splitHostPort (Host u))"

definition Port :: "url \<Rightarrow> string" where
  "Port u = snd (splitHostPort (Host u))"

section \<open>The endpoint and the Ingress\<close>

abbreviation IngressName :: string where "IngressName \<equiv> ''konflux-ui''"
abbreviation ProxyServiceName :: string where "ProxyServiceName \<equiv> ''proxy''"
abbreviation ProxyServicePort :: string where "ProxyServicePort \<equiv> ''web-tls''"
abbreviation DefaultProxyHostname :: string where "DefaultProxyHostname \<equiv> ''localhost''"
abbreviation DefaultProxyPort :: string where "DefaultProxyPort \<equiv> ''9443''"

definition ErrFQDNPortWithManagedIngress :: go_error where
  "ErrFQDNPortWithManagedIngress =
     NewError ''ingress.fqdn must not include a port when ingress is enabled; remove :port or set ingress.enabled=false''"

record ingress_config =
  icfg_Name :: string
  icfg_Namespace :: string
  icfg_Hostname :: string
  icfg_ServiceName :: string
  icfg_ServicePort :: string
  icfg_Path :: string
  icfg_IngressClassName :: "string option"
  icfg_Annotations :: smap
  icfg_TLSSecretName :: string

definition ingressGVK :: gvk where
  "ingressGVK = mk_gvk ''networking.k8s.io'' ''v1'' ''Ingress''"

definition ingress_rule :: "ingress_config \<Rightarrow> json" where
  "ingress_rule cfg = JObject [(''host'', JString (icfg_Hostname cfg)),
     (''http'', JObject [(''paths'', JArray [JObject [(''path'', JString (icfg_Path cfg)), (''pathType'', JString ''Prefix''),
        (''backend'', JObject [(''service'', JObject [(''name'', JString (icfg_ServiceName cfg)),
           (''port'', JObject [(''name'', JString (icfg_ServicePort cfg))])])])]])])]"

definition ingress_Build :: "ingress_config \<Rightarrow> kobj" where
  "ingress_Build cfg =
     (let annotations = fold (\<lambda>(k, v). sput k v) (icfg_Annotations cfg)
            [(''route.openshift.io/destination-ca-certificate-secret'', ''ui-ca''), (''route.openshift.io/termination'', ''reencrypt'')];
          spec = (case icfg_IngressClassName cfg of None \<Rightarrow> [] | Some c \<Rightarrow> [(''ingressClassName'', JString c)]) @
            [(''rules'', JArray [ingress_rule cfg])] @
            (if icfg_TLSSecretName cfg \<noteq> []
             then [(''tls'', JArray [JObject [(''hosts'', JArray [JString (icfg_Hostname cfg)]), (''secretName'', JString (icfg_TLSSecretName cfg))]])]
             else [])
      in (new_object ingressGVK (icfg_Namespace cfg) (icfg_Name cfg) (BOther ''*v1.Ingress'' (JObject [(''spec'', JObject spec)])))
           \<lparr> o_annotations := annotations \<rparr>)"

definition BuildForUI :: "ui_config_spec \<Rightarrow> string \<Rightarrow> string \<Rightarrow> kobj" where
  "BuildForUI ui namespace hostname = ingress_Build
     \<lparr> icfg_Name = IngressName, icfg_Namespace = namespace, icfg_Hostname = hostname, icfg_ServiceName = ProxyServiceName,
       icfg_ServicePort = ProxyServicePort, icfg_Path = ''/'', icfg_IngressClassName = ingressClassName (GetIngress ui),
       icfg_Annotations = ing_annotations (GetIngress ui), icfg_TLSSecretName = tlsSecretName (GetIngress ui) \<rparr>"

text \<open>\<open>unstructured.NestedString\<close>: an absent field (or a null on the way) is not found, another type is an error.\<close>

fun NestedString :: "json \<Rightarrow> string list \<Rightarrow> string option result" where
  "NestedString j [] = (case j of JString s \<Rightarrow> Inr (Some s) | _ \<Rightarrow> Inl (NewError ''accessor error''))"
| "NestedString j (f # fs) = (case j of
     JObject m \<Rightarrow> (case map_of m f of None \<Rightarrow> Inr None | Some v \<Rightarrow> NestedString v fs)
   | JNull \<Rightarrow> Inr None
   | _ \<Rightarrow> Inl (NewError ''accessor error''))"

definition GetOpenShiftIngressDomain :: "'s api \<Rightarrow> 's world \<Rightarrow> string result \<times> 's world" where
  "GetOpenShiftIngressDomain A w = (case k_get A (mk_gvk ''config.openshift.io'' ''v1'' ''Ingress'') [] ''cluster'' w of
     (Inl e, w') \<Rightarrow> (Inl (Errorf ''failed to get OpenShift Ingress config'' e), w')
   | (Inr obj, w') \<Rightarrow> (case NestedString (case o_body obj of BUnstructured j \<Rightarrow> j | _ \<Rightarrow> JObject []) [''spec'', ''domain''] of
       Inl e \<Rightarrow> (Inl (Errorf ''failed to extract domain from Ingress config'' e), w')
     | Inr None \<Rightarrow> (Inl (NewError ''domain not found in OpenShift Ingress config''), w')
     | Inr (Some domain) \<Rightarrow>
         (if domain = [] then Inl (NewError ''domain not found in OpenShift Ingress config'') else Inr domain, w')))"

definition ptr_Deref :: "'a option \<Rightarrow> 'a \<Rightarrow> 'a" where
  "ptr_Deref p d = (case p of None \<Rightarrow> d | Some x \<Rightarrow> x)"

definition DetermineEndpointURL :: "'s api \<Rightarrow> ui_config_spec \<Rightarrow> string \<Rightarrow> cluster_info option \<Rightarrow> 's world \<Rightarrow> url result \<times> 's world" where
  "DetermineEndpointURL A ui namespace ci w =
     (let ingressSpec = GetIngress ui;
          isOnOpenShift = on_openshift ci;
          ingressEnabled = ptr_Deref (ing_enabled ingressSpec) isOnOpenShift;
          with_domain = (\<lambda>name. case GetOpenShiftIngressDomain A w of
              (Inl e, w') \<Rightarrow> (Inl (Errorf ''failed to get OpenShift ingress domain'' e), w')
            | (Inr domain, w') \<Rightarrow> (Inr (https (name @ ''.'' @ domain)), w'))
      in if ing_fqdn ingressSpec \<noteq> []
         then (if Port (https (ing_fqdn ingressSpec)) \<noteq> [] \<and> ingressEnabled then Inl ErrFQDNPortWithManagedIngress
               else Inr (https (ing_fqdn ingressSpec)), w)
         else if ing_hostname ingressSpec \<noteq> [] \<and> isOnOpenShift then with_domain (ing_hostname ingressSpec)
         else if \<not> ingressEnabled then (Inr (https (DefaultProxyHostname @ '':'' @ DefaultProxyPort)), w)
         else if isOnOpenShift then with_domain (IngressName @ ''-'' @ namespace)
         else (Inr (https (DefaultProxyHostname @ '':'' @ DefaultProxyPort)), w))"

definition consolelink_Build :: "string \<Rightarrow> url \<Rightarrow> kobj" where
  "consolelink_Build konfluxLogoBase64 endpoint =
     new_object (mk_gvk ''console.openshift.io'' ''v1'' ''ConsoleLink'') [] ''konflux'' (BOther ''*v1.ConsoleLink'' (JObject [(''spec'', JObject
       [(''href'', JString (URL_String endpoint)), (''text'', JString ''Konflux Console''), (''location'', JString ''ApplicationMenu''),
        (''applicationMenu'', JObject [(''section'', JString ''Konflux''),
           (''imageURL'', JString (''data:image/svg+xml;base64,'' @ TrimSpace konfluxLogoBase64))])])]))"
section \<open>Dex\<close>

text \<open>
  The fields of \<open>dex.Client\<close> and \<open>dex.Config\<close> that \<open>NewDexConfig\<close> sets; all others keep their zero value and are
  left out of the YAML.
\<close>

record dex_client =
  cl_id :: string
  cl_secretEnv :: string
  cl_name :: string
  cl_redirectURIs :: "string list"

record dex_config =
  dc_issuer :: string
  dc_storage :: json
  dc_web :: json
  dc_telemetry :: json
  dc_skipApprovalScreen :: bool
  dc_passwordConnector :: string
  dc_connectors :: "dex_connector list"
  dc_staticClients :: "dex_client list"
  dc_enablePasswordDB :: bool
  dc_staticPasswords :: "json list"

definition DexParams :: dex_params where
  "DexParams = \<lparr> dex_hostname = [], dex_port = [], dex_connectors = [], dex_enablePasswordDB = None, dex_staticPasswords = [],
     dex_passwordConnector = [], configureLoginWithOpenShift = None \<rparr>"

definition default_redirect :: "string \<Rightarrow> dex_connector \<Rightarrow> dex_connector" where
  "default_redirect uri c = (case dcon_config c of
     Some cfg \<Rightarrow> if redirectURI cfg = [] then c\<lparr> dcon_config := Some (cfg\<lparr> redirectURI := uri \<rparr>) \<rparr> else c
   | None \<Rightarrow> c)"

definition openShiftConnector :: "string \<Rightarrow> dex_connector" where
  "openShiftConnector uri = \<lparr> dcon_type = ''openshift'', dcon_id = ''openshift'', dcon_name = ''OpenShift'',
     dcon_config = Some \<lparr> clientID = ''$OPENSHIFT_OAUTH_CLIENT_ID'', clientSecret = ''$OPENSHIFT_OAUTH_CLIENT_SECRET'', redirectURI = uri,
       dcc_issuer = ''https://kubernetes.default.svc'', rootCA = ''/var/run/secrets/kubernetes.io/serviceaccount/ca.crt'', dcc_rest = JNull \<rparr> \<rparr>"

definition NewDexConfig :: "url \<Rightarrow> dex_params \<Rightarrow> dex_config" where
  "NewDexConfig endpoint params =
     (let baseURL = URL_String endpoint;
          defaultRedirectURI = baseURL @ ''/idp/callback'';
          connectors = map (default_redirect defaultRedirectURI) (dex_connectors params) @
            (if ptr_Deref (configureLoginWithOpenShift params) False then [openShiftConnector defaultRedirectURI] else [])
      in \<lparr> dc_issuer = baseURL @ ''/idp/'',
           dc_storage = JObject [(''type'', JString ''kubernetes''), (''config'', JObject [(''inCluster'', JBool True)])],
           dc_web = JObject [(''https'', JString ''0.0.0.0:9443''), (''tlsCert'', JString ''/etc/dex/tls/tls.crt''),
             (''tlsKey'', JString ''/etc/dex/tls/tls.key'')],
           dc_telemetry = JObject [(''http'', JString ''0.0.0.0:5558'')],
           dc_skipApprovalScreen = True,
           dc_passwordConnector = dex_passwordConnector params,
           dc_connectors = connectors,
           dc_staticClients = [\<lparr> cl_id = ''oauth2-proxy'', cl_secretEnv = ''CLIENT_SECRET'', cl_name = ''oauth2-proxy'',
             cl_redirectURIs = [baseURL @ ''/oauth2/callback''] \<rparr>],
           dc_enablePasswordDB = ptr_Deref (dex_enablePasswordDB params) (connectors = []),
           dc_staticPasswords = dex_staticPasswords params \<rparr>)"

definition isOpenShiftLoginEnabled :: "ui_config_spec \<Rightarrow> cluster_info option \<Rightarrow> bool" where
  "isOpenShiftLoginEnabled ui ci \<longleftrightarrow> on_openshift ci \<and> ptr_Deref (GetOpenShiftLoginPreference ui) True"

text \<open>The part of \<open>reconcileDexConfigMap\<close> that builds the configuration.\<close>

definition ui_dex_config :: "ui_config_spec \<Rightarrow> cluster_info option \<Rightarrow> url \<Rightarrow> dex_config" where
  "ui_dex_config ui ci endpoint =
     (let openShiftLoginEnabled = isOpenShiftLoginEnabled ui ci;
          effectiveEndpoint = ResolveDexEndpoint ui endpoint
      in NewDexConfig effectiveEndpoint
           ((case dd_config (GetDex ui) of Some params \<Rightarrow> params | None \<Rightarrow> DexParams)
              \<lparr> configureLoginWithOpenShift := Some openShiftLoginEnabled \<rparr>))"

section \<open>oauth2-proxy\<close>

definition dexInternalURL :: url where
  "dexInternalURL = https ''dex.konflux-ui.svc.cluster.local:9443''"

definition WithProvider :: container_option where
  "WithProvider = WithEnv [EnvVar ''OAUTH2_PROXY_PROVIDER'' ''oidc'', EnvVar ''OAUTH2_PROXY_PROVIDER_DISPLAY_NAME'' ''Dex OIDC'',
     EnvVar ''OAUTH2_PROXY_CLIENT_ID'' ''oauth2-proxy'', EnvVar ''OAUTH2_PROXY_HTTP_ADDRESS'' ''127.0.0.1:6000'',
     EnvVar ''OAUTH2_PROXY_SKIP_PROVIDER_BUTTON'' ''true'', EnvVar ''OAUTH2_PROXY_PROMPT'' ''login'']"

definition WithOIDCURLs :: "url \<Rightarrow> container_option" where
  "WithOIDCURLs endpoint = WithEnv [EnvVar ''OAUTH2_PROXY_REDIRECT_URL'' (join_url endpoint ''/oauth2/callback''),
     EnvVar ''OAUTH2_PROXY_OIDC_ISSUER_URL'' (join_url endpoint ''/idp/''), EnvVar ''OAUTH2_PROXY_LOGIN_URL'' (join_url endpoint ''/idp/auth'')]"

definition WithInternalDexURLs :: container_option where
  "WithInternalDexURLs = WithEnv [EnvVar ''OAUTH2_PROXY_SKIP_OIDC_DISCOVERY'' ''true'',
     EnvVar ''OAUTH2_PROXY_REDEEM_URL'' (join_url dexInternalURL ''/idp/token''),
     EnvVar ''OAUTH2_PROXY_OIDC_JWKS_URL'' (join_url dexInternalURL ''/idp/keys'')]"

definition WithCookieConfig :: container_option where
  "WithCookieConfig = WithEnv [EnvVar ''OAUTH2_PROXY_COOKIE_SECURE'' ''true'', EnvVar ''OAUTH2_PROXY_COOKIE_NAME'' ''__Host-konflux-ci-cookie'']"

definition WithAuthSettings :: container_option where
  "WithAuthSettings = WithEnv [EnvVar ''OAUTH2_PROXY_EMAIL_DOMAINS'' ''*'', EnvVar ''OAUTH2_PROXY_SET_XAUTHREQUEST'' ''true'',
     EnvVar ''OAUTH2_PROXY_SKIP_JWT_BEARER_TOKENS'' ''true'', EnvVar ''OAUTH2_PROXY_SCOPE'' ''openid email profile groups'']"

definition WithCABundle :: container_option where
  "WithCABundle c ctx = WithEnv [EnvVar ''OAUTH2_PROXY_PROVIDER_CA_FILES'' ''/etc/ssl/certs/ca-bundle.crt'']
     (WithVolumeMounts [JObject [(''name'', JString ''ca-bundle''), (''mountPath'', JString ''/etc/ssl/certs''), (''readOnly'', JBool True)]] c ctx) ctx"

definition WithAllowUnverifiedEmail :: container_option where
  "WithAllowUnverifiedEmail = WithEnv [EnvVar ''OAUTH2_PROXY_INSECURE_OIDC_ALLOW_UNVERIFIED_EMAIL'' ''true'']"

definition WithWhitelistDomain :: "url \<Rightarrow> container_option" where
  "WithWhitelistDomain endpoint = WithEnv [EnvVar ''OAUTH2_PROXY_WHITELIST_DOMAINS'' (Host endpoint)]"

definition buildOAuth2ProxyOptions :: "url \<Rightarrow> bool \<Rightarrow> container_option list" where
  "buildOAuth2ProxyOptions endpoint openShiftLoginEnabled =
     [WithProvider, WithOIDCURLs endpoint, WithInternalDexURLs, WithCookieConfig, WithAuthSettings, WithCABundle, WithWhitelistDomain endpoint] @
     (if openShiftLoginEnabled then [WithAllowUnverifiedEmail] else [])"
section \<open>The Ingress host is the endpoint\<close>

text \<open>The schema of the resource: a DNS name, optionally with a port of up to five digits.\<close>

definition dns_chars :: string where
  "dns_chars = ''ABCDEFGHIJKLMNOPQRSTUVWXYZabcdefghijklmnopqrstuvwxyz0123456789.-''"

definition is_fqdn :: "string \<Rightarrow> bool" where
  "is_fqdn s = (let host = takeWhile (\<lambda>c. c \<noteq> CHR '':'') s; rest = dropWhile (\<lambda>c. c \<noteq> CHR '':'') s;
       outer = butlast (butlast dns_chars)
     in host \<noteq> [] \<and> hd host \<in> set outer \<and> last host \<in> set outer \<and> set host \<subseteq> set dns_chars \<and>
        (rest = [] \<or> tl rest \<noteq> [] \<and> length (tl rest) \<le> 5 \<and> set (tl rest) \<subseteq> set ''0123456789''))"

lemma dns_chars_special: "CHR '':'' \<notin> set dns_chars" "CHR ''['' \<notin> set dns_chars"
  by (simp_all add: dns_chars_def)

lemma splitHostPort_dns: "set h \<subseteq> set dns_chars \<Longrightarrow> splitHostPort h = (h, [])"
proof -
  assume h: "set h \<subseteq> set dns_chars"
  then have "CHR '':'' \<notin> set h" using dns_chars_special by blast
  moreover have "\<not> HasPrefix h ''[''" using h dns_chars_special(2) by (cases h) (auto simp: HasPrefix_def)
  ultimately show ?thesis by (simp add: splitHostPort_def Let_def)
qed

lemma splitHostPort_port:
  assumes "CHR '':'' \<notin> set port" and "set port \<subseteq> set ''0123456789''"
  shows "snd (splitHostPort (host @ CHR '':'' # port)) = port"
proof -
  have "takeWhile (\<lambda>c. c \<noteq> CHR '':'') (rev (host @ CHR '':'' # port)) = rev port"
    using assms(1) by (auto simp: takeWhile_tail)
  then show ?thesis using assms(2) by (simp add: splitHostPort_def Let_def)
qed

lemma is_fqdn_no_port:
  assumes "is_fqdn s" and "Port (https s) = []"
  shows "set s \<subseteq> set dns_chars"
proof (cases "dropWhile (\<lambda>c. c \<noteq> CHR '':'') s")
  case Nil
  then have "takeWhile (\<lambda>c. c \<noteq> CHR '':'') s = s" using takeWhile_dropWhile_id [of "\<lambda>c. c \<noteq> CHR '':''" s] by simp
  with assms(1) show ?thesis by (simp add: is_fqdn_def Let_def)
next
  case (Cons c port)
  then have c: "c = CHR '':''" using hd_dropWhile [of "\<lambda>c. c \<noteq> CHR '':''" s] by simp
  with Cons have "s = takeWhile (\<lambda>c. c \<noteq> CHR '':'') s @ CHR '':'' # port" using takeWhile_dropWhile_id [of "\<lambda>c. c \<noteq> CHR '':''" s] by simp
  moreover from assms(1) Cons have "port \<noteq> []" "set port \<subseteq> set ''0123456789''" by (auto simp: is_fqdn_def Let_def)
  moreover from this have "CHR '':'' \<notin> set port" by auto
  ultimately have "Port (https s) = port" using splitHostPort_port by (metis Port_def https_def url.select_convs(2))
  with assms(2) \<open>port \<noteq> []\<close> show ?thesis by simp
qed


definition ex_ui :: "string \<Rightarrow> ui_config_spec" where
  "ex_ui fqdn = UIConfigSpec\<lparr> ui_ingress := Some (IngressSpec\<lparr> ing_enabled := Some True, ing_fqdn := fqdn \<rparr>) \<rparr>"


section \<open>The login flow\<close>

text \<open>
  (C29) The proxy and the identity provider agree exactly when they have the same base URL. Whatever the
  dex parameters, the redirect URL that oauth2-proxy is configured with is one that dex accepts for its
  client, and the issuer it expects is dex's issuer, if and only if the endpoint dex resolves is the
  endpoint of the user interface; this is the case when no dex host name is configured.
\<close>

theorem oauth2_login_matches_dex:
  "((\<forall>v. EnvVar ''OAUTH2_PROXY_REDIRECT_URL'' v \<in> set (c_env (NewContainerOverlay ctx (buildOAuth2ProxyOptions endpoint login))) \<longrightarrow>
       (\<exists>client \<in> set (dc_staticClients (ui_dex_config ui ci endpoint)). cl_id client = ''oauth2-proxy'' \<and> v \<in> set (cl_redirectURIs client))) \<longleftrightarrow>
     URL_String (ResolveDexEndpoint ui endpoint) = URL_String endpoint) \<and>
   ((\<forall>v. EnvVar ''OAUTH2_PROXY_OIDC_ISSUER_URL'' v \<in> set (c_env (NewContainerOverlay ctx (buildOAuth2ProxyOptions endpoint login))) \<longrightarrow>
       v = dc_issuer (ui_dex_config ui ci endpoint)) \<longleftrightarrow>
     URL_String (ResolveDexEndpoint ui endpoint) = URL_String endpoint) \<and>
   ((\<forall>c. dd_config (GetDex ui) = Some c \<longrightarrow> dex_hostname c = []) \<longrightarrow> ResolveDexEndpoint ui endpoint = endpoint)"
proof -
  let ?env = "c_env (NewContainerOverlay ctx (buildOAuth2ProxyOptions endpoint login))"
  have "EnvVar ''OAUTH2_PROXY_REDIRECT_URL'' v \<in> set ?env \<longleftrightarrow> v = join_url endpoint ''/oauth2/callback''"
    "EnvVar ''OAUTH2_PROXY_OIDC_ISSUER_URL'' v \<in> set ?env \<longleftrightarrow> v = join_url endpoint ''/idp/''" for v
    by (auto simp: buildOAuth2ProxyOptions_def NewContainerOverlay_def WithProvider_def WithOIDCURLs_def WithInternalDexURLs_def WithCookieConfig_def
        WithAuthSettings_def WithCABundle_def WithWhitelistDomain_def WithAllowUnverifiedEmail_def WithEnv_def WithVolumeMounts_def EnvVar_def Container_def)
  then show ?thesis
    by (auto simp: ui_dex_config_def NewDexConfig_def Let_def join_url_def ResolveDexEndpoint_def split: option.splits)
qed

theorem oauth2_login_matches_dex_witness:
  "dd_config (GetDex UIConfigSpec) = None \<and> ResolveDexEndpoint UIConfigSpec (https ''ui.example.com'') = https ''ui.example.com''"
  using oauth2_login_matches_dex [of "\<lparr> Replicas = 1 \<rparr>" "https ''ui.example.com''" False UIConfigSpec None]
  by (simp add: UIConfigSpec_def GetDex_def)

text \<open>
  With a host name of its own, as the parameters allow, dex registers a redirect URI under that host, which is
  not the one the proxy sends.
\<close>

lemma dex_hostname_breaks_redirect:
  fixes ui :: ui_config_spec
  defines "ui \<equiv> UIConfigSpec\<lparr> ui_dex := Some \<lparr> dd_replicas = 1, dd_dex = None, dd_config = Some (DexParams\<lparr> dex_hostname := ''dex.example.com'' \<rparr>) \<rparr> \<rparr>"
  shows "cl_redirectURIs (hd (dc_staticClients (ui_dex_config ui None (https ''ui.example.com'')))) = [''https://dex.example.com/oauth2/callback''] \<and>
    join_url (https ''ui.example.com'') ''/oauth2/callback'' = ''https://ui.example.com/oauth2/callback''"
  by (simp add: ui_def ui_dex_config_def NewDexConfig_def Let_def ResolveDexEndpoint_def GetDex_def UIConfigSpec_def DexParams_def URL_String_def
      join_url_def https_def escape_host_def host_plain_def)

end
