(* ===== verification/User_Interface.thy ===== *)
theory User_Interface
  imports Ui_Endpoint
begin

text \<open>
  The controller of the user interface (\<open>internal/controller/ui\<close>): namespace, endpoint, dex
  configuration, Segment Secret, customised manifests, Ingress and ConsoleLink, login secrets, cleanup and
  status. The endpoint is determined in the apply phase and reported in the status, so \<open>ui_Reconcile\<close> is
  defined on its own; it is the \<open>component_reconcile\<close> of \<open>ui_component\<close> at the endpoint determined.
\<close>

abbreviation uiCRName :: string where "uiCRName \<equiv> ''konflux-ui''"
abbreviation uiNamespace :: string where "uiNamespace \<equiv> ''konflux-ui''"
abbreviation proxyDeploymentName :: string where "proxyDeploymentName \<equiv> ''proxy''"
abbreviation dexDeploymentName :: string where "dexDeploymentName \<equiv> ''dex''"
abbreviation proxyServiceName :: string where "proxyServiceName \<equiv> ''proxy''"
abbreviation dexServiceAccountName :: string where "dexServiceAccountName \<equiv> ''dex''"
abbreviation reverseProxyContainerName :: string where "reverseProxyContainerName \<equiv> ''reverse-proxy''"
abbreviation oauth2ProxyContainerName :: string where "oauth2ProxyContainerName \<equiv> ''oauth2-proxy''"
abbreviation dexContainerName :: string where "dexContainerName \<equiv> ''dex''"
abbreviation generateProxyConfigContainerName :: string where "generateProxyConfigContainerName \<equiv> ''generate-proxy-config''"
abbreviation oauth2ProxyClientSecretName :: string where "oauth2ProxyClientSecretName \<equiv> ''oauth2-proxy-client-secret''"
abbreviation oauth2ProxyCookieSecretName :: string where "oauth2ProxyCookieSecretName \<equiv> ''oauth2-proxy-cookie-secret''"
abbreviation segmentSecretBaseName :: string where "segmentSecretBaseName \<equiv> ''segment-bridge-config''"
abbreviation ReasonEndpointDeterminationFailed :: string where "ReasonEndpointDeterminationFailed \<equiv> ''EndpointDeterminationFailed''"
abbreviation ReasonInvalidIngressFQDN :: string where "ReasonInvalidIngressFQDN \<equiv> ''InvalidIngressFQDN''"
abbreviation ReasonIngressReconcileFailed :: string where "ReasonIngressReconcileFailed \<equiv> ''IngressReconcileFailed''"
abbreviation watsonConfigVolumeName :: string where "watsonConfigVolumeName \<equiv> ''watson-config''"

definition consoleLinkGVK :: gvk where
  "consoleLinkGVK = mk_gvk ''console.openshift.io'' ''v1'' ''ConsoleLink''"

definition UICleanupGVKs :: "gvk list" where
  "UICleanupGVKs = [ingressGVK, consoleLinkGVK, serviceAccountGVK, secretGVK] @ ComponentMetricsOrphanCleanupGVKs"

definition UIClusterScopedAllowList :: allow_list where
  "UIClusterScopedAllowList = Some [(consoleLinkGVK, [''konflux'']), (clusterRoleGVK, [''konflux-ui-proxy-metrics-reader'']),
     (clusterRoleBindingGVK, [''prometheus-konflux-ui-proxy-metrics-reader''])]"

definition ui_spec_of :: "kobj \<Rightarrow> ui_spec" where
  "ui_spec_of cr = (case o_body cr of BKonfluxCR (UISpec s i) \<Rightarrow> s | _ \<Rightarrow> \<lparr> ui_config = UIConfigSpec, ui_componentMetrics = None \<rparr>)"

section \<open>Overlays\<close>

definition appendRuntimeConfigOverlays :: "runtime_config_spec option \<Rightarrow> container_option list \<Rightarrow> container_option list" where
  "appendRuntimeConfigOverlays rc initOpts = (case rc of
     None \<Rightarrow> initOpts
   | Some r \<Rightarrow> initOpts @ map (\<lambda>(key, v). WithEnv [EnvVar key v]) (RuntimeConfig_All r))"

definition endpoint_opts :: "string \<Rightarrow> endpoint_spec option \<Rightarrow> container_option list" where
  "endpoint_opts prefix e = (case e of None \<Rightarrow> []
     | Some s \<Rightarrow> if ep_enabled s then [WithEnv [EnvVar (prefix @ ''_ENABLED'') ''true''], WithOptionalEnvOverride (prefix @ ''_HOSTNAME'') (ep_hostname s)]
                 else [])"

definition appendEndpointOverlays :: "proxy_endpoints_spec option \<Rightarrow> container_option list \<Rightarrow> pod_overlay_option list \<Rightarrow>
    (container_option list \<times> pod_overlay_option list) result" where
  "appendEndpointOverlays endpoints initOpts podOpts = (case endpoints of
     None \<Rightarrow> Inr (initOpts, podOpts)
   | Some es \<Rightarrow>
       let initOpts1 = initOpts @ endpoint_opts ''KITE'' (kite es) @ endpoint_opts ''KUBEARCHIVE'' (kubearchive es)
       in (case watson es of
             None \<Rightarrow> Inr (initOpts1, podOpts)
           | Some wa \<Rightarrow>
               if \<not> we_enabled wa then Inr (initOpts1, podOpts)
               else if we_secretName wa = [] then Inl (NewError ''watson endpoint is enabled but secretName is not set'')
               else Inr (initOpts1 @ [WithEnv [EnvVar ''WATSON_ENABLED'' ''true''], WithOptionalEnvOverride ''WATSON_HOSTNAME'' (we_hostname wa)],
                         podOpts @ [WithSecretVolumeUpdate watsonConfigVolumeName (we_secretName wa)])))"

definition caVolume :: volume where
  "caVolume = \<lparr> vol_name = ''ca-bundle'', vol_configMap = None, vol_secret = None,
     vol_rest = JObject [(''projected'', JObject [(''sources'', JArray [JObject [(''secret'', JObject [(''name'', JString ''oauth2-proxy-cert''),
       (''items'', JArray [JObject [(''key'', JString ''ca.crt''), (''path'', JString ''ca-bundle.crt'')]])])]])])] \<rparr>"

definition buildProxyOverlay :: "proxy_deployment_spec option \<Rightarrow> runtime_config_spec option \<Rightarrow> string \<Rightarrow> bool \<Rightarrow> container_option list \<Rightarrow>
    pod_overlay result" where
  "buildProxyOverlay spec rc segmentSecretName needsRunAsUser oauth2ProxyOpts =
     (let podOpts = [WithVolumes [caVolume]] @
            (if segmentSecretName \<noteq> [] then [WithSecretVolumeUpdate ''segment-bridge-config'' segmentSecretName] else []);
          reverseProxyOpts = (if needsRunAsUser then [WithRunAsUser 1001] else []);
          initContainerOpts = appendRuntimeConfigOverlays rc [];
          with_init = (\<lambda>opts. if opts \<noteq> [] then [WithContainerOpts generateProxyConfigContainerName \<lparr> Replicas = 0 \<rparr> opts] else [])
      in case spec of
           None \<Rightarrow> Inr (NewPodOverlay (podOpts @ with_init initContainerOpts @
             [WithContainerBuilder reverseProxyContainerName reverseProxyOpts \<lparr> Replicas = 0 \<rparr>,
              WithContainerBuilder oauth2ProxyContainerName oauth2ProxyOpts \<lparr> Replicas = 0 \<rparr>]))
         | Some sp \<Rightarrow> (case appendEndpointOverlays (px_endpoints sp) initContainerOpts podOpts of
             Inl e \<Rightarrow> Inl e
           | Inr (initOpts, podOpts1) \<Rightarrow> Inr (NewPodOverlay (podOpts1 @ with_init initOpts @
               [WithContainerBuilder reverseProxyContainerName (reverseProxyOpts @ [FromContainerSpec (reverseProxy sp)]) \<lparr> Replicas = px_replicas sp \<rparr>,
                WithContainerBuilder oauth2ProxyContainerName (oauth2ProxyOpts @ [FromContainerSpec (oauth2Proxy sp)]) \<lparr> Replicas = px_replicas sp \<rparr>]))))"

definition buildDexOverlay :: "dex_deployment_spec option \<Rightarrow> string \<Rightarrow> pod_overlay" where
  "buildDexOverlay spec configMapName =
     NewPodOverlay ([WithConfigMapVolumeUpdate ''dex'' configMapName] @
       (case spec of None \<Rightarrow> []
        | Some sp \<Rightarrow> [WithContainerOpts dexContainerName \<lparr> Replicas = dd_replicas sp \<rparr> [FromContainerSpec (dd_dex sp)]]))"

definition applyUIDeploymentCustomizations :: "merge_libs \<Rightarrow> ui_config_spec \<Rightarrow> cluster_info option \<Rightarrow> string \<Rightarrow> string \<Rightarrow> url \<Rightarrow>
    string \<Rightarrow> deployment \<Rightarrow> deployment result" where
  "applyUIDeploymentCustomizations L ui ci dexConfigMapName segmentSecretName endpoint name d =
     (if name = proxyDeploymentName
      then (let d1 = d\<lparr> dep_replicas := Some (px_replicas (GetProxy ui)) \<rparr>;
                oauth2ProxyOpts = buildOAuth2ProxyOptions endpoint (isOpenShiftLoginEnabled ui ci)
            in case buildProxyOverlay (ui_proxy ui) (runtimeConfig ui) segmentSecretName (\<not> on_openshift ci) oauth2ProxyOpts of
                 Inl e \<Rightarrow> Inl e
               | Inr overlay \<Rightarrow> as_result (ApplyToDeployment L (Some overlay) d1))
      else if name = dexDeploymentName
      then as_result (ApplyToDeployment L (Some (buildDexOverlay (ui_dex ui) dexConfigMapName))
             (d\<lparr> dep_replicas := Some (dd_replicas (GetDex ui)) \<rparr>))
      else Inr d)"

fun set_node_port :: "string \<Rightarrow> int \<Rightarrow> service_port list \<Rightarrow> service_port list" where
  "set_node_port name n [] = []"
| "set_node_port name n (p # ps) = (if sp_name p = name then p\<lparr> sp_nodePort := n \<rparr> # ps else p # set_node_port name n ps)"

definition applyUIServiceCustomizations :: "ui_config_spec \<Rightarrow> kobj \<Rightarrow> kobj" where
  "applyUIServiceCustomizations ui obj = (case o_body obj of
     BService t ports rest \<Rightarrow>
       if o_name obj \<noteq> proxyServiceName then obj
       else (case GetNodePortService ui of
               None \<Rightarrow> obj
             | Some httpsPort \<Rightarrow> obj\<lparr> o_body := BService ''NodePort''
                 (case httpsPort of None \<Rightarrow> ports | Some n \<Rightarrow> set_node_port ''web-tls'' n ports) rest \<rparr>)
   | _ \<Rightarrow> obj)"

definition applyUIServiceAccountCustomizations :: "bool \<Rightarrow> url \<Rightarrow> kobj \<Rightarrow> kobj" where
  "applyUIServiceAccountCustomizations openShiftLoginEnabled endpoint obj = (case o_body obj of
     BServiceAccount \<Rightarrow>
       if \<not> openShiftLoginEnabled \<or> o_name obj \<noteq> dexServiceAccountName then obj
       else obj\<lparr> o_annotations := sput ''serviceaccounts.openshift.io/oauth-redirecturi.dex'' (join_url endpoint ''/idp/callback'') (o_annotations obj) \<rparr>
   | _ \<Rightarrow> obj)"
section \<open>Steps of the reconcile\<close>

text \<open>
  Code outside the repository that the controller uses: the merge libraries and \<open>net/url\<close>, the random bytes
  of the reconcile, the YAML of the dex configuration, and the embedded logo.
\<close>

record ui_lib =
  ui_merge :: merge_libs
  ui_url :: url_lib
  ui_rand :: "nat \<Rightarrow> nat list result"
  ToYAML :: "dex_config \<Rightarrow> string result"
  konfluxLogoBase64 :: string

definition ui_ensureNamespaceExists :: "machinery \<Rightarrow> 's api \<Rightarrow> object_store \<Rightarrow> 's op" where
  "ui_ensureNamespaceExists M A S tc w = (case GetForComponent S UI of
     Inl e \<Rightarrow> (Some (Errorf ''failed to get parsed manifests for UI'' e), tc, w)
   | Inr objects \<Rightarrow> ensure_namespaces M A uiNamespace objects tc w)"

definition ui_prepare :: "ui_lib \<Rightarrow> ui_spec \<Rightarrow> cluster_info option \<Rightarrow> string \<Rightarrow> string \<Rightarrow> url \<Rightarrow> kobj \<Rightarrow> kobj option result" where
  "ui_prepare X spec ci dexConfigMapName segmentSecretName endpoint obj =
     (let ui = ui_config spec
      in if \<not> IsEnabled (ui_componentMetrics spec) \<and> IsComponentMetricsScrapeResource obj then Inr None
         else (case customize_deployment (applyUIDeploymentCustomizations (ui_merge X) ui ci dexConfigMapName segmentSecretName endpoint) obj of
                 Inl e \<Rightarrow> Inl e
               | Inr obj1 \<Rightarrow> Inr (Some (applyUIServiceAccountCustomizations (isOpenShiftLoginEnabled ui ci) endpoint
                                        (applyUIServiceCustomizations ui obj1)))))"

fun ui_apply_objects :: "machinery \<Rightarrow> 's api \<Rightarrow> (kobj \<Rightarrow> kobj option result) \<Rightarrow> kobj list \<Rightarrow> 's op" where
  "ui_apply_objects M A prepare [] tc w = (None, tc, w)"
| "ui_apply_objects M A prepare (obj # objs) tc w = (case prepare obj of
     Inl e \<Rightarrow> (Some e, tc, w)
   | Inr None \<Rightarrow> ui_apply_objects M A prepare objs tc w
   | Inr (Some obj') \<Rightarrow> (case ApplyOwned M A obj' tc w of
       (Inl e, tc', w') \<Rightarrow> (Some (Errorf (''failed to apply object '' @ o_namespace obj' @ ''/'' @ o_name obj' @ '' ('' @ GetKind obj' @ '')'') e), tc', w')
     | (Inr x, tc', w') \<Rightarrow> ui_apply_objects M A prepare objs tc' w'))"

definition ui_applyManifests :: "machinery \<Rightarrow> ui_lib \<Rightarrow> 's api \<Rightarrow> object_store \<Rightarrow> ui_spec \<Rightarrow> cluster_info option \<Rightarrow> string \<Rightarrow> string \<Rightarrow> url \<Rightarrow> 's op" where
  "ui_applyManifests M X A S spec ci dexConfigMapName segmentSecretName endpoint tc w = (case GetForComponent S UI of
     Inl e \<Rightarrow> (Some (Errorf ''failed to get parsed manifests for UI'' e), tc, w)
   | Inr objects \<Rightarrow> ui_apply_objects M A (ui_prepare X spec ci dexConfigMapName segmentSecretName endpoint) objects tc w)"

definition reconcileDexConfigMap :: "machinery \<Rightarrow> ui_lib \<Rightarrow> 's api \<Rightarrow> cluster_info option \<Rightarrow> kobj \<Rightarrow> url \<Rightarrow> 's world \<Rightarrow> string result \<times> 's world" where
  "reconcileDexConfigMap M X A ci ui endpoint w =
     (case ToYAML X (ui_dex_config (ui_config (ui_spec_of ui)) ci endpoint) of
        Inl e \<Rightarrow> (Inl (Errorf ''failed to marshal Dex config to YAML'' e), w)
      | Inr configYAML \<Rightarrow>
          (case hashedconfigmap_Apply M A (hashedconfigmap_New ''dex'' uiNamespace ''config.yaml''
                  ''app.kubernetes.io/managed-by-konflux-ui-reconciler'' ''konflux-ui-controller'') configYAML ui w of
             (Inl e, w') \<Rightarrow> (Inl e, w')
           | (Inr result, w') \<Rightarrow> (Inr (ConfigMapName result), w')))"

definition reconcileSegmentSecret :: "machinery \<Rightarrow> ui_lib \<Rightarrow> 's api \<Rightarrow> tracking_client \<Rightarrow> 's world \<Rightarrow>
    string result \<times> tracking_client \<times> 's world" where
  "reconcileSegmentSecret M X A tc w =
     (case k_get A (konflux_gvk ''KonfluxSegmentBridge'') [] segmentBridgeCRName w of
        (Inl e, w1) \<Rightarrow> (if IgnoreNotFound e \<noteq> None then Inl (Errorf ''failed to get KonfluxSegmentBridge CR'' e) else Inr [], tc, w1)
      | (Inr sb, w1) \<Rightarrow> (case resolve_segment_key A (segment_bridge_spec_of sb) w1 of
          (Inl e, w2) \<Rightarrow> (Inl e, tc, w2)
        | (Inr key, w2) \<Rightarrow>
            if \<not> LogWriteKeyResolution key [] then (Inr [], tc, w2)
            else let apiURL = ExtractURLHostAndPath (ui_url X) (GetSegmentAPIURL (ui_url X) (Some (segment_bridge_spec_of sb)));
                     secret = hashedsecret_Build segmentSecretBaseName uiNamespace [(''key'', key), (''url'', apiURL)]
                 in (case ApplyOwned M A secret tc w2 of
                       (Inl e, tc', w3) \<Rightarrow> (Inl (Errorf ''failed to apply segment config secret'' e), tc', w3)
                     | (Inr x, tc', w3) \<Rightarrow> (Inr (o_name secret), tc', w3))))"

definition reconcileIngress :: "machinery \<Rightarrow> ui_lib \<Rightarrow> 's api \<Rightarrow> cluster_info option \<Rightarrow> ui_config_spec \<Rightarrow> url \<Rightarrow> 's op" where
  "reconcileIngress M X A ci ui endpoint tc w =
     (if \<not> ptr_Deref (GetIngressEnabledPreference ui) (on_openshift ci) then (None, tc, w)
      else (case ApplyOwned M A (BuildForUI ui uiNamespace (Hostname endpoint)) tc w of
          (Inl e, tc1, w1) \<Rightarrow> (Some (Errorf ''failed to apply ingress'' e), tc1, w1)
        | (Inr x, tc1, w1) \<Rightarrow>
            if on_openshift ci
            then (case ApplyOwned M A (consolelink_Build (konfluxLogoBase64 X) endpoint) tc1 w1 of
                    (Inl e, tc2, w2) \<Rightarrow> (Some (Errorf ''failed to apply ConsoleLink'' e), tc2, w2)
                  | (Inr y, tc2, w2) \<Rightarrow> (None, tc2, w2))
            else (None, tc1, w1)))"

definition generateRandomBytes :: "ui_lib \<Rightarrow> nat \<Rightarrow> bool \<Rightarrow> string result" where
  "generateRandomBytes X n urlSafe = (case ui_rand X n of
     Inl e \<Rightarrow> Inl e
   | Inr bs \<Rightarrow> Inr (if urlSafe then RawURLEncoding bs else EncodeBase64 std_alphabet ''='' bs))"

definition mutate_ui_secret :: "machinery \<Rightarrow> ui_lib \<Rightarrow> string \<Rightarrow> nat \<Rightarrow> bool \<Rightarrow> tracking_client \<Rightarrow> kobj \<Rightarrow> kobj result" where
  "mutate_ui_secret M X key n urlSafe tc obj = (case SetOwnership M tc obj of
     Inl e \<Rightarrow> Inl e
   | Inr secret \<Rightarrow> (case secret_type_data secret of (t, d) \<Rightarrow>
       if go_get d key = []
       then (case generateRandomBytes X n urlSafe of
               Inl e \<Rightarrow> Inl e
             | Inr val \<Rightarrow> Inr (secret\<lparr> o_body := BSecret t (sput key val d) \<rparr>))
       else Inr (secret\<lparr> o_body := BSecret t d \<rparr>)))"

definition ensureSecret :: "machinery \<Rightarrow> ui_lib \<Rightarrow> 's api \<Rightarrow> string \<Rightarrow> string \<Rightarrow> nat \<Rightarrow> bool \<Rightarrow> 's op" where
  "ensureSecret M X A name key n urlSafe tc w =
     (case CreateOrUpdate M A (new_object (mk_gvk [] [] []) uiNamespace name (BSecret [] [])) (mutate_ui_secret M X key n urlSafe tc) tc w of
        (Inl e, tc', w') \<Rightarrow> (Some e, tc', w')
      | (Inr x, tc', w') \<Rightarrow> (None, tc', w'))"

definition ensureUISecrets :: "machinery \<Rightarrow> ui_lib \<Rightarrow> 's api \<Rightarrow> 's op" where
  "ensureUISecrets M X A tc w =
     (case ensureSecret M X A oauth2ProxyClientSecretName ''client-secret'' 20 True tc w of
        (Some e, tc', w') \<Rightarrow> (Some (Errorf ''client-secret'' e), tc', w')
      | (None, tc', w') \<Rightarrow> ensureSecret M X A oauth2ProxyCookieSecretName ''cookie-secret'' 16 False tc' w')"

section \<open>The reconcile\<close>

definition ui_start :: "machinery \<Rightarrow> 's api \<Rightarrow> object_store \<Rightarrow> cluster_info option \<Rightarrow> kobj \<Rightarrow> tracking_client \<Rightarrow> 's world \<Rightarrow>
    ((go_error \<times> string \<times> string) + url) \<times> tracking_client \<times> 's world" where
  "ui_start M A S ci cr tc w = (case ui_ensureNamespaceExists M A S tc w of
     (Some e, tc1, w1) \<Rightarrow> (Inl (e, ReasonNamespaceCreationFailed, ''ensure namespace exists''), tc1, w1)
   | (None, tc1, w1) \<Rightarrow> (case DetermineEndpointURL A (ui_config (ui_spec_of cr)) uiNamespace ci w1 of
       (Inl e, w2) \<Rightarrow> (Inl (e, if e = ErrFQDNPortWithManagedIngress then ReasonInvalidIngressFQDN else ReasonEndpointDeterminationFailed,
                          ''determine endpoint URL''), tc1, w2)
     | (Inr endpoint, w2) \<Rightarrow> (Inr endpoint, tc1, w2)))"

definition owned_value_then :: "(tracking_client \<Rightarrow> 's world \<Rightarrow> 'a result \<times> tracking_client \<times> 's world) \<Rightarrow> string \<Rightarrow> string \<Rightarrow>
    ('a \<Rightarrow> 's phase) \<Rightarrow> 's phase" where
  "owned_value_then f reason operation k tc w = (case f tc w of
     (Inl e, tc', w') \<Rightarrow> (Inl (e, reason, operation), tc', w')
   | (Inr x, tc', w') \<Rightarrow> k x tc' w')"

definition ui_rest :: "machinery \<Rightarrow> ui_lib \<Rightarrow> 's api \<Rightarrow> object_store \<Rightarrow> cluster_info option \<Rightarrow> kobj \<Rightarrow> url \<Rightarrow> 's phase" where
  "ui_rest M X A S ci cr endpoint =
     value_then (reconcileDexConfigMap M X A ci cr endpoint) ReasonConfigMapFailed ''reconcile Dex ConfigMap'' (\<lambda>dexConfigMapName.
       owned_value_then (reconcileSegmentSecret M X A) ReasonSecretCreationFailed ''reconcile segment config secret'' (\<lambda>segmentSecretName.
         step_then (ui_applyManifests M X A S (ui_spec_of cr) ci dexConfigMapName segmentSecretName endpoint) ReasonApplyFailed ''apply manifests''
          (step_then (reconcileIngress M X A ci (ui_config (ui_spec_of cr)) endpoint) ReasonIngressReconcileFailed ''reconcile Ingress''
            (step_then (ensureUISecrets M X A) ReasonSecretCreationFailed ''ensure UI secrets'' (done_phase no_requeue)))))"

definition ui_apply :: "machinery \<Rightarrow> ui_lib \<Rightarrow> 's api \<Rightarrow> object_store \<Rightarrow> cluster_info option \<Rightarrow> kobj \<Rightarrow> 's phase" where
  "ui_apply M X A S ci cr tc w = (case ui_start M A S ci cr tc w of
     (Inl f, tc1, w1) \<Rightarrow> (Inl f, tc1, w1)
   | (Inr endpoint, tc1, w1) \<Rightarrow> ui_rest M X A S ci cr endpoint tc1 w1)"

definition updateIngressStatus :: "bool \<Rightarrow> url \<Rightarrow> kobj \<Rightarrow> kobj" where
  "updateIngressStatus isOnOpenShift endpoint ui = (case o_body ui of
     BKonfluxCR (UISpec s i) \<Rightarrow> ui\<lparr> o_body := BKonfluxCR (UISpec s (Some
       \<lparr> ist_enabled = ptr_Deref (GetIngressEnabledPreference (ui_config s)) isOnOpenShift, ist_hostname = Hostname endpoint, ist_url = URL_String endpoint \<rparr>)) \<rparr>
   | _ \<Rightarrow> ui)"

definition ui_status :: "machinery \<Rightarrow> 's api \<Rightarrow> cluster_info option \<Rightarrow> url \<Rightarrow> ctrl_result \<Rightarrow> kobj \<Rightarrow> 's world \<Rightarrow> status_result \<times> 's world" where
  "ui_status M A ci endpoint res cr w = (case deployments_status M A res cr w of
     (Inl f, w') \<Rightarrow> (Inl f, w')
   | (Inr (cr', res'), w') \<Rightarrow> (Inr (updateIngressStatus (on_openshift ci) endpoint cr', res'), w'))"

definition ui_component :: "machinery \<Rightarrow> ui_lib \<Rightarrow> 's api \<Rightarrow> object_store \<Rightarrow> cluster_info option \<Rightarrow> url \<Rightarrow> 's component_def" where
  "ui_component M X A S ci endpoint = \<lparr> cmp_gvk = konflux_gvk ''KonfluxUI'', cmp_component = component_name UI,
     cmp_fieldManager = ''konflux-ui-controller'', cmp_cleanupGVKs = UICleanupGVKs,
     cmp_opts = [WithClusterScopedAllowList UIClusterScopedAllowList],
     cmp_apply = ui_apply M X A S ci,
     cmp_status = ui_status M A ci endpoint \<rparr>"

definition ui_client :: "kobj \<Rightarrow> tracking_client" where
  "ui_client cr = NewClientWithOwnership \<lparr> Owner = cr, OwnerLabelKey = KonfluxOwnerLabel, ComponentLabelKey = KonfluxComponentLabel,
     Component = component_name UI, FieldManager = ''konflux-ui-controller'' \<rparr>"

definition ui_Reconcile :: "machinery \<Rightarrow> ui_lib \<Rightarrow> 's api \<Rightarrow> nat list \<Rightarrow> object_store \<Rightarrow> cluster_info option \<Rightarrow> string \<Rightarrow> string \<Rightarrow> 's world \<Rightarrow>
    's outcome" where
  "ui_Reconcile M X A schedule S ci ns name w =
     (case k_get A (konflux_gvk ''KonfluxUI'') ns name w of
        (Inl e, w1) \<Rightarrow> \<lparr> out_result = no_requeue, out_err = IgnoreNotFound e, out_cr = None, out_world = w1 \<rparr>
      | (Inr cr, w1) \<Rightarrow> (case ui_start M A S ci cr (ui_client cr) w1 of
          (Inl (e, reason, operation), tc, w2) \<Rightarrow> HandleWithReason M A cr e reason operation w2
        | (Inr endpoint, tc, w2) \<Rightarrow> (case ui_rest M X A S ci cr endpoint tc w2 of
            (Inl (e, reason, operation), tc1, w3) \<Rightarrow> HandleWithReason M A cr e reason operation w3
          | (Inr res, tc1, w3) \<Rightarrow> finish_reconcile M A schedule (ui_component M X A S ci endpoint) res cr tc1 w3)))"

definition mapSegmentBridgeToUI :: "kobj \<Rightarrow> string list" where
  "mapSegmentBridgeToUI obj = [uiCRName]"

definition mapSegmentKeySecretToUI :: "'s api \<Rightarrow> kobj \<Rightarrow> 's world \<Rightarrow> string list \<times> 's world" where
  "mapSegmentKeySecretToUI A obj w =
     (if go_type (o_body obj) \<noteq> ''*v1.Secret'' \<or> o_namespace obj \<noteq> segmentBridgeNamespace then ([], w)
      else (case k_get A (konflux_gvk ''KonfluxSegmentBridge'') [] segmentBridgeCRName w of
          (Inl e, w') \<Rightarrow> ([], w')
        | (Inr sb, w') \<Rightarrow> (case GetSegmentKeySecretRef (Some (segment_bridge_spec_of sb)) of
            None \<Rightarrow> ([], w')
          | Some ref \<Rightarrow> (if sks_name ref \<noteq> o_name obj then [] else [uiCRName], w'))))"
section \<open>The laws of the reconcile\<close>

text \<open>A controller whose apply phase is good and whose status phase only reads reports failed patches.\<close>

lemma strict_phaseI:
  assumes good: "\<And>cr. good_phase M (cmp_apply K cr)" and reads: "\<And>res cr w s w'. cmp_status K res cr w = (s, w') \<Longrightarrow> emits is_read w w'"
  shows "strict_reconciler M K"
proof (rule strict_reconcilerI)
  have step: "good_step M (\<exists>x. r = Inr x) tc w tc' w'" if "cmp_apply K cr tc w = (r, tc', w')" for cr tc w r tc' w'
    using good that by (rule good_phaseD)
  show "reconcile_laws M K"
  proof (unfold_locales, goal_cases)
    case (4 res cr w s w')
    then show ?case by (rule reads)
  qed (use step in \<open>auto simp: good_step_def tracked_phase_def\<close>)
  show "no_failed_patch w w'" if "cmp_apply K cr tc w = (Inr r, tc', w')" for cr tc w r tc' w'
    using step [OF that] by (simp add: good_step_def)
qed

lemma good_owned_value_then:
  assumes f: "\<And>tc w r tc' w'. f tc w = (r, tc', w') \<Longrightarrow> good_step M (\<exists>x. r = Inr x) tc w tc' w'" and k: "\<And>x. good_phase M (k x)"
  shows "good_phase M (owned_value_then f reason operation k)"
proof (rule good_phaseI)
  fix tc w r tc' w'
  assume run: "owned_value_then f reason operation k tc w = (r, tc', w')"
  obtain x tc1 w1 where x: "f tc w = (x, tc1, w1)" by (metis prod_cases3)
  note step = f [OF x]
  show "good_step M (\<exists>x. r = Inr x) tc w tc' w'"
  proof (cases x)
    case (Inl e)
    with run x step show ?thesis by (auto simp: owned_value_then_def good_step_def)
  next
    case (Inr v)
    with run x have "k v tc1 w1 = (r, tc', w')" by (simp add: owned_value_then_def)
    from good_step_trans [OF _ good_phaseD [OF k this]] step Inr show ?thesis by simp
  qed
qed

lemma reconcileDexConfigMap_quiet: "reconcileDexConfigMap M X A ci ui endpoint w = (r, w') \<Longrightarrow> emits quiet w w'"
  by (auto simp: reconcileDexConfigMap_def split: prod.splits sum.splits dest!: hashedconfigmap_Apply_quiet)

lemma reconcileSegmentSecret_good:
  assumes run: "reconcileSegmentSecret M X A tc w = (r, tc', w')"
  shows "good_step M (\<exists>x. r = Inr x) tc w tc' w'"
proof -
  obtain g w1 where g: "k_get A (konflux_gvk ''KonfluxSegmentBridge'') [] segmentBridgeCRName w = (g, w1)" by fastforce
  note one = good_step_quiet [OF quiet_calls(1) [OF g], of M _ tc]
  show ?thesis
  proof (cases g)
    case (Inl e)
    with run g one show ?thesis by (auto simp: reconcileSegmentSecret_def split: if_splits)
  next
    case (Inr sb)
    obtain k w2 where k: "resolve_segment_key A (segment_bridge_spec_of sb) w1 = (k, w2)" by fastforce
    note two = good_step_trans [OF one good_step_quiet [OF resolve_segment_key_quiet [OF k], of M _ tc]]
    define secret where "secret key = hashedsecret_Build segmentSecretBaseName uiNamespace [(''key'', key),
      (''url'', ExtractURLHostAndPath (ui_url X) (GetSegmentAPIURL (ui_url X) (Some (segment_bridge_spec_of sb))))]" for key
    show ?thesis
    proof (cases "\<exists>key. k = Inr key \<and> key \<noteq> []")
      case True
      then obtain key where key: "k = Inr key" "key \<noteq> []" by blast
      obtain a tc1 w3 where a: "ApplyOwned M A (secret key) tc w2 = (a, tc1, w3)" by (metis prod_cases3)
      from run g Inr k key a have "tc' = tc1" "w' = w3" "(\<exists>x. r = Inr x) \<longleftrightarrow> (\<exists>x. a = Inr x)"
        by (auto simp: reconcileSegmentSecret_def LogWriteKeyResolution_def Let_def secret_def split: sum.splits)
      with good_step_trans [OF two ApplyOwned_good [OF a]] show ?thesis by simp
    next
      case False
      with run g Inr k have "tc' = tc" "w' = w2" by (auto simp: reconcileSegmentSecret_def LogWriteKeyResolution_def split: sum.splits)
      with two show ?thesis by auto
    qed
  qed
qed

lemma good_ui_apply_objects: "good_op M (ui_apply_objects M A prepare objs)"
proof (rule good_opI)
  show "ui_apply_objects M A prepare objs tc w = (r, tc', w') \<Longrightarrow> good_step M (r = None) tc w tc' w'" for tc w r tc' w'
  proof (induction objs arbitrary: tc w)
    case (Cons obj objs)
    show ?case
    proof (cases "\<exists>obj'. prepare obj = Inr (Some obj')")
      case True
      then obtain obj' where p: "prepare obj = Inr (Some obj')" by blast
      obtain a tc1 w1 where a: "ApplyOwned M A obj' tc w = (a, tc1, w1)" by (metis prod_cases3)
      note step = ApplyOwned_good [OF a]
      show ?thesis
      proof (cases a)
        case (Inl e)
        with Cons.prems p a step show ?thesis by (auto simp: good_step_def)
      next
        case (Inr x)
        with Cons.prems p a have "ui_apply_objects M A prepare objs tc1 w1 = (r, tc', w')" by simp
        from good_step_trans [OF _ Cons.IH [OF this]] step Inr show ?thesis by simp
      qed
    next
      case False
      with Cons.prems Cons.IH show ?thesis by (fastforce split: sum.splits option.splits)
    qed
  qed simp
qed

lemma good_ui_applyManifests [good_intros]: "good_op M (ui_applyManifests M X A S spec ci d s endpoint)"
  by (rule good_opI) (auto simp: ui_applyManifests_def split: sum.splits dest: good_opD [OF good_ui_apply_objects])

lemma good_ui_ensureNamespaceExists: "good_op M (ui_ensureNamespaceExists M A S)"
  by (rule good_opI) (auto simp: ui_ensureNamespaceExists_def split: sum.splits dest: good_opD [OF good_ensure_namespaces])

lemma good_reconcileIngress [good_intros]: "good_op M (reconcileIngress M X A ci ui endpoint)"
proof (rule good_opI)
  fix tc w r tc' w'
  assume run: "reconcileIngress M X A ci ui endpoint tc w = (r, tc', w')"
  obtain a tc1 w1 where a: "ApplyOwned M A (BuildForUI ui uiNamespace (Hostname endpoint)) tc w = (a, tc1, w1)" by (metis prod_cases3)
  obtain b tc2 w2 where b: "ApplyOwned M A (consolelink_Build (konfluxLogoBase64 X) endpoint) tc1 w1 = (b, tc2, w2)" by (metis prod_cases3)
  note first = ApplyOwned_good [OF a] and second = ApplyOwned_good [OF b]
  show "good_step M (r = None) tc w tc' w'"
  proof (cases "ptr_Deref (GetIngressEnabledPreference ui) (on_openshift ci)")
    case True
    show ?thesis
    proof (cases a)
      case (Inl e)
      with run True a first show ?thesis by (auto simp: reconcileIngress_def good_step_def)
    next
      case (Inr x)
      with first have ok: "good_step M True tc w tc1 w1" by simp
      from run True a b Inr consider "r = None" "tc' = tc1" "w' = w1" | "tc' = tc2" "w' = w2" "r = None \<longleftrightarrow> (\<exists>x. b = Inr x)"
        by (auto simp: reconcileIngress_def split: if_splits sum.splits)
      then show ?thesis using ok good_step_trans [OF ok second] by cases auto
    qed
  qed (use run in \<open>simp add: reconcileIngress_def\<close>)
qed

lemma CreateOrUpdate_good: "CreateOrUpdate M A obj f tc w = (r, tc', w') \<Longrightarrow> good_step M ok tc w tc' w'"
  using CreateOrUpdate_phase [of M A obj f tc w r tc' w'] by (simp add: good_step_def)

lemma ensureSecret_good: "ensureSecret M X A name key n u tc w = (r, tc', w') \<Longrightarrow> good_step M ok tc w tc' w'"
  by (auto simp: ensureSecret_def split: prod.splits sum.splits dest!: CreateOrUpdate_good)

lemma good_ensureUISecrets [good_intros]: "good_op M (ensureUISecrets M X A)"
proof (rule good_opI)
  fix tc w r tc' w'
  assume run: "ensureUISecrets M X A tc w = (r, tc', w')"
  obtain e tc1 w1 where e: "ensureSecret M X A oauth2ProxyClientSecretName ''client-secret'' 20 True tc w = (e, tc1, w1)" by (metis prod_cases3)
  show "good_step M (r = None) tc w tc' w'"
  proof (cases e)
    case (Some x)
    with run e ensureSecret_good [OF e] show ?thesis by (simp add: ensureUISecrets_def)
  next
    case None
    with run e have "ensureSecret M X A oauth2ProxyCookieSecretName ''cookie-secret'' 16 False tc1 w1 = (r, tc', w')" by (simp add: ensureUISecrets_def)
    from good_step_trans [OF ensureSecret_good [OF e] ensureSecret_good [OF this]] show ?thesis .
  qed
qed

lemma good_ui_rest: "good_phase M (ui_rest M X A S ci cr endpoint)"
  unfolding ui_rest_def
  by (intro good_intros good_value_then good_owned_value_then) (erule reconcileDexConfigMap_quiet, erule reconcileSegmentSecret_good)
lemma GetOpenShiftIngressDomain_quiet: "GetOpenShiftIngressDomain A w = (r, w') \<Longrightarrow> emits quiet w w'"
  by (auto simp: GetOpenShiftIngressDomain_def split: prod.splits sum.splits option.splits dest!: quiet_calls(1))

lemma DetermineEndpointURL_quiet: "DetermineEndpointURL A ui namespace ci w = (r, w') \<Longrightarrow> emits quiet w w'"
  by (auto simp: DetermineEndpointURL_def Let_def split: if_splits prod.splits sum.splits dest!: GetOpenShiftIngressDomain_quiet)

lemma ui_start_good:
  assumes run: "ui_start M A S ci cr tc w = (r, tc', w')"
  shows "good_step M (\<exists>x. r = Inr x) tc w tc' w'"
proof -
  obtain e tc1 w1 where e: "ui_ensureNamespaceExists M A S tc w = (e, tc1, w1)" by (metis prod_cases3)
  obtain u w2 where u: "DetermineEndpointURL A (ui_config (ui_spec_of cr)) uiNamespace ci w1 = (u, w2)" by fastforce
  note first = good_opD [OF good_ui_ensureNamespaceExists e]
  show ?thesis
  proof (cases e)
    case (Some x)
    with run e first show ?thesis by (auto simp: ui_start_def good_step_def)
  next
    case None
    with run e u have "tc' = tc1" "w' = w2" by (auto simp: ui_start_def split: sum.splits)
    with good_step_trans [OF _ good_step_quiet [OF DetermineEndpointURL_quiet [OF u], of M _ tc1]] first None show ?thesis by simp
  qed
qed

lemma good_ui_apply: "good_phase M (ui_apply M X A S ci cr)"
proof (rule good_phaseI)
  fix tc w r tc' w'
  assume run: "ui_apply M X A S ci cr tc w = (r, tc', w')"
  obtain s tc1 w1 where s: "ui_start M A S ci cr tc w = (s, tc1, w1)" by (metis prod_cases3)
  note first = ui_start_good [OF s]
  show "good_step M (\<exists>x. r = Inr x) tc w tc' w'"
  proof (cases s)
    case (Inl f)
    with run s first show ?thesis by (auto simp: ui_apply_def good_step_def)
  next
    case (Inr endpoint)
    with run s have "ui_rest M X A S ci cr endpoint tc1 w1 = (r, tc', w')" by (simp add: ui_apply_def)
    from good_step_trans [OF _ good_phaseD [OF good_ui_rest this]] first Inr show ?thesis by simp
  qed
qed

lemma ui_status_reads: "ui_status M A ci endpoint res cr w = (s, w') \<Longrightarrow> emits is_read w w'"
  by (auto simp: ui_status_def split: prod.splits sum.splits dest!: deployments_status_reads)

interpretation ui: strict_reconciler M "ui_component M X A S ci endpoint" for M X A S ci endpoint
proof (rule strict_phaseI)
  show "good_phase M (cmp_apply (ui_component M X A S ci endpoint) cr)" for cr
    using good_ui_apply [of M X A S ci cr] by (simp add: ui_component_def)
  show "cmp_status (ui_component M X A S ci endpoint) res cr w = (s, w') \<Longrightarrow> emits is_read w w'" for res cr w s w'
    using ui_status_reads [of M A ci endpoint res cr w s w'] by (simp add: ui_component_def)
qed

text \<open>
  The reconcile is the component reconcile at the endpoint it determines (any endpoint will do when it ends
  before), so every theorem about component reconciles applies to it.
\<close>

lemma ui_Reconcile_component:
  obtains endpoint where "ui_Reconcile M X A schedule S ci ns name w = component_reconcile M A schedule (ui_component M X A S ci endpoint) ns name w"
    and "\<And>cr w1 ep tc w2. k_get A (konflux_gvk ''KonfluxUI'') ns name w = (Inr cr, w1) \<Longrightarrow> ui_start M A S ci cr (ui_client cr) w1 = (Inr ep, tc, w2) \<Longrightarrow> endpoint = ep"
proof -
  have client: "component_client (ui_component M X A S ci endpoint) cr = ui_client cr" for endpoint cr
    by (simp add: component_client_def ui_client_def ui_component_def)
  have fields: "cmp_gvk (ui_component M X A S ci endpoint) = konflux_gvk ''KonfluxUI''" "cmp_apply (ui_component M X A S ci endpoint) = ui_apply M X A S ci"
    for endpoint by (simp_all add: ui_component_def)
  obtain g w1 where g: "k_get A (konflux_gvk ''KonfluxUI'') ns name w = (g, w1)" by fastforce
  show thesis
  proof (cases g)
    case (Inl e)
    with g show thesis
      by (intro that [of undefined]) (simp_all add: ui_Reconcile_def component_reconcile_def fields)
  next
    case (Inr cr)
    obtain s tc w2 where s: "ui_start M A S ci cr (ui_client cr) w1 = (s, tc, w2)" by (metis prod_cases3)
    show thesis
    proof (cases s)
      case (Inl f)
      with g \<open>g = Inr cr\<close> s show thesis
        by (intro that [of undefined]) (auto simp: ui_Reconcile_def component_reconcile_def reconcile_fetched_def client fields ui_apply_def split: prod.splits)
    next
      case (Inr endpoint)
      with g \<open>g = Inr cr\<close> s show thesis
        by (intro that [of endpoint])
          (simp_all add: ui_Reconcile_def component_reconcile_def reconcile_fetched_def client fields ui_apply_def)
    qed
  qed
qed
section \<open>What the status reports\<close>

lemma updateIngressStatus_other [simp]:
  "o_name (updateIngressStatus b endpoint cr) = o_name cr" "o_uid (updateIngressStatus b endpoint cr) = o_uid cr"
  "o_conditions (updateIngressStatus b endpoint cr) = o_conditions cr"
  by (simp_all add: updateIngressStatus_def split: body.splits cr_spec.splits)

lemma updateIngressStatus_body: "o_body cr = BKonfluxCR (UISpec s i) \<Longrightarrow> o_body (updateIngressStatus b endpoint cr) = BKonfluxCR (UISpec s (Some
    \<lparr> ist_enabled = ptr_Deref (ing_enabled (GetIngress (ui_config s))) b, ist_hostname = Hostname endpoint, ist_url = URL_String endpoint \<rparr>))"
  by (simp add: updateIngressStatus_def GetIngressEnabledPreference_def)

lemma ui_start_endpoint:
  assumes "ui_start M A S ci cr tc w = (Inr endpoint, tc', w')"
  obtains w1 where "DetermineEndpointURL A (ui_config (ui_spec_of cr)) uiNamespace ci w1 = (Inr endpoint, w')"
  using assms by (auto simp: ui_start_def split: prod.splits option.splits sum.splits)

lemma ui_success_run:
  assumes run: "ui_Reconcile M X A schedule S ci ns name w = out" and ok: "out_err out = None" "out_cr out = Some cr'"
  obtains cr w0 endpoint tc w2 res tc1 w3 where "k_get A (konflux_gvk ''KonfluxUI'') ns name w = (Inr cr, w0)"
    "ui_start M A S ci cr (ui_client cr) w0 = (Inr endpoint, tc, w2)" "ui_rest M X A S ci cr endpoint tc w2 = (Inr res, tc1, w3)"
    "finish_reconcile M A schedule (ui_component M X A S ci endpoint) res cr tc1 w3 = out"
proof -
  obtain g w0 where g: "k_get A (konflux_gvk ''KonfluxUI'') ns name w = (g, w0)" by fastforce
  from run ok g obtain cr where cr: "g = Inr cr" by (cases g) (auto simp: ui_Reconcile_def)
  obtain s tc w2 where s: "ui_start M A S ci cr (ui_client cr) w0 = (s, tc, w2)" by (metis prod_cases3)
  from run ok(1) g cr s obtain endpoint where ep: "s = Inr endpoint"
    by (cases s) (auto simp: ui_Reconcile_def HandleWithReason_def split: prod.splits)
  obtain r tc1 w3 where r: "ui_rest M X A S ci cr endpoint tc w2 = (r, tc1, w3)" by (metis prod_cases3)
  with run ok(1) g cr s ep obtain res where "r = Inr res"
    by (cases r) (auto simp: ui_Reconcile_def HandleWithReason_def split: prod.splits)
  with run g cr s ep r that show thesis by (simp add: ui_Reconcile_def)
qed

lemma ui_finish:
  assumes laws: "condition_laws M" and fin: "finish_reconcile M A schedule (ui_component M X A S ci endpoint) res cr tc w = out"
    and ok: "out_err out = None" "out_cr out = Some cr'"
  obtains ds cr1 w1 where "extends w w1"
    "events (out_world out) = events w1 @ [EList deployment_list_gvk [(KonfluxOwnerLabel, o_name cr)] (Inr ds), EStatusUpdate cr1 (Inr cr')]"
    "o_name cr1 = o_name cr" "IsConditionTrue M cr1 TypeReady \<longleftrightarrow> list_all IsDeploymentReady ds"
    "\<And>s i. o_body cr = BKonfluxCR (UISpec s i) \<Longrightarrow> o_body cr1 = BKonfluxCR (UISpec s (Some
       \<lparr> ist_enabled = ptr_Deref (ing_enabled (GetIngress (ui_config s))) (on_openshift ci), ist_hostname = Hostname endpoint,
         ist_url = URL_String endpoint \<rparr>))"
proof -
  obtain c w1 where c: "CleanupOrphans M A schedule tc KonfluxOwnerLabel (o_name cr) UICleanupGVKs [WithClusterScopedAllowList UIClusterScopedAllowList] w = (c, w1)"
    by fastforce
  from fin ok(1) c have "c = None" by (cases c) (auto simp: finish_reconcile_def ui_component_def HandleCleanupError_def)
  obtain u w2 where u: "UpdateComponentStatuses M A cr w1 = (u, w2)" by fastforce
  from fin ok(1) c \<open>c = None\<close> u obtain cr2 where cr2: "u = Inr cr2"
    by (cases u) (auto simp: finish_reconcile_def ui_component_def ui_status_def deployments_status_def HandleWithReason_def)
  let ?cr1 = "updateIngressStatus (on_openshift ci) endpoint cr2"
  obtain a w3 where a: "k_status_update A ?cr1 w2 = (a, w3)" by fastforce
  from fin ok c \<open>c = None\<close> u cr2 a have a': "a = Inr cr'" "out_world out = w3"
    by (auto simp: finish_reconcile_def ui_component_def ui_status_def deployments_status_def split: sum.splits)
  from laws u [unfolded cr2] obtain ds ready where
    ev: "events w2 = events w1 @ [EList deployment_list_gvk [(KonfluxOwnerLabel, o_name cr)] (Inr ds)]" and
    cd: "conds cr2 = (conds (set_all_conditions M DeploymentCondition ds cr) |` seen_or_ready ds) (TypeReady \<mapsto> ready)"
      "cstatus ready = (if list_all IsDeploymentReady ds then CTrue else CFalse)" and
    same: "o_name cr2 = o_name cr" "o_body cr2 = o_body cr" "o_uid cr2 = o_uid cr"
    by (rule UpdateComponentStatuses_conds)
  have "IsConditionTrue M ?cr1 TypeReady \<longleftrightarrow> IsConditionTrue M cr2 TypeReady"
    by (simp add: IsConditionTrue_def GetConditions_def)
  then have "IsConditionTrue M ?cr1 TypeReady \<longleftrightarrow> list_all IsDeploymentReady ds"
    using cd by (simp add: IsConditionTrue_conds [OF laws])
  moreover have "events w3 = events w1 @ [EList deployment_list_gvk [(KonfluxOwnerLabel, o_name cr)] (Inr ds), EStatusUpdate ?cr1 (Inr cr')]"
    using k_call_events(7) [OF a] ev a' by simp
  ultimately show thesis
    using emits_extends [OF CleanupOrphans_emits [OF c]] a' same
    by (intro that [of w1 ds ?cr1]) (auto simp: updateIngressStatus_body)
qed

lemma ui_reported:
  assumes laws: "condition_laws M" and run: "ui_Reconcile M X A schedule S ci ns name w = out"
    and ok: "out_err out = None" "out_cr out = Some cr'"
  obtains cr ds cr1 before endpoint w1 w2 where
    "events (out_world out) = before @ [EList deployment_list_gvk [(KonfluxOwnerLabel, o_name cr)] (Inr ds), EStatusUpdate cr1 (Inr cr')]"
    "EGet (konflux_gvk ''KonfluxUI'') ns name (Inr cr) \<in> set before" "o_name cr1 = o_name cr"
    "IsConditionTrue M cr1 TypeReady \<longleftrightarrow> list_all IsDeploymentReady ds"
    "DetermineEndpointURL A (ui_config (ui_spec_of cr)) uiNamespace ci w1 = (Inr endpoint, w2)"
    "\<And>s i. o_body cr = BKonfluxCR (UISpec s i) \<Longrightarrow> o_body cr1 = BKonfluxCR (UISpec s (Some
       \<lparr> ist_enabled = ptr_Deref (ing_enabled (GetIngress (ui_config s))) (on_openshift ci), ist_hostname = Hostname endpoint,
         ist_url = URL_String endpoint \<rparr>))"
proof -
  from run ok obtain cr w0 endpoint tc w2 res tc1 w3 where g: "k_get A (konflux_gvk ''KonfluxUI'') ns name w = (Inr cr, w0)"
    and s: "ui_start M A S ci cr (ui_client cr) w0 = (Inr endpoint, tc, w2)" and r: "ui_rest M X A S ci cr endpoint tc w2 = (Inr res, tc1, w3)"
    and fin: "finish_reconcile M A schedule (ui_component M X A S ci endpoint) res cr tc1 w3 = out" by (rule ui_success_run)
  from laws fin ok obtain ds cr1 w4 where w4: "extends w3 w4" and
    ev: "events (out_world out) = events w4 @ [EList deployment_list_gvk [(KonfluxOwnerLabel, o_name cr)] (Inr ds), EStatusUpdate cr1 (Inr cr')]" and
    cr1: "o_name cr1 = o_name cr" "IsConditionTrue M cr1 TypeReady \<longleftrightarrow> list_all IsDeploymentReady ds"
      "\<And>s i. o_body cr = BKonfluxCR (UISpec s i) \<Longrightarrow> o_body cr1 = BKonfluxCR (UISpec s (Some
       \<lparr> ist_enabled = ptr_Deref (ing_enabled (GetIngress (ui_config s))) (on_openshift ci), ist_hostname = Hostname endpoint,
         ist_url = URL_String endpoint \<rparr>))" by (rule ui_finish) blast
  from ui_start_endpoint [OF s] obtain w1 where det: "DetermineEndpointURL A (ui_config (ui_spec_of cr)) uiNamespace ci w1 = (Inr endpoint, w2)" by blast
  have "extends w0 w2" "extends w2 w3"
    using ui_start_good [OF s] good_phaseD [OF good_ui_rest r] by (auto simp: good_step_def intro: tracked_phase_extends)
  with w4 have "extends w0 w4" by (blast intro: extends_trans)
  then have "EGet (konflux_gvk ''KonfluxUI'') ns name (Inr cr) \<in> set (events w4)" using k_call_events(1) [OF g] by (auto simp: extends_iff)
  with det ev cr1 show thesis by (intro that)
qed

text \<open>
  (C30) A successful reconcile of the user interface ends with an accepted status update of the fetched
  resource: its Ready condition says whether all listed Deployments are rolled out, and its ingress status
  names the endpoint determined in this reconcile (URL and host) and whether the Ingress is managed.
\<close>

theorem ui_success_reports_endpoint:
  assumes laws: "condition_laws M" and run: "ui_Reconcile M X A schedule S ci ns name w = out"
    and ok: "out_err out = None" "out_cr out = Some cr'"
  shows "\<exists>cr ds cr1 before endpoint w1 w2. events (out_world out) = before @
      [EList deployment_list_gvk [(KonfluxOwnerLabel, o_name cr)] (Inr ds), EStatusUpdate cr1 (Inr cr')] \<and>
    EGet (konflux_gvk ''KonfluxUI'') ns name (Inr cr) \<in> set before \<and> o_name cr1 = o_name cr \<and>
    (IsConditionTrue M cr1 TypeReady \<longleftrightarrow> list_all IsDeploymentReady ds) \<and>
    DetermineEndpointURL A (ui_config (ui_spec_of cr)) uiNamespace ci w1 = (Inr endpoint, w2) \<and>
    (\<forall>s i. o_body cr = BKonfluxCR (UISpec s i) \<longrightarrow> o_body cr1 = BKonfluxCR (UISpec s (Some
       \<lparr> ist_enabled = ptr_Deref (ing_enabled (GetIngress (ui_config s))) (on_openshift ci), ist_hostname = Hostname endpoint,
         ist_url = URL_String endpoint \<rparr>)))"
  by (rule ui_reported [OF assms])
    (intro exI conjI allI impI; assumption | blast)

text \<open>A cluster with nothing but a user interface of default spec, on which the reconcile succeeds.\<close>

definition ex_ui_cr :: kobj where
  "ex_ui_cr = new_object (konflux_gvk ''KonfluxUI'') [] uiCRName (BKonfluxCR (UISpec \<lparr> ui_config = UIConfigSpec, ui_componentMetrics = None \<rparr> None))"

definition ex_uapi :: "unit api" where
  "ex_uapi = \<lparr> api_get = (\<lambda>g ns n s. (if g = konflux_gvk ''KonfluxUI'' then Inr ex_ui_cr else Inl not_found, s)),
     api_list = (\<lambda>c lg sel s. (Inr [], s)), api_list_in = (\<lambda>ns lg sel s. (Inr [], s)),
     api_patch = (\<lambda>p opts obj s. (Inr obj, s)), api_create = (\<lambda>obj s. (Inr obj, s)), api_update = (\<lambda>obj s. (Inr obj, s)),
     api_delete = (\<lambda>c obj s. (None, s)), api_status_update = (\<lambda>obj s. (Inr obj, s)), api_create_or_update = (\<lambda>obj f s. (f obj, s)),
     api_create_token = (\<lambda>ns n seconds s. (Inl not_found, s)), api_now = (\<lambda>s. (0, s)) \<rparr>"

definition ex_ui_lib :: "merge_libs \<Rightarrow> url_lib \<Rightarrow> ui_lib" where
  "ex_ui_lib L U = \<lparr> ui_merge = L, ui_url = U, ui_rand = (\<lambda>n. Inr (replicate n 7)), ToYAML = (\<lambda>c. Inr (dc_issuer c)), konfluxLogoBase64 = [] \<rparr>"

definition ex_ui_run :: "merge_libs \<Rightarrow> url_lib \<Rightarrow> unit outcome" where
  "ex_ui_run L U = ui_Reconcile ref_machinery (ex_ui_lib L U) ex_uapi [] \<lparr> store_objects = [(UI, [])] \<rparr> None [] uiCRName \<lparr> cluster = (), events = [] \<rparr>"

lemma ex_ui_start: "\<exists>ep. ui_start ref_machinery ex_uapi \<lparr> store_objects = [(UI, [])] \<rparr> None ex_ui_cr tc w = (Inr ep, tc, w)"
  by (simp add: ui_start_def ui_ensureNamespaceExists_def GetForComponent_def deepCopyObjects_def DetermineEndpointURL_def ex_ui_cr_def new_object_def
      ui_spec_of_def UIConfigSpec_def GetIngress_def IngressSpec_def ptr_Deref_def on_openshift_def Let_def)

lemma ex_dex: "\<exists>n w'. reconcileDexConfigMap ref_machinery (ex_ui_lib L U) ex_uapi ci cr ep w = (Inr n, w')"
  by (simp add: reconcileDexConfigMap_def ex_ui_lib_def hashedconfigmap_Apply_def Let_def ref_machinery_def k_direct_patch_def cleanupOld_def
      k_list_in_def ex_uapi_def split: prod.splits)

lemma ex_segment: "\<exists>w'. reconcileSegmentSecret ref_machinery (ex_ui_lib L U) ex_uapi tc w = (Inr [], tc, w')"
  by (simp add: reconcileSegmentSecret_def k_get_def ex_uapi_def konflux_gvk_def mk_gvk_def not_found_def IgnoreNotFound_def IsNotFound_def)

lemma ex_ui_secret:
  assumes "ownership tc = Some cfg"
  shows "\<exists>x w'. ensureSecret ref_machinery (ex_ui_lib L U) ex_uapi name key n u tc w = (None, track ref_machinery x tc, w')"
proof -
  obtain owned where "SetOwnership ref_machinery tc (new_object (mk_gvk [] [] []) uiNamespace name (BSecret [] [])) = Inr owned"
    using ref_SetOwnership [OF assms] by blast
  then have "\<exists>x. mutate_ui_secret ref_machinery (ex_ui_lib L U) key n u tc (new_object (mk_gvk [] [] []) uiNamespace name (BSecret [] [])) = Inr x"
    by (auto simp: mutate_ui_secret_def generateRandomBytes_def ex_ui_lib_def split: prod.splits)
  then show ?thesis by (auto simp: ensureSecret_def CreateOrUpdate_def k_create_or_update_def ex_uapi_def)
qed

lemma ex_ui_secrets:
  assumes "ownership tc = Some cfg"
  shows "\<exists>tc' w'. ensureUISecrets ref_machinery (ex_ui_lib L U) ex_uapi tc w = (None, tc', w')"
proof -
  obtain x w1 where x: "ensureSecret ref_machinery (ex_ui_lib L U) ex_uapi oauth2ProxyClientSecretName ''client-secret'' 20 True tc w =
      (None, track ref_machinery x tc, w1)" using ex_ui_secret [OF assms] by blast
  have "ownership (track ref_machinery x tc) = Some cfg" using assms by (simp add: track_def)
  from ex_ui_secret [OF this] x show ?thesis by (simp add: ensureUISecrets_def) blast
qed

lemma ex_ui_rest:
  assumes "ownership tc = Some cfg"
  shows "\<exists>tc' w'. ui_rest ref_machinery (ex_ui_lib L U) ex_uapi \<lparr> store_objects = [(UI, [])] \<rparr> None ex_ui_cr ep tc w = (Inr no_requeue, tc', w')"
proof -
  obtain n w1 where d: "reconcileDexConfigMap ref_machinery (ex_ui_lib L U) ex_uapi None ex_ui_cr ep w = (Inr n, w1)" using ex_dex by blast
  obtain w2 where s: "reconcileSegmentSecret ref_machinery (ex_ui_lib L U) ex_uapi tc w1 = (Inr [], tc, w2)" using ex_segment by blast
  obtain tc' w' where u: "ensureUISecrets ref_machinery (ex_ui_lib L U) ex_uapi tc w2 = (None, tc', w')" using ex_ui_secrets [OF assms] by blast
  have "ui_applyManifests ref_machinery (ex_ui_lib L U) ex_uapi \<lparr> store_objects = [(UI, [])] \<rparr> spec ci a b ep tc w2 = (None, tc, w2)" for spec ci a b
    by (simp add: ui_applyManifests_def GetForComponent_def deepCopyObjects_def)
  moreover have "reconcileIngress ref_machinery (ex_ui_lib L U) ex_uapi None (ui_config (ui_spec_of ex_ui_cr)) ep tc w2 = (None, tc, w2)"
    by (simp add: reconcileIngress_def ex_ui_cr_def new_object_def ui_spec_of_def UIConfigSpec_def GetIngressEnabledPreference_def GetIngress_def
        IngressSpec_def ptr_Deref_def on_openshift_def)
  ultimately show ?thesis
    by (simp add: ui_rest_def value_then_def d owned_value_then_def s step_then_def u done_phase_def)
qed

lemma ex_ui_cleanup: "\<exists>w'. CleanupOrphans ref_machinery ex_uapi [] tc k v gvks opts w = (None, w')"
proof -
  have "\<exists>w'. cleanup_in_turn ref_machinery ex_uapi tc k v options gvks None w = (None, w')" for options w
    by (induction gvks arbitrary: w) (auto simp: cleanupOrphansForGVK_def k_list_def ex_uapi_def split: prod.splits)
  then show ?thesis by (simp add: CleanupOrphans_in_turn)
qed

lemma ex_ui_run: "out_err (ex_ui_run L U) = None" "\<exists>cr. out_cr (ex_ui_run L U) = Some cr"
proof -
  let ?w1 = "emit (EGet (konflux_gvk ''KonfluxUI'') [] uiCRName (Inr ex_ui_cr)) () \<lparr> cluster = (), events = [] \<rparr>"
  have g: "k_get ex_uapi (konflux_gvk ''KonfluxUI'') [] uiCRName \<lparr> cluster = (), events = [] \<rparr> = (Inr ex_ui_cr, ?w1)"
    by (simp add: k_get_def ex_uapi_def)
  obtain ep where s: "ui_start ref_machinery ex_uapi \<lparr> store_objects = [(UI, [])] \<rparr> None ex_ui_cr (ui_client ex_ui_cr) ?w1 = (Inr ep, ui_client ex_ui_cr, ?w1)"
    using ex_ui_start by blast
  have "ownership (ui_client ex_ui_cr) \<noteq> None" by (simp add: ui_client_def NewClientWithOwnership_def)
  then obtain tc w2 where r: "ui_rest ref_machinery (ex_ui_lib L U) ex_uapi \<lparr> store_objects = [(UI, [])] \<rparr> None ex_ui_cr ep (ui_client ex_ui_cr) ?w1 =
      (Inr no_requeue, tc, w2)" using ex_ui_rest by blast
  obtain w3 where c: "CleanupOrphans ref_machinery ex_uapi [] tc KonfluxOwnerLabel (o_name ex_ui_cr) UICleanupGVKs
      [WithClusterScopedAllowList UIClusterScopedAllowList] w2 = (None, w3)" using ex_ui_cleanup by blast
  have "\<exists>cr w4. UpdateComponentStatuses ref_machinery ex_uapi ex_ui_cr w3 = (Inr cr, w4)"
    by (simp add: UpdateComponentStatuses_def k_list_def ex_uapi_def case_prod_beta)
  then obtain cr w4 where u: "UpdateComponentStatuses ref_machinery ex_uapi ex_ui_cr w3 = (Inr cr, w4)" by blast
  show "out_err (ex_ui_run L U) = None" "\<exists>cr. out_cr (ex_ui_run L U) = Some cr"
    by (simp_all add: ex_ui_run_def ui_Reconcile_def g s r finish_reconcile_def ui_component_def c ui_status_def deployments_status_def u
        k_status_update_def ex_uapi_def [THEN arg_cong, of api_status_update])
qed

theorem ui_success_reports_endpoint_witness:
  "\<forall>L U. \<exists>(cr :: kobj) ds cr1 before cr'. events (out_world (ex_ui_run L U)) = before @
     [EList deployment_list_gvk [(KonfluxOwnerLabel, o_name cr)] (Inr ds), EStatusUpdate cr1 (Inr cr')] \<and>
   (IsConditionTrue ref_machinery cr1 TypeReady \<longleftrightarrow> list_all IsDeploymentReady ds)"
proof (intro allI)
  fix L U
  obtain cr' where cr': "out_cr (ex_ui_run L U) = Some cr'" using ex_ui_run(2) by blast
  from ui_success_reports_endpoint [OF ref_machinery_laws ex_ui_run_def [symmetric] ex_ui_run(1) cr'] obtain cr :: kobj and ds cr1 before where
    "events (out_world (ex_ui_run L U)) = before @
      [EList deployment_list_gvk [(KonfluxOwnerLabel, o_name cr)] (Inr ds), EStatusUpdate cr1 (Inr cr')]"
    "IsConditionTrue ref_machinery cr1 TypeReady \<longleftrightarrow> list_all IsDeploymentReady ds" by (elim exE conjE) rule
  then show "\<exists>(cr :: kobj) ds cr1 before cr'. events (out_world (ex_ui_run L U)) = before @
     [EList deployment_list_gvk [(KonfluxOwnerLabel, o_name cr)] (Inr ds), EStatusUpdate cr1 (Inr cr')] \<and>
   (IsConditionTrue ref_machinery cr1 TypeReady \<longleftrightarrow> list_all IsDeploymentReady ds)"
    by (intro exI [of _ cr] exI [of _ ds] exI [of _ cr1] exI [of _ before] exI [of _ cr'] conjI)
qed

end
