(* ===== verification/Info_Controller.thy ===== *)
theory Info_Controller
  imports User_Interface
begin

text \<open>
  The info controller (\<open>internal/controller/info\<close>): it publishes three ConfigMaps in the namespace
  \<open>konflux-info\<close>, the public information as JSON, the banner as YAML and the cluster configuration that
  pipelines read. The cluster facts come from \<open>pkg/clusterinfo\<close>. The version poller, a goroutine that wakes
  the controller through a channel, is a step relation.
\<close>

abbreviation infoNamespace :: string where "infoNamespace \<equiv> ''konflux-info''"
abbreviation infoCRName :: string where "infoCRName \<equiv> ''konflux-info''"
abbreviation infoConfigMapName :: string where "infoConfigMapName \<equiv> ''konflux-public-info''"
abbreviation bannerConfigMapName :: string where "bannerConfigMapName \<equiv> ''konflux-banner-configmap''"
abbreviation clusterConfigMapName :: string where "clusterConfigMapName \<equiv> ''cluster-config''"

section \<open>Facts about an OpenShift cluster\<close>

definition clusterVersionGVK :: gvk where
  "clusterVersionGVK = mk_gvk ''config.openshift.io'' ''v1'' ''ClusterVersion''"

text \<open>The parts of a \<open>configv1.ClusterVersion\<close> that are read: the cluster id and the states and versions of the history.\<close>

fun json_field :: "json \<Rightarrow> string \<Rightarrow> json" where
  "json_field (JObject fs) k = (case map_of fs k of Some v \<Rightarrow> v | None \<Rightarrow> JNull)"
| "json_field _ k = JNull"

fun json_items :: "json \<Rightarrow> json list" where
  "json_items (JArray xs) = xs"
| "json_items _ = []"

definition cluster_version :: "kobj \<Rightarrow> json" where
  "cluster_version obj = (case o_body obj of BOther t j \<Rightarrow> j | BUnstructured j \<Rightarrow> j | _ \<Rightarrow> JNull)"

definition version_history :: "kobj \<Rightarrow> (string \<times> string) list" where
  "version_history obj = map (\<lambda>e. (json_string_field e ''state'', json_string_field e ''version''))
     (json_items (json_field (json_field (cluster_version obj) ''status'') ''history''))"

definition ErrNoCompletedVersion :: go_error where
  "ErrNoCompletedVersion = NewError ''ClusterVersion has no completed version in status history''"

fun first_completed :: "nat \<Rightarrow> (string \<times> string) list \<Rightarrow> string result" where
  "first_completed i [] = Inl ErrNoCompletedVersion"
| "first_completed i ((state, version) # history) =
     (if state = ''Completed''
      then (if version = [] then Inl (NewError (''history['' @ show_nat i @ ''] has state=Completed but empty version field'')) else Inr version)
      else first_completed (Suc i) history)"

definition GetOpenShiftVersion :: "'s api \<Rightarrow> 's world \<Rightarrow> string result \<times> 's world" where
  "GetOpenShiftVersion A w = (case k_get A clusterVersionGVK [] ''version'' w of
     (Inl e, w') \<Rightarrow> (Inl e, w')
   | (Inr cv, w') \<Rightarrow> (first_completed 0 (version_history cv), w'))"

definition GetOpenShiftClusterID :: "'s api \<Rightarrow> 's world \<Rightarrow> string result \<times> 's world" where
  "GetOpenShiftClusterID A w = (case k_get A clusterVersionGVK [] ''version'' w of
     (Inl e, w') \<Rightarrow> (Inl e, w')
   | (Inr cv, w') \<Rightarrow> (let ident = json_string_field (json_field (cluster_version cv) ''spec'') ''clusterID''
       in if ident = [] then Inl (NewError ''ClusterVersion spec.clusterID is empty'') else Inr ident, w'))"

section \<open>The public information\<close>

record role_ref_json =
  rrj_apiGroup :: string
  rrj_kind :: string
  rrj_name :: string

record rbac_role_json =
  rrl_displayName :: string
  rrl_description :: string
  rrl_roleRef :: role_ref_json

record image_proxy_json =
  ip_url :: string
  ip_oauthPath :: string

record info_json =
  ij_environment :: string
  ij_visibility :: string
  ij_clusterId :: string
  ij_konfluxVersion :: string
  ij_kubernetesVersion :: string
  ij_openshiftVersion :: string
  ij_imageProxy :: "image_proxy_json option"
  ij_integrations :: "json option"
  ij_statusPageUrl :: string
  ij_rbac :: "rbac_role_json list"

definition cluster_role_ref :: "string \<Rightarrow> role_ref_json" where
  "cluster_role_ref name = \<lparr> rrj_apiGroup = ''rbac.authorization.k8s.io'', rrj_kind = ''ClusterRole'', rrj_name = name \<rparr>"

definition convertRBACRoles :: "rbac_role list \<Rightarrow> rbac_role_json list" where
  "convertRBACRoles roles = map (\<lambda>role. \<lparr> rrl_displayName = (if rb_displayName role = [] then rb_name role else rb_displayName role),
     rrl_description = rb_description role, rrl_roleRef = cluster_role_ref (rb_name role) \<rparr>) roles"

definition getDefaultRBACRoles :: "rbac_role_json list" where
  "getDefaultRBACRoles =
     [\<lparr> rrl_displayName = ''admin'', rrl_description = ''Full access to Konflux resources including secrets'',
        rrl_roleRef = cluster_role_ref ''konflux-admin-user-actions'' \<rparr>,
      \<lparr> rrl_displayName = ''maintainer'', rrl_description = ''Partial access to Konflux resources without access to secrets'',
        rrl_roleRef = cluster_role_ref ''konflux-maintainer-user-actions'' \<rparr>,
      \<lparr> rrl_displayName = ''contributor'', rrl_description = ''View access to Konflux resources without access to secrets'',
        rrl_roleRef = cluster_role_ref ''konflux-contributor-user-actions'' \<rparr>]"

definition applyInfoDefaults :: "string \<Rightarrow> public_info option \<Rightarrow> string \<Rightarrow> string \<Rightarrow> string \<Rightarrow> string \<Rightarrow> info_json" where
  "applyInfoDefaults konfluxVersion config k8sVersion openShiftVersion clusterId ingressDomain =
     (let info = \<lparr> ij_environment = ''development'', ij_visibility = ''public'', ij_clusterId = clusterId, ij_konfluxVersion = konfluxVersion,
            ij_kubernetesVersion = k8sVersion, ij_openshiftVersion = openShiftVersion,
            ij_imageProxy = (if ingressDomain \<noteq> [] then Some \<lparr> ip_url = ''https://image-rbac-proxy.'' @ ingressDomain, ip_oauthPath = ''/oauth'' \<rparr> else None),
            ij_integrations = None, ij_statusPageUrl = [], ij_rbac = getDefaultRBACRoles \<rparr>
      in case config of
           None \<Rightarrow> info
         | Some c \<Rightarrow> info\<lparr>
             ij_environment := (if pi_environment c \<noteq> [] then pi_environment c else ij_environment info),
             ij_visibility := (if pi_visibility c \<noteq> [] then pi_visibility c else ij_visibility info),
             ij_statusPageUrl := (if pi_statusPageUrl c \<noteq> [] then pi_statusPageUrl c else ij_statusPageUrl info),
             ij_rbac := (if pi_rbac c \<noteq> [] then convertRBACRoles (pi_rbac c) else getDefaultRBACRoles),
             ij_integrations := (if pi_integrations c \<noteq> None then pi_integrations c else ij_integrations info) \<rparr>)"

text \<open>The JSON value of an \<open>infoJSON\<close>, with the \<open>omitempty\<close> tags of its fields.\<close>

definition omitempty :: "string \<Rightarrow> string \<Rightarrow> (string \<times> json) list" where
  "omitempty k s = (if s = [] then [] else [(k, JString s)])"

definition role_json :: "rbac_role_json \<Rightarrow> json" where
  "role_json r = JObject [(''displayName'', JString (rrl_displayName r)), (''description'', JString (rrl_description r)),
     (''roleRef'', JObject [(''apiGroup'', JString (rrj_apiGroup (rrl_roleRef r))), (''kind'', JString (rrj_kind (rrl_roleRef r))),
       (''name'', JString (rrj_name (rrl_roleRef r)))])]"

definition info_value :: "info_json \<Rightarrow> json" where
  "info_value i = JObject ([(''environment'', JString (ij_environment i)), (''visibility'', JString (ij_visibility i))] @
     omitempty ''clusterId'' (ij_clusterId i) @ omitempty ''konfluxVersion'' (ij_konfluxVersion i) @
     omitempty ''kubernetesVersion'' (ij_kubernetesVersion i) @ omitempty ''openshiftVersion'' (ij_openshiftVersion i) @
     (case ij_imageProxy i of None \<Rightarrow> [] | Some p \<Rightarrow> [(''imageProxy'', JObject [(''url'', JString (ip_url p)), (''oauthPath'', JString (ip_oauthPath p))])]) @
     (case ij_integrations i of None \<Rightarrow> [] | Some j \<Rightarrow> [(''integrations'', j)]) @
     omitempty ''statusPageUrl'' (ij_statusPageUrl i) @
     (if ij_rbac i = [] then [] else [(''rbac'', JArray (map role_json (ij_rbac i)))]))"

text \<open>
  \<open>json.Encoder\<close> with \<open>SetEscapeHTML(false)\<close> and four spaces of indentation, on ASCII text; \<open>Encode\<close> adds a
  newline at the end.
\<close>

definition plain_json_char :: "char \<Rightarrow> string" where
  "plain_json_char c = (if c \<in> {CHR ''<'', CHR ''>'', CHR ''&''} then [c] else json_char c)"

definition plain_json_string :: "string \<Rightarrow> string" where
  "plain_json_string s = dquote # concat (map plain_json_char s) @ [dquote]"

definition new_line :: "nat \<Rightarrow> string" where
  "new_line d = CHR 0x0A # replicate (4 * d) (CHR '' '')"

fun encode_value :: "nat \<Rightarrow> json \<Rightarrow> string" where
  "encode_value d JNull = ''null''"
| "encode_value d (JBool b) = (if b then ''true'' else ''false'')"
| "encode_value d (JInt i) = show_int i"
| "encode_value d (JString s) = plain_json_string s"
| "encode_value d (JArray xs) = (if xs = [] then ''[]''
     else ''['' @ Join (map (\<lambda>x. new_line (Suc d) @ encode_value (Suc d) x) xs) '','' @ new_line d @ '']'')"
| "encode_value d (JObject kvs) = (if kvs = [] then ''{}''
     else ''{'' @ Join (map (\<lambda>kv. new_line (Suc d) @ plain_json_string (fst kv) @ '': '' @ encode_value (Suc d) (snd kv)) kvs) '',''
       @ new_line d @ ''}'')"

definition Encode :: "json \<Rightarrow> string" where
  "Encode j = encode_value 0 j @ [CHR 0x0A]"

definition trim_newlines :: "string \<Rightarrow> string" where
  "trim_newlines s = rev (dropWhile (\<lambda>c. c = CHR 0x0A) (rev s))"

definition generateInfoJSON :: "string \<Rightarrow> public_info option \<Rightarrow> string \<Rightarrow> string \<Rightarrow> string \<Rightarrow> string \<Rightarrow> string result" where
  "generateInfoJSON konfluxVersion config k8sVersion openShiftVersion clusterId ingressDomain =
     Inr (trim_newlines (Encode (info_value (applyInfoDefaults konfluxVersion config k8sVersion openShiftVersion clusterId ingressDomain))))"

section \<open>The ConfigMaps\<close>

text \<open>
  Code the controller only calls or reads: the version of the build, the YAML of banner items, and the
  values a discoverer finds (\<open>None\<close> for a nil discoverer).
\<close>

record info_lib =
  info_Version :: string
  MarshalBanners :: "json list \<Rightarrow> string result"
  DiscoverClusterConfig :: "cluster_config_data option"

definition info_spec_of :: "kobj \<Rightarrow> info_spec" where
  "info_spec_of cr = (case o_body cr of BKonfluxCR (KonfluxInfoSpec s) \<Rightarrow> s | _ \<Rightarrow> InfoSpec)"

definition generateBannerYAML :: "info_lib \<Rightarrow> json list option option \<Rightarrow> string result" where
  "generateBannerYAML X config = MarshalBanners X (case config of Some (Some items) \<Rightarrow> items | _ \<Rightarrow> [])"

definition info_config_map :: "string \<Rightarrow> smap \<Rightarrow> kobj" where
  "info_config_map name data = new_object (mk_gvk [] ''v1'' ''ConfigMap'') infoNamespace name (BConfigMap data)"

definition apply_config_map :: "machinery \<Rightarrow> 's api \<Rightarrow> kobj \<Rightarrow> 's op" where
  "apply_config_map M A configMap tc w = (case ApplyOwned M A configMap tc w of
     (Inl e, tc', w') \<Rightarrow> (Some (Errorf ''failed to apply ConfigMap'' e), tc', w')
   | (Inr x, tc', w') \<Rightarrow> (None, tc', w'))"

text \<open>The first part of \<open>reconcileInfoConfigMap\<close>: Kubernetes version, OpenShift version, cluster id and ingress domain.\<close>

definition cluster_facts :: "'s api \<Rightarrow> cluster_info option \<Rightarrow> 's world \<Rightarrow> (string \<times> string \<times> string \<times> string) result \<times> 's world" where
  "cluster_facts A ci w = (case ci of
     None \<Rightarrow> (Inr ([], [], [], []), w)
   | Some i \<Rightarrow>
       let k8sVersion = (case K8sVersion i of Inr (Some v) \<Rightarrow> v | _ \<Rightarrow> [])
       in if IsOpenShift i
          then (case GetOpenShiftVersion A w of
                  (Inl e, w1) \<Rightarrow> (Inl (Errorf ''failed to get OpenShift version'' e), w1)
                | (Inr openShiftVersion, w1) \<Rightarrow> (case GetOpenShiftClusterID A w1 of
                    (Inl e, w2) \<Rightarrow> (Inl (Errorf ''failed to get OpenShift cluster ID'' e), w2)
                  | (Inr clusterId, w2) \<Rightarrow> (case GetOpenShiftIngressDomain A w2 of
                      (Inl e, w3) \<Rightarrow> (Inr (k8sVersion, openShiftVersion, clusterId, []), w3)
                    | (Inr ingressDomain, w3) \<Rightarrow> (Inr (k8sVersion, openShiftVersion, clusterId, ingressDomain), w3))))
          else (case GetKubeSystemUID A w of
                  (Inl e, w1) \<Rightarrow> (Inl (Errorf ''failed to get kube-system UID for cluster ID'' e), w1)
                | (Inr clusterId, w1) \<Rightarrow> (Inr (k8sVersion, [], clusterId, []), w1)))"

definition reconcileInfoConfigMap :: "machinery \<Rightarrow> info_lib \<Rightarrow> 's api \<Rightarrow> cluster_info option \<Rightarrow> kobj \<Rightarrow> 's op" where
  "reconcileInfoConfigMap M X A ci info tc w = (case cluster_facts A ci w of
     (Inl e, w1) \<Rightarrow> (Some e, tc, w1)
   | (Inr (k8sVersion, openShiftVersion, clusterId, ingressDomain), w1) \<Rightarrow>
       (case generateInfoJSON (info_Version X) (publicInfo (info_spec_of info)) k8sVersion openShiftVersion clusterId ingressDomain of
          Inl e \<Rightarrow> (Some (Errorf (if publicInfo (info_spec_of info) = None then ''failed to generate default info.json''
                                   else ''failed to generate info.json'') e), tc, w1)
        | Inr infoJSON \<Rightarrow> apply_config_map M A (info_config_map infoConfigMapName [(''info.json'', infoJSON)]) tc w1))"

definition reconcileBannerConfigMap :: "machinery \<Rightarrow> info_lib \<Rightarrow> 's api \<Rightarrow> kobj \<Rightarrow> 's op" where
  "reconcileBannerConfigMap M X A info tc w = (case generateBannerYAML X (banner (info_spec_of info)) of
     Inl e \<Rightarrow> (Some (Errorf ''failed to generate banner-content.yaml'' e), tc, w)
   | Inr bannerYAML \<Rightarrow> apply_config_map M A (info_config_map bannerConfigMapName [(''banner-content.yaml'', bannerYAML)]) tc w)"

definition cluster_config :: "info_lib \<Rightarrow> info_spec \<Rightarrow> smap" where
  "cluster_config X spec = MergeOver (GetClusterConfigData spec) (case DiscoverClusterConfig X of None \<Rightarrow> ClusterConfigData | Some d \<Rightarrow> d)"

definition reconcileClusterConfigConfigMap :: "machinery \<Rightarrow> info_lib \<Rightarrow> 's api \<Rightarrow> kobj \<Rightarrow> 's op" where
  "reconcileClusterConfigConfigMap M X A info =
     apply_config_map M A (info_config_map clusterConfigMapName (cluster_config X (info_spec_of info)))"

definition info_applyManifests :: "machinery \<Rightarrow> 's api \<Rightarrow> object_store \<Rightarrow> 's op" where
  "info_applyManifests M A S = apply_manifests M A S Info ''failed to get manifests for Info'' keep_all"

definition info_apply :: "machinery \<Rightarrow> info_lib \<Rightarrow> 's api \<Rightarrow> object_store \<Rightarrow> cluster_info option \<Rightarrow> kobj \<Rightarrow> 's phase" where
  "info_apply M X A S ci cr =
     step_then (EnsureNamespaceExists M A S Info infoNamespace) ReasonNamespaceCreationFailed ''ensure namespace exists''
      (step_then (reconcileInfoConfigMap M X A ci cr) ReasonConfigMapFailed ''reconcile info ConfigMap''
        (step_then (reconcileBannerConfigMap M X A cr) ReasonConfigMapFailed ''reconcile banner ConfigMap''
          (step_then (reconcileClusterConfigConfigMap M X A cr) ReasonConfigMapFailed ''reconcile cluster-config ConfigMap''
            (step_then (info_applyManifests M A S) ReasonApplyFailed ''apply manifests'' (done_phase no_requeue)))))"

definition info_component :: "machinery \<Rightarrow> info_lib \<Rightarrow> 's api \<Rightarrow> object_store \<Rightarrow> cluster_info option \<Rightarrow> 's component_def" where
  "info_component M X A S ci = \<lparr> cmp_gvk = konflux_gvk ''KonfluxInfo'', cmp_component = component_name Info,
     cmp_fieldManager = ''konflux-info-controller'', cmp_cleanupGVKs = [], cmp_opts = [WithClusterScopedAllowList None],
     cmp_apply = info_apply M X A S ci, cmp_status = deployments_status M A \<rparr>"

definition enqueueKonfluxInfoForVersionChange :: "'s api \<Rightarrow> 's world \<Rightarrow> string list \<times> 's world" where
  "enqueueKonfluxInfoForVersionChange A w = (case k_list A False (konflux_gvk ''KonfluxInfoList'') [] w of
     (Inl e, w') \<Rightarrow> ([], w')
   | (Inr items, w') \<Rightarrow> (map o_name items, w'))"

section \<open>The laws of the reconcile\<close>

lemma good_apply_config_map [good_intros]: "good_op M (apply_config_map M A obj)"
  by (rule good_opI) (auto simp: apply_config_map_def split: prod.splits sum.splits dest!: ApplyOwned_good)

lemma cluster_facts_quiet: "cluster_facts A ci w = (r, w') \<Longrightarrow> emits quiet w w'"
  by (auto simp: cluster_facts_def GetOpenShiftVersion_def GetOpenShiftClusterID_def GetOpenShiftIngressDomain_def GetKubeSystemUID_def Let_def
      split: option.splits if_splits prod.splits sum.splits intro: emits_trans dest!: quiet_calls(1))

lemma good_reconcileInfoConfigMap [good_intros]: "good_op M (reconcileInfoConfigMap M X A ci info)"
proof (rule good_opI)
  fix tc w r tc' w'
  assume run: "reconcileInfoConfigMap M X A ci info tc w = (r, tc', w')"
  obtain f w1 where f: "cluster_facts A ci w = (f, w1)" by fastforce
  note step = good_step_quiet [OF cluster_facts_quiet [OF f], of M True tc]
  show "good_step M (r = None) tc w tc' w'"
  proof (cases f)
    case (Inl e)
    with run f step show ?thesis by (auto simp: reconcileInfoConfigMap_def good_step_def)
  next
    case (Inr facts)
    with run f obtain obj where "apply_config_map M A obj tc w1 = (r, tc', w')"
      by (auto simp: reconcileInfoConfigMap_def generateInfoJSON_def split: prod.splits)
    from good_step_trans [OF step good_opD [OF good_apply_config_map this]] show ?thesis .
  qed
qed

lemma good_reconcileBannerConfigMap [good_intros]: "good_op M (reconcileBannerConfigMap M X A info)"
  using good_apply_config_map [of M A] by (auto simp: good_op_def reconcileBannerConfigMap_def split: sum.splits)

lemma good_reconcileClusterConfigConfigMap [good_intros]: "good_op M (reconcileClusterConfigConfigMap M X A info)"
  unfolding reconcileClusterConfigConfigMap_def by (rule good_apply_config_map)

interpretation info: service_reconciler M "info_component M X A S ci" A for M X A S ci
proof (rule service_reconcilerI)
  show "good_phase M (cmp_apply (info_component M X A S ci) cr)" for cr
    unfolding info_component_def info_apply_def info_applyManifests_def component_def.simps by (intro good_intros)
qed (simp add: info_component_def)

section \<open>What a reconcile publishes\<close>

lemma step_then_ok:
  assumes "step_then f reason operation k tc w = (Inr res, tc', w')"
  obtains tc1 w1 where "f tc w = (None, tc1, w1)" "k tc1 w1 = (Inr res, tc', w')"
  using assms by (auto simp: step_then_def split: prod.splits option.splits)

text \<open>The object was sent, with the owner set, and accepted between the two worlds.\<close>

definition published :: "machinery \<Rightarrow> tracking_client \<Rightarrow> kobj \<Rightarrow> 's world \<Rightarrow> 's world \<Rightarrow> bool" where
  "published M tc obj w w' \<longleftrightarrow> (\<exists>sent opts x. SetOwnership M tc obj = Inr sent \<and> EPatch SSAPatch opts sent (Inr x) \<in> set (added w w'))"

lemma apply_config_map_publishes: "apply_config_map M A obj tc w = (None, tc', w') \<Longrightarrow> published M tc obj w w'"
  by (auto simp: apply_config_map_def published_def split: prod.splits sum.splits dest!: ApplyOwned_ok)

lemma published_later:
  assumes "published M tc1 obj w1 w2" and "ownership tc1 = ownership tc" and "extends w w1" "extends w1 w2" "extends w2 w3"
  shows "published M tc obj w w3"
proof -
  have "SetOwnership M tc1 = SetOwnership M tc" using assms(2) by (intro ext) (simp add: SetOwnership_def)
  with assms(1) added_subset [OF assms(3-5)] show ?thesis by (auto simp: published_def)
qed

lemma good_op_ran:
  assumes "good_op M f" and "f tc w = (r, tc', w')"
  shows "ownership tc' = ownership tc" and "extends w w'"
  using good_opD [OF assms] by (auto simp: good_step_def tracked_phase_def intro: emits_extends)

lemma info_apply_publishes:
  assumes run: "info_apply M X A S ci cr tc w = (Inr res, tc', w')"
  obtains w1 w2 k8s osv ident domain banners where "cluster_facts A ci w1 = (Inr (k8s, osv, ident, domain), w2)"
    "published M tc (info_config_map infoConfigMapName
       [(''info.json'', encode_value 0 (info_value (applyInfoDefaults (info_Version X) (publicInfo (info_spec_of cr)) k8s osv ident domain)))]) w w'"
    "generateBannerYAML X (banner (info_spec_of cr)) = Inr banners"
    "published M tc (info_config_map bannerConfigMapName [(''banner-content.yaml'', banners)]) w w'"
    "published M tc (info_config_map clusterConfigMapName (cluster_config X (info_spec_of cr))) w w'"
proof -
  from run obtain tc1 w1 tc2 w2 tc3 w3 tc4 w4 tc5 where
    n: "EnsureNamespaceExists M A S Info infoNamespace tc w = (None, tc1, w1)"
    and i: "reconcileInfoConfigMap M X A ci cr tc1 w1 = (None, tc2, w2)"
    and b: "reconcileBannerConfigMap M X A cr tc2 w2 = (None, tc3, w3)"
    and c: "reconcileClusterConfigConfigMap M X A cr tc3 w3 = (None, tc4, w4)"
    and m: "info_applyManifests M A S tc4 w4 = (None, tc5, w')"
    unfolding info_apply_def by (elim step_then_ok) (auto simp: done_phase_def)
  note ran = good_op_ran [OF good_EnsureNamespaceExists n] good_op_ran [OF good_reconcileInfoConfigMap i]
    good_op_ran [OF good_reconcileBannerConfigMap b] good_op_ran [OF good_reconcileClusterConfigConfigMap c]
    good_op_ran [OF good_apply_manifests m [unfolded info_applyManifests_def]]
  have x: "extends w1 w'" "extends w2 w'" "extends w3 w'" "extends w w1" "extends w w2" "extends w w3"
    using ran(2,4,6,8,10) by (blast intro: extends_trans)+
  from i obtain k8s osv ident domain wf where f: "cluster_facts A ci w1 = (Inr (k8s, osv, ident, domain), wf)"
    and p: "apply_config_map M A (info_config_map infoConfigMapName [(''info.json'', trim_newlines (Encode (info_value
      (applyInfoDefaults (info_Version X) (publicInfo (info_spec_of cr)) k8s osv ident domain))))]) tc1 wf = (None, tc2, w2)"
    by (auto simp: reconcileInfoConfigMap_def generateInfoJSON_def split: prod.splits sum.splits)
  have trim: "trim_newlines (Encode (info_value v)) = encode_value 0 (info_value v)" for v
    by (simp add: trim_newlines_def Encode_def info_value_def)
  from b obtain banners where y: "generateBannerYAML X (banner (info_spec_of cr)) = Inr banners"
    and q: "apply_config_map M A (info_config_map bannerConfigMapName [(''banner-content.yaml'', banners)]) tc2 w2 = (None, tc3, w3)"
    by (auto simp: reconcileBannerConfigMap_def split: sum.splits)
  note wf = emits_extends [OF cluster_facts_quiet [OF f]]
  note late = published_later [OF apply_config_map_publishes]
  have own: "ownership tc2 = ownership tc" "ownership tc3 = ownership tc" using ran by simp_all
  show thesis
  proof (rule that [OF f _ y])
    show "published M tc (info_config_map infoConfigMapName [(''info.json'', encode_value 0 (info_value
        (applyInfoDefaults (info_Version X) (publicInfo (info_spec_of cr)) k8s osv ident domain)))]) w w'"
      using late [OF p [unfolded trim] ran(1) extends_trans [OF ran(2) wf] good_op_ran(2) [OF good_apply_config_map p]] x(2) by blast
    show "published M tc (info_config_map bannerConfigMapName [(''banner-content.yaml'', banners)]) w w'"
      using late [OF q own(1) x(5) ran(6)] x(3) by blast
    show "published M tc (info_config_map clusterConfigMapName (cluster_config X (info_spec_of cr))) w w'"
      using late [OF c [unfolded reconcileClusterConfigConfigMap_def] own(2) x(6) ran(8) ran(10)] .
  qed
qed

lemma fresh_yield:
  "k \<noteq> k' \<Longrightarrow> k \<notin> fst ` set (yield_string k' v)"
  "k \<noteq> k' \<Longrightarrow> k \<notin> fst ` set rest \<Longrightarrow> k \<notin> fst ` set (yield_string k' v @ rest)"
  "k \<noteq> k' \<Longrightarrow> k \<notin> fst ` set rest \<Longrightarrow> k \<notin> fst ` set (yield_option k' b @ rest)"
  by (auto simp: yield_string_def yield_option_def split: option.splits)

lemma distinct_yield:
  "distinct (map fst (yield_string k v))"
  "k \<notin> fst ` set rest \<Longrightarrow> distinct (map fst rest) \<Longrightarrow> distinct (map fst (yield_string k v @ rest))"
  "k \<notin> fst ` set rest \<Longrightarrow> distinct (map fst rest) \<Longrightarrow> distinct (map fst (yield_option k b @ rest))"
  by (auto simp: yield_string_def yield_option_def split: option.splits)

lemma ClusterConfig_All_distinct: "distinct (map fst (ClusterConfig_All d))"
  unfolding ClusterConfig_All_def by (intro distinct_yield fresh_yield; simp)

lemma cluster_config_lookup: "map_of (cluster_config X spec) k =
    (case map_of (ClusterConfig_All (GetClusterConfigData spec)) k of
       Some v \<Rightarrow> Some v
     | None \<Rightarrow> (case DiscoverClusterConfig X of None \<Rightarrow> None | Some d \<Rightarrow> map_of (ClusterConfig_All d) k))"
proof -
  have "ClusterConfig_All ClusterConfigData = []"
    by (simp add: ClusterConfig_All_def ClusterConfigData_def yield_string_def yield_option_def)
  then show ?thesis
    by (simp add: cluster_config_def MergeOver_lookup map_of_rev_distinct [OF ClusterConfig_All_distinct] split: option.splits)
qed

text \<open>
  (C31) A successful reconcile of the info resource has published the three ConfigMaps for the spec it fetched:
  the public information with the facts read from the cluster, the banner, and a cluster configuration in
  which a key has the user's value if the user set it, otherwise the discovered one, and is absent if
  neither set it.
\<close>

theorem info_publishes_config:
  assumes run: "component_reconcile M A schedule (info_component M X A S ci) ns name w = out" and ok: "out_err out = None" "out_cr out = Some cr'"
  shows "\<exists>cr k8s osv ident domain banners w1 w2 data. EGet (konflux_gvk ''KonfluxInfo'') ns name (Inr cr) \<in> set (added w (out_world out)) \<and>
    cluster_facts A ci w1 = (Inr (k8s, osv, ident, domain), w2) \<and>
    published M (component_client (info_component M X A S ci) cr) (info_config_map infoConfigMapName [(''info.json'', encode_value 0
      (info_value (applyInfoDefaults (info_Version X) (publicInfo (info_spec_of cr)) k8s osv ident domain)))]) w (out_world out) \<and>
    generateBannerYAML X (banner (info_spec_of cr)) = Inr banners \<and>
    published M (component_client (info_component M X A S ci) cr)
      (info_config_map bannerConfigMapName [(''banner-content.yaml'', banners)]) w (out_world out) \<and>
    published M (component_client (info_component M X A S ci) cr) (info_config_map clusterConfigMapName data) w (out_world out) \<and>
    (\<forall>k. map_of data k = (case map_of (ClusterConfig_All (GetClusterConfigData (info_spec_of cr))) k of
       Some v \<Rightarrow> Some v
     | None \<Rightarrow> (case DiscoverClusterConfig X of None \<Rightarrow> None | Some d \<Rightarrow> map_of (ClusterConfig_All d) k)))"
proof -
  let ?K = "info_component M X A S ci"
  from run ok obtain cr w1 where g: "k_get A (cmp_gvk ?K) ns name w = (Inr cr, w1)"
    by (auto simp: component_reconcile_def split: prod.splits sum.splits)
  obtain r tc w2 where a: "cmp_apply ?K cr (component_client ?K cr) w1 = (r, tc, w2)" by (metis prod_cases3)
  from run g a ok(1) obtain res where r: "r = Inr res"
    by (cases r) (auto simp: component_reconcile_def reconcile_fetched_def HandleWithReason_def split: prod.splits)
  from run g a r have "out = finish_reconcile M A schedule ?K res cr tc w2" by (simp add: component_reconcile_def reconcile_fetched_def)
  then have x: "extends w2 (out_world out)" by (simp add: finish_extends info_component_def)
  have "info_apply M X A S ci cr (component_client ?K cr) w1 = (Inr res, tc, w2)" using a r by (simp add: info_component_def)
  note pub = info_apply_publishes [OF this]
  have y: "extends w w1" "extends w1 w2" using k_call_extends(1) [OF g] emits_extends [OF info.no_cleanup [OF a]] .
  note late = published_later [OF _ refl y x]
  have "EGet (cmp_gvk ?K) ns name (Inr cr) \<in> set (added w w1)" using k_call_added(1) [OF g] by simp
  then have "EGet (konflux_gvk ''KonfluxInfo'') ns name (Inr cr) \<in> set (added w (out_world out))"
    using added_subset [OF extends_refl y(1) extends_trans [OF y(2) x]] by (auto simp: info_component_def)
  with cluster_config_lookup show ?thesis by (rule_tac pub) (blast intro: late)
qed

text \<open>A cluster with an info resource whose user sets an HTTP proxy.\<close>

definition ex_info_cr :: kobj where
  "ex_info_cr = new_object (konflux_gvk ''KonfluxInfo'') [] infoCRName (BKonfluxCR (KonfluxInfoSpec (InfoSpec\<lparr> clusterConfig :=
     Some (Some (ClusterConfigData\<lparr> httpProxy := ''proxy:3128'' \<rparr>)) \<rparr>)))"

definition ex_iapi :: "unit api" where
  "ex_iapi = ex_uapi\<lparr> api_get := (\<lambda>g ns n s. (Inr ex_info_cr, s)) \<rparr>"

definition ex_info_lib :: info_lib where
  "ex_info_lib = \<lparr> info_Version = ''v1'', MarshalBanners = (\<lambda>items. Inr ''[]''),
     DiscoverClusterConfig = Some (ClusterConfigData\<lparr> httpProxy := ''other:80'', rekorInternalUrl := ''https://rekor'' \<rparr>) \<rparr>"

definition ex_info_component :: "unit component_def" where
  "ex_info_component = info_component ref_machinery ex_info_lib ex_iapi \<lparr> store_objects = [(Info, [])] \<rparr> None"

definition ex_info_run :: "unit outcome" where
  "ex_info_run = component_reconcile ref_machinery ex_iapi [] ex_info_component [] infoCRName \<lparr> cluster = (), events = [] \<rparr>"

lemma ex_iapi_calls:
  "api_get ex_iapi = (\<lambda>g ns n s. (Inr ex_info_cr, s))" "api_list ex_iapi = (\<lambda>c lg sel s. (Inr [], s))"
  "api_patch ex_iapi = (\<lambda>p opts obj s. (Inr obj, s))" "api_status_update ex_iapi = (\<lambda>obj s. (Inr obj, s))"
  by (simp_all add: ex_iapi_def ex_uapi_def)

lemma ex_info_publish:
  assumes "ownership tc = Some cfg"
  shows "\<exists>tc' w'. apply_config_map ref_machinery ex_iapi obj tc w = (None, tc', w') \<and> ownership tc' = Some cfg"
proof -
  obtain owned where "SetOwnership ref_machinery tc obj = Inr owned" using ref_SetOwnership [OF assms] by blast
  then show ?thesis
    using assms by (simp add: apply_config_map_def ApplyOwned_def ApplyObject_def k_patch_def ex_iapi_calls track_def)
qed

lemma ex_info_apply:
  assumes own: "ownership tc = Some cfg"
  shows "\<exists>tc' w'. cmp_apply ex_info_component ex_info_cr tc w = (Inr no_requeue, tc', w')"
proof -
  have n: "EnsureNamespaceExists ref_machinery ex_iapi \<lparr> store_objects = [(Info, [])] \<rparr> Info infoNamespace tc w = (None, tc, w)" for tc w
    by (simp add: EnsureNamespaceExists_def GetForComponent_def deepCopyObjects_def)
  have m: "info_applyManifests ref_machinery ex_iapi \<lparr> store_objects = [(Info, [])] \<rparr> tc w = (None, tc, w)" for tc w
    by (simp add: info_applyManifests_def apply_manifests_def GetForComponent_def deepCopyObjects_def)
  obtain tc1 w1 where i: "reconcileInfoConfigMap ref_machinery ex_info_lib ex_iapi None ex_info_cr tc w = (None, tc1, w1)" "ownership tc1 = Some cfg"
    using ex_info_publish [OF own] by (simp add: reconcileInfoConfigMap_def cluster_facts_def generateInfoJSON_def) blast
  obtain tc2 w2 where b: "reconcileBannerConfigMap ref_machinery ex_info_lib ex_iapi ex_info_cr tc1 w1 = (None, tc2, w2)" "ownership tc2 = Some cfg"
    using ex_info_publish [OF i(2)] by (simp add: reconcileBannerConfigMap_def generateBannerYAML_def ex_info_lib_def) blast
  obtain tc3 w3 where c: "reconcileClusterConfigConfigMap ref_machinery ex_info_lib ex_iapi ex_info_cr tc2 w2 = (None, tc3, w3)"
    using ex_info_publish [OF b(2)] unfolding reconcileClusterConfigConfigMap_def by blast
  show ?thesis
    by (simp add: ex_info_component_def info_component_def info_apply_def step_then_def n i b c m done_phase_def)
qed

lemma ex_info_run: "out_err ex_info_run = None" "\<exists>cr. out_cr ex_info_run = Some cr"
proof -
  have own: "ownership (component_client ex_info_component ex_info_cr) \<noteq> None" by (simp add: component_client_def NewClientWithOwnership_def)
  have g: "\<exists>w1. k_get ex_iapi (cmp_gvk ex_info_component) [] infoCRName \<lparr> cluster = (), events = [] \<rparr> = (Inr ex_info_cr, w1)"
    by (simp add: k_get_def ex_iapi_calls)
  then obtain w1 where g: "k_get ex_iapi (cmp_gvk ex_info_component) [] infoCRName \<lparr> cluster = (), events = [] \<rparr> = (Inr ex_info_cr, w1)" by blast
  from own ex_info_apply obtain tc w2 where
    a: "cmp_apply ex_info_component ex_info_cr (component_client ex_info_component ex_info_cr) w1 = (Inr no_requeue, tc, w2)" by blast
  have c: "CleanupOrphans ref_machinery ex_iapi [] tc k v (cmp_cleanupGVKs ex_info_component) opts w2 = (None, w2)" for k v opts
    by (simp add: CleanupOrphans_in_turn ex_info_component_def info_component_def)
  have "\<exists>cr w3. UpdateComponentStatuses ref_machinery ex_iapi ex_info_cr w2 = (Inr cr, w3)"
    by (simp add: UpdateComponentStatuses_def k_list_def ex_iapi_calls case_prod_beta)
  then obtain cr w3 where u: "UpdateComponentStatuses ref_machinery ex_iapi ex_info_cr w2 = (Inr cr, w3)" by blast
  have s: "cmp_status ex_info_component = deployments_status ref_machinery ex_iapi" by (simp add: ex_info_component_def info_component_def)
  show "out_err ex_info_run = None" "\<exists>cr. out_cr ex_info_run = Some cr"
    by (simp_all add: ex_info_run_def component_reconcile_def reconcile_fetched_def g a finish_reconcile_def c s deployments_status_def u
        k_status_update_def ex_iapi_calls)
qed

theorem info_publishes_config_witness:
  "out_err ex_info_run = None \<and> (\<exists>cr data. published ref_machinery (component_client ex_info_component cr)
     (info_config_map clusterConfigMapName data) \<lparr> cluster = (), events = [] \<rparr> (out_world ex_info_run))"
proof -
  obtain cr' where cr': "out_cr ex_info_run = Some cr'" using ex_info_run(2) by blast
  from info_publishes_config [OF ex_info_run_def [unfolded ex_info_component_def, symmetric] ex_info_run(1) cr'] ex_info_run(1)
  show ?thesis unfolding ex_info_component_def by blast
qed

text \<open>The key that both the user and the discoverer set has the user's value.\<close>

lemma ex_cluster_config:
  "map_of (cluster_config ex_info_lib (info_spec_of ex_info_cr)) ''http-proxy'' = Some ''proxy:3128''"
  "map_of (cluster_config ex_info_lib (info_spec_of ex_info_cr)) ''rekorInternalUrl'' = Some ''https://rekor''"
  by (simp_all add: cluster_config_lookup ex_info_lib_def ex_info_cr_def new_object_def info_spec_of_def GetClusterConfigData_def InfoSpec_def
      ClusterConfigData_def ClusterConfig_All_def yield_string_def yield_option_def)

section \<open>The running OpenShift version\<close>

text \<open>The version of the first completed entry of the history: an upgrade that is still rolling out is not reported.\<close>

lemma first_completed_iff: "first_completed i history = Inr v \<longleftrightarrow> v \<noteq> [] \<and>
    (\<exists>newer older. history = newer @ (''Completed'', v) # older \<and> list_all (\<lambda>e. fst e \<noteq> ''Completed'') newer)"
proof (induction i history rule: first_completed.induct)
  case (2 i state version history)
  let ?first = "\<lambda>h. \<exists>newer older. h = newer @ (''Completed'', v) # older \<and> list_all (\<lambda>e. fst e \<noteq> ''Completed'') newer"
  have "?first ((state, version) # history) \<longleftrightarrow> (state, version) = (''Completed'', v) \<or> state \<noteq> ''Completed'' \<and> ?first history" (is "?l = ?r")
  proof
    assume ?l
    then obtain newer older where h: "(state, version) # history = newer @ (''Completed'', v) # older"
      "list_all (\<lambda>e. fst e \<noteq> ''Completed'') newer" by blast
    then show ?r by (cases newer) auto
  next
    assume ?r
    then consider "(state, version) = (''Completed'', v)" | newer older where "state \<noteq> ''Completed''"
      "history = newer @ (''Completed'', v) # older" "list_all (\<lambda>e. fst e \<noteq> ''Completed'') newer" by blast
    then show ?l
    proof cases
      case 1
      then show ?thesis by (intro exI [of _ "[]"] exI [of _ history]) simp
    next
      case 2
      then show ?thesis by (intro exI [of _ "(state, version) # newer"] exI [of _ older]) simp
    qed
  qed
  with 2 show ?case by auto
qed simp

section \<open>The version poller\<close>

text \<open>
  The state of \<open>VersionPoller.Start\<close>: the last version seen and whether the channel, which holds one event,
  is full. A tick that sees another version sends an event; when the channel is full it sends none, so
  that the poller never blocks. \<open>poll_start\<close> and \<open>poll_tick\<close> take the answer of the version request.
\<close>

record poller =
  lastVersion :: string
  channel_full :: bool

definition poll_start :: "string option result \<Rightarrow> poller" where
  "poll_start answer = \<lparr> lastVersion = (case answer of Inr (Some v) \<Rightarrow> v | _ \<Rightarrow> []), channel_full = False \<rparr>"

definition poll_tick :: "string option result \<Rightarrow> poller \<Rightarrow> poller" where
  "poll_tick answer p = (case answer of
     Inl e \<Rightarrow> p
   | Inr None \<Rightarrow> p
   | Inr (Some v) \<Rightarrow> if v \<noteq> lastVersion p then p\<lparr> lastVersion := v, channel_full := True \<rparr> else p)"

text \<open>
  Ticks interleave with the controller taking the event. The second component of the state is the version the
  poller knew when the controller was last woken (or started).
\<close>

inductive poller_step :: "poller \<times> string \<Rightarrow> poller \<times> string \<Rightarrow> bool" where
  tick: "poller_step (p, woken) (poll_tick answer p, woken)"
| wake: "channel_full p \<Longrightarrow> poller_step (p, woken) (p\<lparr> channel_full := False \<rparr>, lastVersion p)"

inductive_cases poller_stepE: "poller_step s s'"

text \<open>
  (C32) No version change is lost: in every reachable state either an event waits for the controller or the
  controller was woken after the last change the poller saw.
\<close>

theorem version_change_not_lost:
  assumes "poller_step\<^sup>*\<^sup>* (poll_start answer, lastVersion (poll_start answer)) (p, woken)"
  shows "channel_full p \<or> woken = lastVersion p"
proof -
  define good where "good s \<longleftrightarrow> channel_full (fst s) \<or> snd s = lastVersion (fst s)" for s :: "poller \<times> string"
  have step: "poller_step s s' \<Longrightarrow> good s \<Longrightarrow> good s'" for s s'
    by (erule poller_stepE) (auto simp: good_def poll_tick_def split: sum.splits option.splits)
  from assms have "good (poll_start answer, lastVersion (poll_start answer)) \<Longrightarrow> good (p, woken)"
    by (induction rule: rtranclp_induct) (use step in auto)
  then show ?thesis by (simp add: good_def)
qed

theorem version_change_not_lost_witness:
  "let p = poll_tick (Inr (Some ''v1.31'')) (poll_start (Inr (Some ''v1.30''))) in lastVersion p = ''v1.31'' \<and> channel_full p"
proof -
  let ?s = "poll_start (Inr (Some ''v1.30''))" and ?p = "poll_tick (Inr (Some ''v1.31'')) (poll_start (Inr (Some ''v1.30'')))"
  have "poller_step\<^sup>*\<^sup>* (?s, lastVersion ?s) (?p, lastVersion ?s)" by (blast intro: tick)
  from version_change_not_lost [OF this] show ?thesis by (simp add: poll_tick_def poll_start_def)
qed

end
