(* ===== verification/Operand_Metrics.thy ===== *)
theory Operand_Metrics
  imports Operands
begin

text \<open>
  What the operand controllers do with metrics scrape resources, across their steps: the manifests loop
  of \<open>Operands\<close> and the scrape reconcile of \<open>Scrape_Token\<close>. Every patch a reconcile sends is traced back to
  a manifest, and a ServiceMonitor among them is only sent once Prometheus can use it.
\<close>

section \<open>Customisations keep the kind of an object\<close>

definition same_kind :: "kobj \<Rightarrow> kobj \<Rightarrow> bool" where
  "same_kind obj obj' \<longleftrightarrow> IsComponentMetricsServiceMonitor obj' = IsComponentMetricsServiceMonitor obj \<and>
     IsComponentMetricsScrapeResource obj' = IsComponentMetricsScrapeResource obj"

lemma same_kind_refl [simp]: "same_kind obj obj"
  by (simp add: same_kind_def)

lemma same_kind_trans: "same_kind a b \<Longrightarrow> same_kind b c \<Longrightarrow> same_kind a c"
  by (simp add: same_kind_def)

text \<open>The classification reads the kind, the name, the annotations and the type of a Secret.\<close>

definition secret_type :: "body \<Rightarrow> string option" where
  "secret_type b = (case b of BSecret t d \<Rightarrow> Some t | BUnstructured j \<Rightarrow> Some (json_string_field j ''type'') | _ \<Rightarrow> None)"

lemma scrape_resource_cong:
  assumes "objectGroupVersionKind obj' = objectGroupVersionKind obj" and "o_name obj' = o_name obj"
    and "o_annotations obj' = o_annotations obj" and "secret_type (o_body obj') = secret_type (o_body obj)"
  shows "same_kind obj obj'"
proof -
  have inner: "(case b of BSecret t d \<Rightarrow> if t \<noteq> x then False else y | BUnstructured j \<Rightarrow> json_string_field j ''type'' = x \<and> y | _ \<Rightarrow> False) =
      (case secret_type b of None \<Rightarrow> False | Some t \<Rightarrow> t = x \<and> y)" for b x y
    by (cases b) (simp_all add: secret_type_def)
  show ?thesis
    unfolding same_kind_def IsComponentMetricsServiceMonitor_def IsComponentMetricsScrapeResource_def Let_def
    by (simp only: inner assms simp_thms)
qed

lemma body_same_kind:
  assumes "objectGroupVersionKind (obj\<lparr> o_body := b \<rparr>) = objectGroupVersionKind obj" and "secret_type b = secret_type (o_body obj)"
  shows "same_kind obj (obj\<lparr> o_body := b \<rparr>)"
  using assms by (intro scrape_resource_cong) simp_all

lemma customize_deployment_kind:
  assumes "customize_deployment f obj = Inr obj'"
  shows "same_kind obj obj'"
proof (cases "o_body obj")
  case (BDeployment d)
  with assms obtain d' where "obj' = obj\<lparr> o_body := BDeployment d' \<rparr>" by (auto simp: customize_deployment_def split: sum.splits)
  with BDeployment show ?thesis by (simp add: body_same_kind objectGroupVersionKind_def secret_type_def)
qed (use assms in \<open>auto simp: customize_deployment_def\<close>)

lemma customize_cronjob_kind:
  assumes "customize_cronjob f obj = Inr obj'"
  shows "same_kind obj obj'"
proof (cases "o_body obj")
  case (BCronJob cj)
  with assms obtain cj' where "obj' = obj\<lparr> o_body := BCronJob cj' \<rparr>" by (auto simp: customize_cronjob_def split: sum.splits)
  with BCronJob show ?thesis by (simp add: body_same_kind objectGroupVersionKind_def secret_type_def)
qed (use assms in \<open>auto simp: customize_cronjob_def\<close>)

lemma customize_pipeline_config_kind:
  assumes "customize_pipeline_config Y spec obj = Inr obj'"
  shows "same_kind obj obj'"
proof (cases "o_body obj")
  case (BConfigMap d)
  with assms have "obj' = obj \<or> (\<exists>d'. obj' = obj\<lparr> o_body := BConfigMap d' \<rparr>)"
    by (auto simp: customize_pipeline_config_def split: sum.splits if_splits)
  with BConfigMap show ?thesis by (auto simp: body_same_kind objectGroupVersionKind_def secret_type_def)
qed (use assms in \<open>auto simp: customize_pipeline_config_def\<close>)

lemma release_config_kind:
  assumes "isReleaseServiceConfig obj" and "applyReleaseServiceConfigCustomizations spec obj = Inr obj'"
  shows "same_kind obj obj'"
proof -
  have g: "Group (o_gvk obj) = ''appstudio.redhat.com''" using assms(1) by (simp add: isReleaseServiceConfig_def releaseServiceConfigGVK_def mk_gvk_def)
  have "o_gvk obj' = o_gvk obj"
    using assms(2) by (cases "o_body obj") (auto simp: applyReleaseServiceConfigCustomizations_def Let_def)
  moreover have "\<not> IsComponentMetricsServiceMonitor o' \<and> \<not> IsComponentMetricsScrapeResource o'" if "o_gvk o' = o_gvk obj" for o'
  proof -
    have "\<not> gvk_Empty (o_gvk obj)" using g by (auto simp: gvk_Empty_def mk_gvk_def)
    then have k: "objectGroupVersionKind o' = o_gvk obj" by (simp add: objectGroupVersionKind_def that)
    have ne: "Group (o_gvk obj) \<noteq> Group serviceMonitorGVK" "Group (o_gvk obj) \<noteq> Group clusterRoleGVK" "Group (o_gvk obj) \<noteq> []"
      by (simp_all add: g serviceMonitorGVK_def clusterRoleGVK_def mk_gvk_def)
    show ?thesis by (simp only: IsComponentMetricsServiceMonitor_def IsComponentMetricsScrapeResource_def k Let_def ne if_False simp_thms)
  qed
  ultimately show ?thesis by (simp add: same_kind_def)
qed

lemma integration_customize_kind: "integration_customize L spec url obj = Inr (Some obj') \<Longrightarrow> same_kind obj obj'"
  unfolding integration_customize_def
  by (auto split: sum.splits dest!: customize_deployment_kind customize_cronjob_kind intro: same_kind_trans)

lemma build_customize_kind: "build_customize L Y spec ci cm obj = Inr (Some obj') \<Longrightarrow> same_kind obj obj'"
  unfolding build_customize_def
  by (auto split: sum.splits if_splits dest!: customize_deployment_kind customize_pipeline_config_kind intro: same_kind_trans)

lemma release_customize_kind: "release_customize L spec obj = Inr (Some obj') \<Longrightarrow> same_kind obj obj'"
  unfolding release_customize_def
  by (auto split: sum.splits if_splits dest!: customize_deployment_kind dest: release_config_kind intro: same_kind_trans)

lemma image_customize_kind: "image_customize L spec obj = Inr (Some obj') \<Longrightarrow> same_kind obj obj'"
  unfolding image_customize_def
  by (auto split: sum.splits dest!: customize_deployment_kind customize_cronjob_kind intro: same_kind_trans)

section \<open>What an operand controller applies\<close>

text \<open>
  The objects of the manifests loop: no ServiceMonitor, and with metrics disabled no scrape resource.
  Namespaces come from the store with their own kind, as the parser of the manifests types them.
\<close>

definition apply_allowed :: "component_metrics_config option \<Rightarrow> kobj \<Rightarrow> bool" where
  "apply_allowed metrics obj \<longleftrightarrow> \<not> IsComponentMetricsServiceMonitor obj \<and> (IsEnabled metrics \<or> \<not> IsComponentMetricsScrapeResource obj)"

definition namespaces_typed :: "object_store \<Rightarrow> bool" where
  "namespaces_typed S \<longleftrightarrow> (\<forall>c objs obj. GetForComponent S c = Inr objs \<longrightarrow> obj \<in> set objs \<longrightarrow> o_body obj = BNamespace \<longrightarrow>
     o_gvk obj = mk_gvk [] ''v1'' ''Namespace'')"

lemma service_monitor_is_scrape: "IsComponentMetricsServiceMonitor obj \<Longrightarrow> IsComponentMetricsScrapeResource obj"
  by (simp add: IsComponentMetricsServiceMonitor_def IsComponentMetricsScrapeResource_def Let_def)

lemma SetBindingSubjects_kind:
  assumes "SetBindingSubjects obj ss = Inr obj'"
  shows "same_kind obj obj'"
proof (cases "o_body obj")
  case (BClusterRoleBinding rr ss')
  with assms show ?thesis by (auto simp: SetBindingSubjects_def body_same_kind objectGroupVersionKind_def secret_type_def)
next
  case (BUnstructured j)
  have "json_string_field (json_put ''subjects'' v j) ''type'' = json_string_field j ''type''" for v
    by (cases j) (simp_all add: update_conv')
  with assms BUnstructured show ?thesis by (auto simp: SetBindingSubjects_def body_same_kind objectGroupVersionKind_def secret_type_def)
qed (use assms in \<open>simp_all add: SetBindingSubjects_def\<close>)

lemma binding_subjects_allowed:
  assumes "ApplyMetricsScraperBindingSubjects ns obj = Inr obj'" and "apply_allowed metrics obj"
  shows "apply_allowed metrics obj'"
proof -
  have "same_kind obj obj'"
    using assms(1) SetBindingSubjects_kind [of obj "MetricsScraperBindingSubjects ns" obj']
    by (cases "HasMetricsScraperBindingAnnotation obj") (simp_all add: ApplyMetricsScraperBindingSubjects_def)
  with assms(2) show ?thesis by (simp add: apply_allowed_def same_kind_def)
qed

lemma operand_prepare_allowed:
  assumes "\<And>obj obj'. customize obj = Inr (Some obj') \<Longrightarrow> same_kind obj obj'" and "env_TokenCreator env \<noteq> None"
    and "operand_prepare metrics env ns customize obj = Inr (Some obj')"
  shows "apply_allowed metrics obj'"
proof -
  from assms(3) obtain obj1 where o1: "customize obj = Inr (Some obj1)" "ApplyMetricsScraperBindingSubjects ns obj1 = Inr obj'"
    and allowed: "apply_allowed metrics obj"
    using assms(2) service_monitor_is_scrape [of obj]
    by (auto simp: operand_prepare_def Let_def apply_allowed_def split: if_splits sum.splits option.splits)
  from allowed assms(1) [OF o1(1)] have "apply_allowed metrics obj1" by (simp add: apply_allowed_def same_kind_def)
  with o1(2) show ?thesis by (rule binding_subjects_allowed)
qed

lemma core_kind_allowed:
  assumes "o_gvk obj = mk_gvk [] ''v1'' k" and "k = ''Namespace'' \<or> k = ''ConfigMap''"
  shows "apply_allowed metrics obj"
proof -
  have k: "objectGroupVersionKind obj = mk_gvk [] ''v1'' k" using assms by (auto simp: objectGroupVersionKind_def gvk_Empty_def mk_gvk_def)
  have ne: "[] \<noteq> Group serviceMonitorGVK" "[] \<noteq> Group clusterRoleGVK" "k \<noteq> Kind serviceAccountGVK" "k \<noteq> Kind secretGVK"
    "Group (mk_gvk [] ''v1'' k) = []" "Kind (mk_gvk [] ''v1'' k) = k"
    using assms(2) by (auto simp: serviceMonitorGVK_def clusterRoleGVK_def serviceAccountGVK_def secretGVK_def mk_gvk_def)
  show ?thesis
    by (simp only: apply_allowed_def IsComponentMetricsServiceMonitor_def IsComponentMetricsScrapeResource_def k Let_def ne if_False if_True simp_thms)
qed

lemma patch_op_EnsureTrustedCA: "patch_op M (apply_allowed metrics) (EnsureTrustedCAConfigMap M A ns ci)"
proof -
  have "apply_allowed metrics ((new_object (mk_gvk [] ''v1'' ''ConfigMap'') ns ''trusted-ca'' (BConfigMap []))
      \<lparr> o_labels := [(''config.openshift.io/inject-trusted-cabundle'', ''true'')] \<rparr>)"
    by (rule core_kind_allowed [of _ "''ConfigMap''"]) (simp_all add: new_object_def)
  then show ?thesis
    unfolding patch_op_def EnsureTrustedCAConfigMap_def
    by (auto split: if_splits prod.splits sum.splits dest: ApplyOwned_ownership intro: ApplyOwned_sends)
qed

lemma ensure_namespaces_sends:
  assumes "\<And>obj. obj \<in> set objs \<Longrightarrow> o_body obj = BNamespace \<Longrightarrow> P obj"
    and "ensure_namespaces M A expected objs tc w = (r, tc', w')"
  shows "ownership tc' = ownership tc \<and> emits (sends M tc P) w w'"
  using assms
proof (induction objs arbitrary: tc w)
  case (Cons obj objs)
  have IH: "ownership tc' = ownership tc1 \<and> emits (sends M tc1 P) w1 w'" if "ensure_namespaces M A expected objs tc1 w1 = (r, tc', w')" for tc1 w1
    by (rule Cons.IH [OF _ that], rule Cons.prems(1)) auto
  show ?case
  proof (cases "o_body obj = BNamespace \<and> o_name obj = expected")
    case True
    obtain a tc1 w1 where a: "ApplyOwned M A obj tc w = (a, tc1, w1)" by (metis prod_cases3)
    have one: "ownership tc1 = ownership tc" "emits (sends M tc P) w w1"
      using ApplyOwned_ownership [OF a] ApplyOwned_sends [OF a, of P] True Cons.prems(1) [of obj] by auto
    show ?thesis
    proof (cases a)
      case (Inl e)
      with Cons.prems(2) True a one show ?thesis by simp
    next
      case (Inr y)
      with Cons.prems(2) True a have rest: "ensure_namespaces M A expected objs tc1 w1 = (r, tc', w')" by simp
      from IH [OF rest] one sends_cong [OF one(1), of M P] show ?thesis by (auto intro: emits_trans)
    qed
  next
    case False
    with Cons.prems(2) have "ensure_namespaces M A expected objs tc w = (r, tc', w') \<or> tc' = tc \<and> w' = w"
      by (cases "o_body obj") (auto split: if_splits)
    then show ?thesis using IH [of tc w] by auto
  qed
qed simp

lemma patch_op_EnsureNamespaceExists:
  assumes "namespaces_typed S"
  shows "patch_op M (apply_allowed metrics) (EnsureNamespaceExists M A S c expected)"
  unfolding patch_op_def
proof (intro allI impI)
  fix tc w r tc' w'
  assume run: "EnsureNamespaceExists M A S c expected tc w = (r, tc', w')"
  show "ownership tc' = ownership tc \<and> emits (sends M tc (apply_allowed metrics)) w w'"
  proof (cases "GetForComponent S c")
    case (Inr objs)
    with run have "ensure_namespaces M A expected objs tc w = (r, tc', w')" by (simp add: EnsureNamespaceExists_def)
    moreover have "obj \<in> set objs \<Longrightarrow> o_body obj = BNamespace \<Longrightarrow> apply_allowed metrics obj" for obj
      using assms Inr by (intro core_kind_allowed [of _ "''Namespace''"]) (auto simp: namespaces_typed_def)
    ultimately show ?thesis by (rule ensure_namespaces_sends [rotated])
  qed (use run in \<open>simp add: EnsureNamespaceExists_def\<close>)
qed

section \<open>The patches of a reconcile\<close>

text \<open>The operand controllers, with their metrics setting, component, namespace and ServiceMonitor.\<close>

type_synonym 's operand = "'s component_def \<times> (kobj \<Rightarrow> component_metrics_config option) \<times> component \<times> string \<times> string"

definition operands :: "machinery \<Rightarrow> merge_libs \<Rightarrow> yaml_lib \<Rightarrow> scrape_lib \<Rightarrow> 's api \<Rightarrow> object_store \<Rightarrow> 's operand_env \<Rightarrow>
    cluster_info option \<Rightarrow> 's operand list" where
  "operands M L Y X A S env ci =
     [(integration_component M L X A S env ci, (\<lambda>cr. is_componentMetrics (integration_service_spec_of cr)), Integration,
        integrationServiceNamespace, ''integration-service''),
      (build_component M L Y X A S env ci, (\<lambda>cr. bs_componentMetrics (build_service_spec_of cr)), BuildService,
        webhookConfigNamespace, ''build-service''),
      (release_component M L X A S env, (\<lambda>cr. rs_componentMetrics (release_service_spec_of cr)), Release,
        releaseServiceNamespace, ''release-service''),
      (image_component M L X A S env, (\<lambda>cr. ic_componentMetrics (image_controller_spec_of cr)), ImageController,
        imageControllerNamespace, ''image-controller'')]"

lemma operands_laws: "list_all (\<lambda>(K, metrics, c, operandNs, sm). service_reconciler M K A) (operands M L Y X A S env ci)"
  unfolding operands_def list.pred_inject list_all_iff list.set ball_simps prod.case
  by (intro conjI TrueI integration.service_reconciler_axioms build.service_reconciler_axioms release.service_reconciler_axioms
      image.service_reconciler_axioms)

lemma operands_end:
  assumes "namespaces_typed S" and "env_TokenCreator env \<noteq> None"
  shows "list_all (\<lambda>(K, metrics, c, operandNs, sm). \<forall>cr. ends_in M (apply_allowed (metrics cr))
    (scrape_phase M X A S env (metrics cr) c operandNs sm) (cmp_apply K cr)) (operands M L Y X A S env ci)"
proof -
  have manifests: "patch_op M (apply_allowed mc) (apply_manifests M A S comp message (operand_prepare mc env n customize))"
    if "\<And>obj obj'. customize obj = Inr (Some obj') \<Longrightarrow> same_kind obj obj'" for mc comp message n customize
    by (rule apply_manifests_patch_op) (rule operand_prepare_allowed [OF that assms(2)])
  note rules = ends_in_step_then ends_in_here manifests patch_op_EnsureTrustedCA patch_op_EnsureNamespaceExists [OF assms(1)]
  show ?thesis
    unfolding operands_def list.pred_inject list_all_iff list.set ball_simps prod.case
  proof (intro conjI allI TrueI, goal_cases)
    case (1 cr)
    show ?case
      unfolding integration_component_def integration_apply_def integration_applyManifests_def component_def.simps
      by (rule ends_in_quiet, erule console_url_quiet) (intro rules, erule integration_customize_kind)
  next
    case (2 cr)
    show ?case
      unfolding build_component_def build_apply_def build_applyManifests_def component_def.simps
      by (intro rules ends_in_value_then) (erule reconcileWebhookConfig_quiet, erule build_customize_kind)
  next
    case (3 cr)
    show ?case
      unfolding release_component_def release_apply_def release_applyManifests_def component_def.simps
      by (intro rules) (erule release_customize_kind)
  next
    case (4 cr)
    show ?case
      unfolding image_component_def image_apply_def image_applyManifests_def component_def.simps
      by (intro rules) (erule image_customize_kind)
  qed
qed

lemma operand_service: "(K, metrics, c, operandNs, sm) \<in> set (operands M L Y X A S env ci) \<Longrightarrow> service_reconciler M K A"
  by (drule bspec [OF operands_laws [of M A L Y X S env ci, unfolded list_all_iff]]) simp

lemma operand_ends:
  assumes "(K, metrics, c, operandNs, sm) \<in> set (operands M L Y X A S env ci)" and "namespaces_typed S" and "env_TokenCreator env \<noteq> None"
  shows "ends_in M (apply_allowed (metrics cr)) (scrape_phase M X A S env (metrics cr) c operandNs sm) (cmp_apply K cr)"
proof -
  from operands_end [OF assms(2,3), of M X A L Y ci] assms(1)
  have "case (K, metrics, c, operandNs, sm) of (K, metrics, c, operandNs, sm) \<Rightarrow> \<forall>cr. ends_in M (apply_allowed (metrics cr))
      (scrape_phase M X A S env (metrics cr) c operandNs sm) (cmp_apply K cr)"
    unfolding list_all_iff by (rule bspec)
  then show ?thesis by simp
qed

lemma append_after:
  assumes "xs @ ys = before @ e # after" and "e \<notin> set xs"
  obtains b where "before = xs @ b" "ys = b @ e # after"
proof -
  from assms(1) consider b where "before = xs @ b" "ys = b @ e # after" | mid where "xs = before @ mid" "mid @ ys = e # after"
    by (auto simp: append_eq_append_conv2)
  then show thesis
  proof cases
    case (1 b)
    with that show thesis by blast
  next
    case (2 mid)
    with assms(2) that [of "[]"] show thesis by (cases mid) auto
  qed
qed

lemma append_before:
  assumes "xs @ ys = before @ e # after" and "e \<notin> set ys"
  obtains mid where "xs = before @ e # mid"
proof -
  from assms(1) consider mid where "xs = before @ mid" "mid @ ys = e # after" | mid where "before = xs @ mid" "ys = mid @ e # after"
    by (auto simp: append_eq_append_conv2)
  then show thesis
  proof cases
    case (1 mid)
    with assms(2) that show thesis by (cases mid) auto
  next
    case (2 mid)
    with assms(2) show thesis by simp
  qed
qed

lemma sm_allowed_mono: "sm_allowed X M ns name tc es \<Longrightarrow> set es \<subseteq> set es' \<Longrightarrow> sm_allowed X M ns name tc es'"
  unfolding sm_allowed_def by blast

lemma sm_allowed_cong: "ownership tc1 = ownership tc \<Longrightarrow> sm_allowed X M ns name tc1 es = sm_allowed X M ns name tc es"
  by (simp add: sm_allowed_def SetOwnership_def)

lemma scrape_phase_patch:
  assumes "scrape_phase M X A S env metrics c operandNs sm tc w = (r, tc', w')" and "added w w' = before @ EPatch p opts obj x # after"
  shows "IsEnabled metrics \<and> (\<exists>obj0. SetOwnership M tc obj0 = Inr obj \<and> (has_token obj0 \<or> sm_allowed X M operandNs sm tc before))"
proof (cases "IsEnabled metrics \<and> env_TokenCreator env \<noteq> None")
  case True
  obtain s tc1 w1 where s: "ReconcilePrometheusScrapeToken X (operand_scrape_config M A S env c operandNs sm) tc w = (s, tc1, w1)"
    by (metis prod_cases3)
  with assms(1) True have "w1 = w'" by (auto simp: scrape_phase_def split: sum.splits)
  with scrape_patch_cases [OF s, of before p opts obj x after] assms(2) True show ?thesis by auto
next
  case False
  with assms have "[] = before @ EPatch p opts obj x # after" by (auto simp: scrape_phase_def)
  then show ?thesis by simp
qed

lemma operand_apply_patch:
  assumes "ends_in M (apply_allowed metrics) (scrape_phase M X A S env metrics c operandNs sm) f"
    and "f tc w = (r, tc', w')" and "added w w' = before @ EPatch p opts obj x # after"
  shows "\<exists>obj0. SetOwnership M tc obj0 = Inr obj \<and>
    (apply_allowed metrics obj0 \<or> IsEnabled metrics \<and> (has_token obj0 \<or> sm_allowed X M operandNs sm tc before))"
proof -
  from assms(1,2) obtain tc1 w1 where mid: "ownership tc1 = ownership tc" "emits (sends M tc (apply_allowed metrics)) w w1"
    and rest: "w' = w1 \<or> (\<exists>r2 tc2. scrape_phase M X A S env metrics c operandNs sm tc1 w1 = (r2, tc2, w'))"
    by (rule ends_inE)
  have own: "SetOwnership M tc1 = SetOwnership M tc" using mid(1) by (intro ext) (simp add: SetOwnership_def)
  show ?thesis
  proof (cases "EPatch p opts obj x \<in> set (added w w1)")
    case True
    with emits_added [OF mid(2)] have "sends M tc (apply_allowed metrics) (EPatch p opts obj x)" by blast
    then show ?thesis by (auto simp: sends_def)
  next
    case False
    with assms(3) rest obtain r2 tc2 where s: "scrape_phase M X A S env metrics c operandNs sm tc1 w1 = (r2, tc2, w')" by auto
    have "extends w1 w'" using good_phaseD [OF good_scrape_phase s] by (auto simp: good_step_def intro: tracked_phase_extends)
    from added_trans [OF emits_extends [OF mid(2)] this] assms(3) have "added w w1 @ added w1 w' = before @ EPatch p opts obj x # after" by simp
    from append_after [OF this False] obtain b where b: "before = added w w1 @ b" "added w1 w' = b @ EPatch p opts obj x # after" .
    from scrape_phase_patch [OF s b(2)] obtain obj0 where "IsEnabled metrics" "SetOwnership M tc obj0 = Inr obj"
      "has_token obj0 \<or> sm_allowed X M operandNs sm tc b" unfolding own sm_allowed_cong [OF mid(1)] by (elim conjE exE)
    moreover have "sm_allowed X M operandNs sm tc before" if "sm_allowed X M operandNs sm tc b"
      using that by (rule sm_allowed_mono) (simp add: b(1))
    ultimately show ?thesis by blast
  qed
qed

text \<open>
  (C5) A ServiceMonitor is applied last, and scrape resources only when metrics are enabled. Whatever the
  API server answers, an object that a reconcile of an operand controller applies is the owned version
  of an object that is no ServiceMonitor, and no scrape resource at all when the fetched resource
  disables metrics; or metrics are enabled and it is the Secret with the scrape token; or before it was
  applied such a Secret was accepted and the metrics certificate was read, and that certificate verifies
  against its CA or a ServiceMonitor was found to exist already.
\<close>

theorem operand_service_monitor_last:
  assumes K: "(K, metrics, c, operandNs, sm) \<in> set (operands M L Y X A S env ci)" and "namespaces_typed S" and "env_TokenCreator env \<noteq> None"
    and run: "component_reconcile M A schedule K ns name w = out"
    and patch: "added w (out_world out) = before @ EPatch p opts obj x # after"
  shows "\<exists>cr obj0. EGet (cmp_gvk K) ns name (Inr cr) \<in> set before \<and> SetOwnership M (component_client K cr) obj0 = Inr obj \<and>
    (\<not> IsComponentMetricsServiceMonitor obj0 \<and> (IsEnabled (metrics cr) \<or> \<not> IsComponentMetricsScrapeResource obj0) \<or>
     IsEnabled (metrics cr) \<and> (has_token obj0 \<or> sm_allowed X M operandNs sm (component_client K cr) before))"
proof (cases rule: reconcile_laws.reconcile_trace [OF strict_reconciler.axioms(1) [OF service_reconciler.axioms(1) [OF operand_service [OF K]]] run])
  case (1 e)
  with patch show ?thesis by (auto simp: Cons_eq_append_conv)
next
  case (2 cr w1 r tc w2 w3 tail)
  have "EPatch p opts obj x \<notin> set (added w2 w3)"
    using 2(2) CleanupOrphans_emits emits_added by (fastforce simp: cleanup_event_simps)
  moreover have "EPatch p opts obj x \<notin> set tail" using 2(4) by (auto simp: is_status_event_def)
  ultimately have none: "EPatch p opts obj x \<notin> set (added w2 w3 @ tail)" by simp
  have all: "(EGet (cmp_gvk K) ns name (Inr cr) # added w1 w2) @ (added w2 w3 @ tail) = before @ EPatch p opts obj x # after"
    using patch 2(3) by simp
  from append_before [OF all none] obtain mid where "EGet (cmp_gvk K) ns name (Inr cr) # added w1 w2 = before @ EPatch p opts obj x # mid" .
  then obtain b where b: "before = EGet (cmp_gvk K) ns name (Inr cr) # b" "added w1 w2 = b @ EPatch p opts obj x # mid"
    by (cases before) auto
  from operand_apply_patch [OF operand_ends [OF assms(1-3)] 2(1) b(2)] obtain obj0 where o0: "SetOwnership M (component_client K cr) obj0 = Inr obj"
    "apply_allowed (metrics cr) obj0 \<or> IsEnabled (metrics cr) \<and> (has_token obj0 \<or> sm_allowed X M operandNs sm (component_client K cr) b)" by blast
  show ?thesis
    using o0 sm_allowed_mono [of X M operandNs sm "component_client K cr" b before] b(1)
    by (intro exI [of _ cr] exI [of _ obj0]) (auto simp: apply_allowed_def)
qed

section \<open>A concrete reconcile\<close>

text \<open>
  The release service with a verified metrics certificate, on an API server that rejects
  ServiceMonitors.
\<close>

definition ex_sm :: kobj where
  "ex_sm = new_object serviceMonitorGVK releaseServiceNamespace ''release-service'' (BUnstructured JNull)"

definition ex_cert :: kobj where
  "ex_cert = new_object secretGVK releaseServiceNamespace MetricsServerCertSecretName
     (BSecret ''kubernetes.io/tls'' [(''ca.crt'', ''x''), (''tls.crt'', ''x'')])"

definition ex_release :: kobj where
  "ex_release = (new_object (konflux_gvk ''KonfluxReleaseService'') [] ''konflux-release-service''
     (BKonfluxCR (ReleaseServiceSpec \<lparr> rs_config = ReleaseServiceConfigSpec, rs_componentMetrics = None \<rparr>)))\<lparr> o_uid := ''u2'' \<rparr>"

definition ex_sm_api :: "kobj list api" where
  "ex_sm_api = ref_api\<lparr> api_patch := (\<lambda>p opts obj s. if o_gvk obj = serviceMonitorGVK then (Inl (ApiError OtherError ''forbidden''), s)
     else api_patch ref_api p opts obj s) \<rparr>"

definition ex_sm_store :: object_store where
  "ex_sm_store = \<lparr> store_objects = [(Release, [ex_sm])] \<rparr>"

definition ex_sm_env :: "kobj list operand_env" where
  "ex_sm_env = \<lparr> env_TokenCreator = Some \<lparr> Clientset = True \<rparr>, env_SecretReader = None, env_Clock = None \<rparr>"

definition ex_sm_libs :: merge_libs where
  "ex_sm_libs = \<lparr> container_lib = ref_merge, pod_lib = \<lparr> marshal = (\<lambda>p. Inr JNull), strategic_merge_patch = (\<lambda>b v p. Inr b),
     unmarshal = (\<lambda>j. Inr PodSpec) \<rparr> \<rparr>"

definition ex_sm_component :: "kobj list component_def" where
  "ex_sm_component = release_component ref_machinery ex_sm_libs ex_token_lib ex_sm_api ex_sm_store ex_sm_env"

definition ex_sm_events :: "event list" where
  "ex_sm_events = events (out_world (component_reconcile ref_machinery ex_sm_api [] ex_sm_component [] ''konflux-release-service''
     (start [ex_release, ex_cert])))"

definition is_patch_of :: "gvk \<Rightarrow> event \<Rightarrow> bool" where
  "is_patch_of g e = (case e of EPatch p opts obj x \<Rightarrow> o_gvk obj = g | _ \<Rightarrow> False)"

lemmas ex_scrape_defs = operand_scrape_config_def ReconcilePrometheusScrapeToken_def
  validateScrapeTokenReconcilerConfig_def EnsurePrometheusScrapeToken_def ref_defs api_defs
  mint_token_def the_clock_def CreateScraperToken_def ApplyOwned_def ApplyObject_def SetOwnership_def
  NewClientWithOwnership_def scrapeTokenSecret_def prepareSecretForApply_def Let_def IsCustomResourceDefinition_def gvk_Empty_def
  ensureMetricsTLSReadyForServiceMonitor_def ReconcileMetricsScrapeTLS_def EvaluateMetricsScrapeTLS_def metricsTLSReader_def
  ensureSecretTypeMeta_def IsNotFound_def scrapeTokenResultFromSecret_def secret_data_def go_get_def
  VerifyCertPEMSignedByCA_def parseFirstCertPEM_def ex_token_lib_def MetricsScrapeTLSResult_def
  finish_scrape_def applyOrProbeOperandServiceMonitor_def applyDeferredOperandServiceMonitor_def probeOperandServiceMonitor_def
  apply_operand_sm_def GetForComponent_def deepCopyObjects_def OperandServiceMonitorFromObjects_def IsComponentMetricsServiceMonitor_def
  objectGroupVersionKind_def ApplyMetricsScraperBindingSubjects_def HasMetricsScraperBindingAnnotation_def
  secretGVK_def serviceMonitorGVK_def

lemmas ex_sm_defs = ex_sm_component_def release_component_def release_apply_def release_applyManifests_def apply_manifests_def
  operand_prepare_def step_then_def scrape_phase_def release_service_spec_of_def ex_sm_def ex_cert_def ex_release_def ex_sm_api_def
  ex_sm_store_def ex_sm_env_def component_reconcile_def reconcile_fetched_def component_client_def konflux_gvk_def IsEnabled_def
  HandleWithReason_def Handle_def component_name_def

lemma ex_sm_patches: "8 < length ex_sm_events" "is_patch_of serviceMonitorGVK (ex_sm_events ! 8)"
  by (simp_all add: ex_sm_events_def ex_sm_defs ex_scrape_defs is_patch_of_def)

theorem operand_service_monitor_last_witness:
  "\<exists>p opts obj x cr obj0. ex_sm_events ! 8 = EPatch p opts obj x \<and> o_gvk obj = serviceMonitorGVK \<and>
     EGet (cmp_gvk ex_sm_component) [] ''konflux-release-service'' (Inr cr) \<in> set (take 8 ex_sm_events) \<and>
     SetOwnership ref_machinery (component_client ex_sm_component cr) obj0 = Inr obj"
proof -
  let ?w = "start [ex_release, ex_cert]" and ?r = "\<lambda>cr. rs_componentMetrics (release_service_spec_of cr)"
  let ?out = "component_reconcile ref_machinery ex_sm_api [] ex_sm_component [] ''konflux-release-service'' ?w"
  obtain p opts obj x where e: "ex_sm_events ! 8 = EPatch p opts obj x" "o_gvk obj = serviceMonitorGVK"
    using ex_sm_patches(2) by (cases "ex_sm_events ! 8") (simp_all add: is_patch_of_def)
  have ev: "added ?w (out_world ?out) = ex_sm_events" by (simp add: ex_sm_events_def added_def start_def)
  have split: "added ?w (out_world ?out) = take 8 ex_sm_events @ EPatch p opts obj x # drop 9 ex_sm_events"
    using id_take_nth_drop [OF ex_sm_patches(1)] unfolding ev e by simp
  have K: "(ex_sm_component, ?r, Release, releaseServiceNamespace, ''release-service'') \<in>
      set (operands ref_machinery ex_sm_libs ex_yaml ex_token_lib ex_sm_api ex_sm_store ex_sm_env None)"
    unfolding operands_def ex_sm_component_def list.set by (rule insertI2, rule insertI2, rule insertI1)
  have typed: "namespaces_typed ex_sm_store"
    by (auto simp: namespaces_typed_def ex_sm_store_def GetForComponent_def deepCopyObjects_def ex_sm_def new_object_def split: if_splits)
  have token: "env_TokenCreator ex_sm_env \<noteq> None" by (simp add: ex_sm_env_def)
  from operand_service_monitor_last [OF K typed token refl split] e show ?thesis by blast
qed

end
