(* ===== verification/Controllers.thy ===== *)
theory Controllers
  imports Info_Controller Operand_Metrics
begin

text \<open>
  All component controllers together: what every reconcile of every controller guarantees, whichever resource
  it serves. The controllers satisfy the laws of \<open>reconcile_laws\<close> in their own theories; the theorems here
  are the facts of that locale at the interpretations.
\<close>

section \<open>The controllers of the operator\<close>

text \<open>Everything the controllers are given: apimachinery, libraries, API server, manifests, metrics wiring, cluster information.\<close>

record 's operator_env =
  opr_machinery :: machinery
  opr_merge :: merge_libs
  opr_yaml :: yaml_lib
  opr_scrape :: scrape_lib
  opr_url :: url_lib
  opr_ui :: ui_lib
  opr_info :: info_lib
  opr_registry :: registry_lib
  opr_api :: "'s api"
  opr_store :: object_store
  opr_metrics :: "'s operand_env"
  opr_ci :: "cluster_info option"

text \<open>The controllers that are good service reconcilers without further conditions.\<close>

definition service_components :: "'s operator_env \<Rightarrow> 's component_def list" where
  "service_components E =
     (let M = opr_machinery E; L = opr_merge E; A = opr_api E; S = opr_store E; ci = opr_ci E
      in simple_components M L A S @ map fst (operands M L (opr_yaml E) (opr_scrape E) A S (opr_metrics E) ci) @
         [segmentbridge_component M L (opr_url E) A S ci, info_component M (opr_info E) A S ci])"

text \<open>
  The reconciles of the operator. The user interface determines its endpoint during the reconcile, the default
  tenant may stop early to wait for the registry's Secret.
\<close>

inductive controller_run :: "'s operator_env \<Rightarrow> nat list \<Rightarrow> 's component_def \<Rightarrow> string \<Rightarrow> string \<Rightarrow> 's world \<Rightarrow> 's outcome \<Rightarrow> bool" where
  service: "K \<in> set (service_components E) \<Longrightarrow>
    controller_run E schedule K ns name w (component_reconcile (opr_machinery E) (opr_api E) schedule K ns name w)"
| registry: "K = internalregistry_component (opr_machinery E) (opr_api E) (opr_store E) (opr_registry E) \<Longrightarrow>
    controller_run E schedule K ns name w (component_reconcile (opr_machinery E) (opr_api E) schedule K ns name w)"
| tenant: "K = defaulttenant_component (opr_machinery E) (opr_api E) (opr_store E) \<Longrightarrow>
    controller_run E schedule K ns name w (defaulttenant_Reconcile (opr_machinery E) (opr_api E) schedule (opr_store E) ns name w)"
| user_interface: "K = ui_component (opr_machinery E) (opr_ui E) (opr_api E) (opr_store E) (opr_ci E) endpoint \<Longrightarrow>
    controller_run E schedule K ns name w (ui_Reconcile (opr_machinery E) (opr_ui E) (opr_api E) schedule (opr_store E) (opr_ci E) ns name w)"

lemma service_components_laws:
  assumes "K \<in> set (service_components E)"
  shows "service_reconciler (opr_machinery E) K (opr_api E)"
proof -
  have "K \<in> set (simple_components (opr_machinery E) (opr_merge E) (opr_api E) (opr_store E)) \<Longrightarrow> ?thesis"
    by (intro service_reconciler.intro simple_component_strict simple_component_laws)
  then show ?thesis
    using assms operand_service segmentbridge.service_reconciler_axioms info.service_reconciler_axioms
    by (auto simp: service_components_def Let_def)
qed

lemma service_laws: "service_reconciler M K A \<Longrightarrow> reconcile_laws M K"
  by (rule strict_reconciler.axioms(1) [OF service_reconciler.axioms(1)])

text \<open>A reconcile of the default tenant that is no component reconcile waits: it neither deletes nor reports.\<close>

definition waits :: "'s world \<Rightarrow> 's outcome \<Rightarrow> bool" where
  "waits w out \<longleftrightarrow> out_err out = None \<and> RequeueAfter (out_result out) > 0 \<and> no_failed_patch w (out_world out) \<and>
     (\<forall>e \<in> set (added w (out_world out)). \<not> is_cleanup e)"

lemma tenant_result:
  assumes "defaulttenant_apply M A S cr tc w = (Inr res, tc', w')"
  shows "res = no_requeue \<or> RequeueAfter res > 0"
proof -
  from assms obtain tc1 w1 where "syncInternalRegistryCredentialsSecret M A tc1 w1 = (Inr res, tc', w')"
    by (auto simp: defaulttenant_apply_def step_then_def tenant_sync_phase_def split: prod.splits option.splits sum.splits)
  then show ?thesis by (cases rule: sync_cases) auto
qed

lemma tenant_waits:
  obtains "defaulttenant_Reconcile M A schedule S ns name w = component_reconcile M A schedule (defaulttenant_component M A S) ns name w"
  | "waits w (defaulttenant_Reconcile M A schedule S ns name w)"
proof -
  let ?K = "defaulttenant_component M A S" and ?out = "defaulttenant_Reconcile M A schedule S ns name w"
  obtain g w1 where g: "k_get A (cmp_gvk ?K) ns name w = (g, w1)" by fastforce
  show thesis
  proof (cases g)
    case (Inl e)
    with g show thesis by (intro that(1)) (simp add: defaulttenant_Reconcile_def component_reconcile_def)
  next
    case cr: (Inr cr)
    obtain r tc w2 where a: "cmp_apply ?K cr (component_client ?K cr) w1 = (r, tc, w2)" by (metis prod_cases3)
    show thesis
    proof (cases r)
      case (Inl f)
      with g cr a show thesis
        by (intro that(1)) (auto simp: defaulttenant_Reconcile_def component_reconcile_def reconcile_fetched_def split: prod.splits)
    next
      case (Inr res)
      show thesis
      proof (cases "RequeueAfter res > 0")
        case True
        with g cr a Inr have out: "?out = \<lparr> out_result = res, out_err = None, out_cr = Some cr, out_world = w2 \<rparr>"
          by (simp add: defaulttenant_Reconcile_def)
        have x: "extends w w1" "extends w1 w2" using k_call_extends(1) [OF g] emits_extends [OF defaulttenant.no_cleanup [OF a]] .
        have ev: "added w w2 = EGet (cmp_gvk ?K) ns name (Inr cr) # added w1 w2"
          using added_trans [OF x] k_call_added(1) [OF g] cr by simp
        have "\<not> is_cleanup e" if "e \<in> set (added w w2)" for e
          using that defaulttenant.no_cleanup [OF a] emits_added by (fastforce simp: ev is_cleanup_def)
        moreover have "no_failed_patch w w2"
          using defaulttenant.reports_failure [OF a] Inr by (auto simp: no_failed_patch_def ev)
        ultimately show thesis using True by (intro that(2)) (simp add: waits_def out)
      next
        case False
        have "defaulttenant_apply M A S cr (component_client ?K cr) w1 = (Inr res, tc, w2)"
          using a Inr by (simp add: defaulttenant_component_def)
        from tenant_result [OF this] False have "res = no_requeue" by simp
        with g cr a Inr show thesis
          by (intro that(1)) (simp add: defaulttenant_Reconcile_def component_reconcile_def reconcile_fetched_def no_requeue_def)
      qed
    qed
  qed
qed

text \<open>Every reconcile waits or is a component reconcile of a controller that keeps the laws.\<close>

lemma controller_run_component:
  assumes "controller_run E schedule K ns name w out"
  obtains (component) K' where "component_reconcile (opr_machinery E) (opr_api E) schedule K' ns name w = out" "reconcile_laws (opr_machinery E) K'"
    "cmp_gvk K \<noteq> konflux_gvk ''KonfluxInternalRegistry'' \<Longrightarrow> strict_reconciler (opr_machinery E) K'"
    "cmp_gvk K' = cmp_gvk K" "cmp_cleanupGVKs K' = cmp_cleanupGVKs K" "cmp_opts K' = cmp_opts K"
  | (waiting) "waits w out"
  using assms
proof cases
  case service
  note K = service_components_laws [OF service(2)]
  show thesis by (rule component [OF service(1) [symmetric] service_laws [OF K] service_reconciler.axioms(1) [OF K] refl refl refl])
next
  case registry
  have gvk: "cmp_gvk K = konflux_gvk ''KonfluxInternalRegistry''" using registry(2) by (simp add: internalregistry_component_def)
  have "reconcile_laws (opr_machinery E) K"
    unfolding registry(2) by (rule deployment_reconciler.axioms(1) [OF internalregistry.deployment_reconciler_axioms])
  from component [OF registry(1) [symmetric] this] gvk show thesis by blast
next
  case tenant
  show thesis
  proof (rule tenant_waits [of "opr_machinery E" "opr_api E" schedule "opr_store E" ns name w])
    assume "defaulttenant_Reconcile (opr_machinery E) (opr_api E) schedule (opr_store E) ns name w =
      component_reconcile (opr_machinery E) (opr_api E) schedule (defaulttenant_component (opr_machinery E) (opr_api E) (opr_store E)) ns name w"
    with tenant show thesis
      using service_reconciler.axioms(1) [OF defaulttenant.service_reconciler_axioms] service_laws [OF defaulttenant.service_reconciler_axioms]
      by (intro component [of K]) simp_all
  qed (use tenant waiting in simp)
next
  case (user_interface endpoint)
  obtain ep where "ui_Reconcile (opr_machinery E) (opr_ui E) (opr_api E) schedule (opr_store E) (opr_ci E) ns name w =
      component_reconcile (opr_machinery E) (opr_api E) schedule (ui_component (opr_machinery E) (opr_ui E) (opr_api E) (opr_store E) (opr_ci E) ep) ns name w"
    by (rule ui_Reconcile_component)
  with user_interface show thesis
    using ui.strict_reconciler_axioms strict_reconciler.axioms(1) [OF ui.strict_reconciler_axioms] by (intro component) (auto simp: ui_component_def)
qed

section \<open>Guarantees of every controller\<close>



text \<open>
  (C13) A reconcile of a component controller that fails on an existing resource tries to say so: its last call is a status
  update, which either is the call that failed or sends \<open>Ready\<close> False with a message that ends in the
  returned error.
\<close>

theorem component_failure_reported:
  assumes laws: "condition_laws (opr_machinery E)" and run: "controller_run E schedule K ns name w out"
    and bad: "out_err out = Some e" "out_cr out \<noteq> None"
  shows "\<exists>before cr1 r. events (out_world out) = before @ [EStatusUpdate cr1 r] \<and>
    (r = Inl e \<or> (\<exists>c. conds cr1 TypeReady = Some c \<and> cstatus c = CFalse \<and>
       (\<exists>operation. cmessage c = operation @ '': '' @ error_text e)))"
  using run
proof (cases rule: controller_run_component)
  case (component K')
  from reconcile_laws.failure_reported [OF component(2) laws component(1) bad] show ?thesis .
next
  case waiting
  with bad show ?thesis by (simp add: waits_def)
qed

text \<open>
  (C11) A reconcile of a component controller that succeeds on an existing resource either waits, with a retry and without
  deleting or reporting anything, or ends with the list of the resource's Deployments and an accepted
  status update of that same resource, in which \<open>Ready\<close> is True exactly when every listed Deployment is
  rolled out.
\<close>

theorem component_success_reports_readiness:
  assumes laws: "condition_laws (opr_machinery E)" and run: "controller_run E schedule K ns name w out"
    and ok: "out_err out = None" "out_cr out = Some cr'"
  shows "waits w out \<or> (\<exists>cr ds cr1 before. events (out_world out) = before @
      [EList deployment_list_gvk [(KonfluxOwnerLabel, o_name cr)] (Inr ds), EStatusUpdate cr1 (Inr cr')] \<and>
    EGet (cmp_gvk K) ns name (Inr cr) \<in> set before \<and> o_name cr1 = o_name cr \<and>
    (IsConditionTrue (opr_machinery E) cr1 TypeReady \<longleftrightarrow> list_all IsDeploymentReady ds))" (is "_ \<or> ?reports")
proof -
  have deployments: ?reports if "deployment_reconciler (opr_machinery E) K (opr_api E)"
      "component_reconcile (opr_machinery E) (opr_api E) schedule K ns name w = out"
    using deployment_reconciler.success_reports_readiness [OF that(1) laws that(2) ok] by (elim exE conjE) (intro exI conjI)
  from run show ?thesis
  proof cases
    case service
    from deployments [OF service_reconciler.axioms(2) [OF service_components_laws [OF service(2)]] service(1) [symmetric]] show ?thesis ..
  next
    case registry
    have "deployment_reconciler (opr_machinery E) K (opr_api E)" unfolding registry(2) by (rule internalregistry.deployment_reconciler_axioms)
    from deployments [OF this registry(1) [symmetric]] show ?thesis ..
  next
    case tenant
    have K: "deployment_reconciler (opr_machinery E) K (opr_api E)"
      unfolding tenant(2) by (rule service_reconciler.axioms(2) [OF defaulttenant.service_reconciler_axioms])
    show ?thesis
      by (rule tenant_waits [of "opr_machinery E" "opr_api E" schedule "opr_store E" ns name w]) (use deployments [OF K] tenant in auto)
  next
    case (user_interface endpoint)
    have gvk: "cmp_gvk K = konflux_gvk ''KonfluxUI''" by (simp add: user_interface(2) ui_component_def)
    have ?reports
      by (rule ui_reported [OF laws user_interface(1) [symmetric] ok]) (unfold gvk, intro exI conjI)
    then show ?thesis ..
  qed
qed

section \<open>Concrete reconciles\<close>

text \<open>The reconcile of the enterprise contract on the reference cluster, whatever the other controllers are given.\<close>

definition ex_operator :: "kobj list operator_env \<Rightarrow> kobj list api \<Rightarrow> kobj list operator_env" where
  "ex_operator E A = E\<lparr> opr_machinery := ref_machinery, opr_api := A, opr_store := ex_store \<rparr>"

lemma ex_controller_run: "controller_run (ex_operator E A) [0, 0] (enterprisecontract_component ref_machinery A ex_store) [] ''ec''
    (start [ex_ec, ex_policy]) (ex_reconcile A)"
proof -
  have "enterprisecontract_component ref_machinery A ex_store \<in> set (service_components (ex_operator E A))"
    by (simp add: service_components_def ex_operator_def Let_def ex_member)
  from controller_run.service [OF this] show ?thesis by (simp add: ex_reconcile_def ex_operator_def)
qed

lemma ex_machinery [simp]: "opr_machinery (ex_operator E A) = ref_machinery"
  by (simp add: ex_operator_def)



theorem component_failure_reported_witness:
  "\<forall>E. condition_laws (opr_machinery (ex_operator E ex_readonly_api)) \<and>
     (\<exists>cr1 r. EStatusUpdate cr1 r \<in> set (events (out_world (ex_reconcile ex_readonly_api))))"
proof
  fix E
  obtain e where e: "out_err (ex_reconcile ex_readonly_api) = Some e" using ex_reconcile_fails(2) by blast
  have laws: "condition_laws (opr_machinery (ex_operator E ex_readonly_api))" by (simp add: ref_machinery_laws)
  from component_failure_reported [OF laws ex_controller_run e ex_reconcile_fails(3)] laws
  show "condition_laws (opr_machinery (ex_operator E ex_readonly_api)) \<and>
     (\<exists>cr1 r. EStatusUpdate cr1 r \<in> set (events (out_world (ex_reconcile ex_readonly_api))))" by fastforce
qed

theorem component_success_reports_readiness_witness:
  "\<forall>E. condition_laws (opr_machinery (ex_operator E ref_api)) \<and>
     (\<exists>cr1 cr'. EStatusUpdate cr1 (Inr cr') \<in> set (events (out_world (ex_reconcile ref_api))))"
proof
  fix E
  obtain cr' where cr': "out_cr (ex_reconcile ref_api) = Some cr'" using ex_reconcile_succeeds(2) by blast
  have laws: "condition_laws (opr_machinery (ex_operator E ref_api))" by (simp add: ref_machinery_laws)
  have "\<not> waits (start [ex_ec, ex_policy]) (ex_reconcile ref_api)"
    unfolding waits_def by (auto dest!: bspec [OF _ ex_reconcile_deletes] simp: is_cleanup_def)
  with component_success_reports_readiness [OF laws ex_controller_run ex_reconcile_succeeds(1) cr'] laws
  show "condition_laws (opr_machinery (ex_operator E ref_api)) \<and>
     (\<exists>cr1 cr'. EStatusUpdate cr1 (Inr cr') \<in> set (events (out_world (ex_reconcile ref_api))))" by fastforce
qed

end
