(* ===== verification/Operator_Metrics.thy ===== *)
theory Operator_Metrics
  imports Scrape_Token
begin

text \<open>
  The metrics of the operator itself (\<open>internal/operatormetrics\<close>): a loop that keeps the scraper's account and
  binding, the scrape token and the ServiceMonitor of the operator, and is woken early by changes of the
  Secrets involved; and the broadcaster that wakes the operand controllers
  (\<open>internal/common/scrape_token_rotation.go\<close>).
\<close>

abbreviation OperatorNamespace :: string where "OperatorNamespace \<equiv> ''konflux-operator''"
abbreviation OperatorAppName :: string where "OperatorAppName \<equiv> ''konflux-operator''"
abbreviation OperatorMetricsServiceName :: string where
  "OperatorMetricsServiceName \<equiv> ''konflux-operator-controller-manager-metrics-service''"
abbreviation operatorServiceMonitorName :: string where "operatorServiceMonitorName \<equiv> ''controller-manager-metrics-monitor''"
abbreviation operatorMetricsReaderClusterRole :: string where "operatorMetricsReaderClusterRole \<equiv> ''konflux-operator-metrics-reader''"
abbreviation operatorMetricsReaderBinding :: string where
  "operatorMetricsReaderBinding \<equiv> ''konflux-operator-prometheus-konflux-operator-metrics-reader''"

section \<open>The ServiceMonitor of the operator\<close>

definition operator_monitor_spec :: "string \<Rightarrow> json" where
  "operator_monitor_spec namespace = JObject
     [(''endpoints'', JArray [JObject
        [(''bearerTokenSecret'', JObject [(''key'', JString ScrapeTokenSecretKey), (''name'', JString ScrapeTokenSecretName)]),
         (''metricRelabelings'', JArray [JObject [(''sourceLabels'', JArray [JString ''exported_service'']), (''targetLabel'', JString ''service''),
            (''regex'', JString ''(.+)''), (''replacement'', JString ''$1''), (''action'', JString ''replace'')]]),
         (''path'', JString ''/metrics''), (''port'', JString ''https''), (''scheme'', JString ''https''),
         (''tlsConfig'', JObject [(''insecureSkipVerify'', JBool False),
            (''serverName'', JString (OperatorMetricsServiceName @ ''.'' @ namespace @ ''.svc'')),
            (''ca'', JObject [(''secret'', JObject [(''name'', JString MetricsServerCertSecretName), (''key'', JString ''ca.crt'')])])])]]),
      (''selector'', JObject [(''matchLabels'', JObject [(''control-plane'', JString ''controller-manager''),
         (''app.kubernetes.io/name'', JString OperatorAppName)])])]"

definition desiredOperatorServiceMonitor :: "string \<Rightarrow> kobj" where
  "desiredOperatorServiceMonitor namespace =
     (new_object serviceMonitorGVK namespace operatorServiceMonitorName (BUnstructured (JObject [(''spec'', operator_monitor_spec namespace)])))
       \<lparr> o_labels := [(''control-plane'', ''controller-manager''), (''app.kubernetes.io/name'', OperatorAppName),
          (''app.kubernetes.io/managed-by'', OperatorAppName)] \<rparr>"

definition EnsureOperatorServiceMonitor :: "'s api \<Rightarrow> string \<Rightarrow> 's world \<Rightarrow> go_error option \<times> 's world" where
  "EnsureOperatorServiceMonitor A namespace w =
     (if namespace = [] then (Some (NewError ''namespace is required''), w)
      else let desired = desiredOperatorServiceMonitor namespace
           in (case k_get A serviceMonitorGVK namespace operatorServiceMonitorName w of
                 (Inl e, w1) \<Rightarrow>
                   if IsNoMatchError e then (None, w1)
                   else if IsNotFound e
                   then (case k_create A desired w1 of
                           (Inl e', w2) \<Rightarrow> (if IsNoMatchError e' then None
                                          else Some (Errorf (''create ServiceMonitor '' @ quoted operatorServiceMonitorName) e'), w2)
                         | (Inr obj, w2) \<Rightarrow> (None, w2))
                   else (Some (Errorf (''get ServiceMonitor '' @ quoted operatorServiceMonitorName) e), w1)
               | (Inr existing, w1) \<Rightarrow>
                   let p = existing\<lparr> o_labels := o_labels desired,
                             o_body := BUnstructured (json_put ''spec'' (operator_monitor_spec namespace)
                               (case o_body existing of BUnstructured j \<Rightarrow> j | _ \<Rightarrow> JObject [])) \<rparr>
                   in (case k_direct_patch A (MergeFrom existing) \<lparr> FieldOwner = [], ForceOwnership = False \<rparr> p w1 of
                         (Inl e, w2) \<Rightarrow> (Some e, w2)
                       | (Inr obj, w2) \<Rightarrow> (None, w2))))"

section \<open>The rotator\<close>

record 's rotator =
  rot_Client :: "'s api"
  rot_SecretReader :: "'s api option"
  rot_Clock :: "'s clock option"
  rot_TokenCreator :: "token_creator option"
  rot_Namespace :: string
  rot_Interval :: duration

text \<open>The rotator has no tracking client: its callbacks write through the plain client.\<close>

definition rotator_config :: "'s rotator \<Rightarrow> string \<Rightarrow> 's scrape_config" where
  "rotator_config r namespace = \<lparr> sc_Client = rot_Client r, sc_Clock = rot_Clock r, sc_TokenCreator = rot_TokenCreator r,
     sc_ScraperNamespace = namespace, sc_ScraperName = MetricsScraperServiceAccountName, sc_OperandNamespace = namespace,
     sc_ServiceMonitorName = operatorServiceMonitorName,
     sc_Apply = Some (\<lambda>secret tc w. case ApplyScrapeTokenSecret (rot_Client r) secret w of (x, w') \<Rightarrow> (x, tc, w')),
     sc_ApplyServiceMonitor = Some (\<lambda>tc w. case EnsureOperatorServiceMonitor (rot_Client r) namespace w of (x, w') \<Rightarrow> (x, tc, w')),
     sc_SecretReader = rot_SecretReader r \<rparr>"

definition rotator_reconcile :: "scrape_lib \<Rightarrow> 's rotator \<Rightarrow> string \<Rightarrow> 's world \<Rightarrow> duration result \<times> 's world" where
  "rotator_reconcile X r namespace w =
     (case EnsureMetricsScraperServiceAccount (rot_Client r) namespace w of
        (Some e, w1) \<Rightarrow> (Inl e, w1)
      | (None, w1) \<Rightarrow>
          (case EnsureMetricsReaderBinding (rot_Client r) operatorMetricsReaderBinding operatorMetricsReaderClusterRole
                  (MetricsScraperBindingSubjects namespace) w1 of
             (Some e, w2) \<Rightarrow> (Inl e, w2)
           | (None, w2) \<Rightarrow> (case ReconcilePrometheusScrapeToken X (rotator_config r namespace) NewClient w2 of
               (Inl e, tc, w3) \<Rightarrow> (Inl e, w3)
             | (Inr res, tc, w3) \<Rightarrow> (Inr (RequeueAfter res), w3))))"

definition rotationInterval :: "'s rotator \<Rightarrow> duration" where
  "rotationInterval r = (if rot_Interval r > 0 then rot_Interval r else DefaultScrapeTokenRotationInterval)"

text \<open>The pause after a reconcile; a failed one is logged and counts as a requeue of zero.\<close>

definition rotator_wait :: "'s rotator \<Rightarrow> duration result \<Rightarrow> duration" where
  "rotator_wait r result = (let requeue = (case result of Inl e \<Rightarrow> 0 | Inr d \<Rightarrow> d); interval = rotationInterval r
     in if requeue > 0 \<and> requeue < interval then requeue else interval)"

definition rotator_namespace :: "'s rotator \<Rightarrow> string" where
  "rotator_namespace r = (if rot_Namespace r = [] then OperatorNamespace else rot_Namespace r)"

text \<open>
  What the informer delivers, and the wake channel, which holds one token: \<open>True\<close> when a reconcile is
  already pending.
\<close>

datatype informer_object = Watched kobj | DeletedFinalStateUnknown kobj

definition informer_secret :: "informer_object \<Rightarrow> kobj option" where
  "informer_secret x = (let obj = (case x of Watched obj \<Rightarrow> obj | DeletedFinalStateUnknown obj \<Rightarrow> obj)
     in if go_type (o_body obj) = ''*v1.Secret'' then Some obj else None)"

definition notifyScrapeWiringWake :: "string \<Rightarrow> informer_object \<Rightarrow> bool \<Rightarrow> bool" where
  "notifyScrapeWiringWake namespace x wake = (case informer_secret x of
     None \<Rightarrow> wake
   | Some secret \<Rightarrow> if o_namespace secret \<noteq> namespace \<or> \<not> IsMetricsScrapeWiringSecret (Some secret) then wake else True)"

section \<open>The rotation broadcaster\<close>

text \<open>The subscribers' channels hold one event each; the list says which are full.\<close>

definition broadcaster_Subscribe :: "bool list \<Rightarrow> bool list" where
  "broadcaster_Subscribe subscribers = subscribers @ [False]"

definition broadcaster_interval :: "duration \<Rightarrow> duration" where
  "broadcaster_interval interval = (if interval \<le> 0 then DefaultScrapeTokenRotationInterval else interval)"

definition broadcast :: "bool list \<Rightarrow> bool list" where
  "broadcast subscribers = map (\<lambda>full. if full then full else True) subscribers"

lemma broadcast_reaches_all: "broadcast subscribers = replicate (length subscribers) True"
  by (induction subscribers) (auto simp: broadcast_def)

section \<open>Properties\<close>

lemma EnsureOperatorServiceMonitor_quiet: "EnsureOperatorServiceMonitor A ns w = (r, w') \<Longrightarrow> emits quiet w w'"
  by (auto simp: EnsureOperatorServiceMonitor_def Let_def split: if_splits prod.splits sum.splits dest!: quiet_calls intro: emits_trans)

lemma ApplyScrapeTokenSecret_quiet: "ApplyScrapeTokenSecret A s w = (r, w') \<Longrightarrow> emits quiet w w'"
  by (auto simp: ApplyScrapeTokenSecret_def split: prod.splits sum.splits dest!: quiet_calls)

interpretation operator_scrape: scrape_callbacks M "rotator_config r ns" for M r ns
proof (unfold_locales, goal_cases)
  case (1 f obj tc w x tc' w')
  then show ?case
    by (auto simp: rotator_config_def split: prod.splits dest!: ApplyScrapeTokenSecret_quiet intro: good_step_quiet)
next
  case (2 g tc w x tc' w')
  then show ?case
    by (auto simp: rotator_config_def split: prod.splits dest!: EnsureOperatorServiceMonitor_quiet intro: good_step_quiet)
qed

text \<open>
  The rotator waits for a positive time, at most the rotation interval, and no longer than the reconcile
  asked for; after a failure it waits for the interval.
\<close>

lemma rotator_wait_bounds:
  "0 < rotator_wait r x \<and> rotator_wait r x \<le> rotationInterval r \<and> (\<forall>d. x = Inr d \<longrightarrow> 0 < d \<longrightarrow> rotator_wait r x \<le> d) \<and>
   (\<forall>e. x = Inl e \<longrightarrow> rotator_wait r x = rotationInterval r)"
  by (auto simp: rotator_wait_def rotationInterval_def Let_def split: sum.splits)

text \<open>The rotator never deletes anything, whatever the API server answers.\<close>

lemma rotator_deletes_nothing:
  assumes run: "rotator_reconcile X r ns w = (x, w')"
  shows "EDelete obj d \<notin> set (added w w')"
proof -
  obtain e1 w1 where 1: "EnsureMetricsScraperServiceAccount (rot_Client r) ns w = (e1, w1)" by fastforce
  obtain e2 w2 where 2: "EnsureMetricsReaderBinding (rot_Client r) operatorMetricsReaderBinding operatorMetricsReaderClusterRole
      (MetricsScraperBindingSubjects ns) w1 = (e2, w2)" by fastforce
  obtain y tc w3 where 3: "ReconcilePrometheusScrapeToken X (rotator_config r ns) NewClient w2 = (y, tc, w3)" by (metis prod_cases3)
  have q1: "emits quiet w w1" using 1
    by (auto simp: EnsureMetricsScraperServiceAccount_def split: if_splits prod.splits sum.splits dest!: quiet_calls intro: emits_trans)
  have q2: "emits quiet w1 w2" using 2
    by (auto simp: EnsureMetricsReaderBinding_def Let_def split: if_splits prod.splits sum.splits dest!: quiet_calls intro: emits_trans)
  have n: "emits (\<lambda>e. \<not> is_cleanup e) w w1" "emits (\<lambda>e. \<not> is_cleanup e) w1 w2"
    by (rule emits_mono [OF q1 quiet_not_cleanup], assumption, rule emits_mono [OF q2 quiet_not_cleanup], assumption)
  have q3: "emits (\<lambda>e. \<not> is_cleanup e) w2 w3"
    using operator_scrape.reconcile_step [OF 3] by (simp add: good_step_def tracked_phase_def)
  from run 1 2 3 have "w' = w1 \<or> w' = w2 \<or> w' = w3" by (auto simp: rotator_reconcile_def split: option.splits sum.splits)
  with n q3 have "emits (\<lambda>e. \<not> is_cleanup e) w w'" by (blast intro: emits_trans)
  from emits_added [OF this, of "EDelete obj d"] show ?thesis by (auto simp: is_cleanup_def)
qed

end
