(* ===== verification/Cleanup_Termination.thy ===== *)
theory Cleanup_Termination
  imports Tracking "HOL-Library.Multiset"
begin

text \<open>
  The concurrent orphan cleanup of \<open>pkg/tracking\<close> ends however its goroutines are interleaved: the
  multiset of what the goroutines have left to do decreases with every step.
\<close>

definition pool_work :: "'s pool \<Rightarrow> (nat \<times> nat) multiset" where
  "pool_work p = mset (map (\<lambda>(g, st). work_left st) (goroutines p))"

lemma pool_step_pool_work:
  assumes "running p i"
  shows "(pool_work (pool_step J i p), pool_work p) \<in> mult (less_than <*lex*> less_than)"
proof -
  let ?work = "\<lambda>gst. work_left (snd gst)"
  have i: "i < length (goroutines p)" using assms by (simp add: running_def)
  have "\<exists>x. goroutines (pool_step J i p) = (goroutines p)[i := x]"
    using assms by (auto simp: pool_step_def case_prod_beta)
  then obtain x where x: "goroutines (pool_step J i p) = (goroutines p)[i := x]" by blast
  let ?rest = "mset (map ?work (goroutines p)) - {# ?work (goroutines p ! i) #}"
  have mem: "?work (goroutines p ! i) \<in># mset (map ?work (goroutines p))" using i by simp
  have "pool_work (pool_step J i p) = ?rest + {# ?work x #}"
    using i by (simp add: pool_work_def x case_prod_beta' map_update mset_update)
  moreover have "pool_work p = ?rest + {# ?work (goroutines p ! i) #}"
    using mem by (simp add: pool_work_def case_prod_beta')
  moreover have "(?work x, ?work (goroutines p ! i)) \<in> less_than <*lex*> less_than"
    using pool_step_work [OF assms, of J] x i by simp
  then have "(?rest + {# ?work x #}, ?rest + {# ?work (goroutines p ! i) #}) \<in> mult (less_than <*lex*> less_than)"
    by (intro one_step_implies_mult) auto
  ultimately show ?thesis by (simp only:)
qed

text \<open>
  (C16) The cleanup always ends: no interleaving of its goroutines goes on for ever, and the states in which no
  goroutine can move are exactly those in which all have ended.
\<close>

theorem cleanup_terminates:
  "wf {(p', p). cleanup_step J p p'} \<and> ((\<nexists>p'. cleanup_step J p p') \<longleftrightarrow> final p)"
proof
  have "{(p', p). cleanup_step J p p'} \<subseteq> inv_image (mult (less_than <*lex*> less_than)) pool_work"
    by (auto elim!: cleanup_stepE intro: pool_step_pool_work)
  then show "wf {(p', p). cleanup_step J p p'}"
    by (rule wf_subset [rotated]) (intro wf_inv_image wf_mult wf_lex_prod wf_less_than)
  have "(\<nexists>p'. cleanup_step J p p') \<longleftrightarrow> (\<forall>i. \<not> running p i)"
    by (auto elim!: cleanup_stepE intro: cleanup_step.move)
  also have "\<dots> \<longleftrightarrow> final p"
  proof -
    have "(case st of GDone r \<Rightarrow> False | _ \<Rightarrow> True) \<longleftrightarrow> \<not> (case st of GDone r \<Rightarrow> True | _ \<Rightarrow> False)" for st
      by (cases st) simp_all
    then show ?thesis by (simp add: running_def final_def list_all_length case_prod_beta)
  qed
  finally show "(\<nexists>p'. cleanup_step J p p') \<longleftrightarrow> final p" .
qed

end
