(* ===== verification/Spec2Isabelle.thy ===== *)
theory Spec2Isabelle
  imports Konflux_Controller Overrides Controllers Operator_Metrics Cleanup_Termination
begin

text \<open>
  \<^bold>\<open>The Konflux operator.\<close> Konflux is installed by an operator (\<open>src/operator\<close>). A user writes one
  \<open>Konflux\<close> resource; the top-level controller turns it into one custom resource per component
  (build service, UI, RBAC, ...), and a controller per component turns that resource into Deployments,
  ConfigMaps, RBAC objects and so on. Every controller follows the same protocol: fetch its resource,
  apply the desired objects through a tracking client, delete what it owns but no longer applies,
  compute status conditions and write them. Beside the controllers, the repository has a command that
  rebuilds the component manifests with overrides (\<open>cmd/overrides\<close>, \<open>pkg/overrides\<close>).

  \<^bold>\<open>Modelling.\<close> The API server and apimachinery are not part of the repository. They are parameters
  (\<open>'s api\<close>, \<open>machinery\<close>, theory \<open>Kube_Objects\<close>) that may answer anything; what the operator relies on
  is stated as named hypotheses (such as \<open>condition_laws\<close> and \<open>create_or_update_laws\<close>), and
  \<open>Reference_Cluster\<close> instantiates them. Other code outside the repository is a parameter too: strategic
  merge (\<open>merge_libs\<close>), YAML (\<open>yaml_lib\<close> and the YAML fields of other libraries), x509 and PEM
  (\<open>scrape_lib\<close>), bcrypt and random bytes (\<open>registry_lib\<close>, \<open>ui_lib\<close>), URL parsing (\<open>url_lib\<close>), and the host and
  the kustomize command of the override tool. Functions that mutate an object return it; errors are values of a sum type; each
  API call appends an event with its answer to the trace of the \<open>world\<close>, so that theorems can speak of
  what was sent and in which order. Replica counts, ports and durations are only copied, compared and added far below
  their bounds, so they are \<open>int\<close>; SHA-256 is on \<open>32 word\<close>.

  \<^bold>\<open>Foundations.\<close>

  \<^item> \<open>Prelude\<close>: Go strings, string maps, errors; the locales \<open>keyed_update\<close> and \<open>keyed_replace\<close>
    for lists updated by key, interpreted in \<open>Customization\<close> and \<open>Pipeline_Config\<close>.

  \<^item> \<open>Kube_Types\<close>, \<open>Api_Types\<close>: the Kubernetes types the code uses, and the specs of
    \<open>api/v1alpha1\<close> with their accessors.

  \<^item> \<open>Kube_Objects\<close>, \<open>Reference_Cluster\<close>: objects, client, trace; a small concrete API server.

  \<^item> \<open>Go_Paths\<close>, \<open>Go_Time\<close>: \<open>path/filepath\<close>, \<open>encoding/json\<close> and RFC 3339 times as the code uses them, with
    the parse and print round trip of times.

  \<^item> \<open>Content_Hash\<close>: SHA-256, the hash suffixes and the content-hashed ConfigMaps and Secrets
    (\<open>pkg/contenthash\<close>, \<open>pkg/hashedconfigmap\<close>, \<open>pkg/hashedsecret\<close>): a suffix is well formed, a new content is
    applied before other contents of the same base name are deleted, and only those are.

  \<^bold>\<open>Components of the operator.\<close>

  \<^item> \<open>Tracking\<close>: \<open>pkg/tracking\<close>. Orphan cleanup runs one goroutine per kind; the model takes the
    interleaving as a schedule and is shown to cover exactly the runs of the step relation
    \<open>cleanup_step\<close>. Theorems: only orphans are deleted, a successful cleanup is complete, errors have a
    cause, for every interleaving and every API server. \<open>Cleanup_Termination\<close>: no interleaving goes on for ever, by
    the multiset of the work left.

  \<^item> \<open>Conditions\<close>: \<open>internal/condition\<close>. The abstract view \<open>conds\<close> maps a condition type to its
    condition; the operations are shown to be map updates and restrictions with exact effects.

  \<^item> \<open>Customization\<close>: \<open>pkg/customization\<close>, the pod overlays. \<open>Pipeline_Config\<close>: the build pipeline
    configuration merge of the build service.

  \<^item> \<open>Manifests\<close>: object store, cluster information, metrics resources, shared helpers of
    \<open>internal/common\<close>, watch handlers and predicates, segment key resolution.

  \<^item> \<open>Reconciler\<close>, \<open>Phases\<close>: the common shape of a reconcile (\<open>component_reconcile\<close>). The locale \<open>reconcile_laws\<close>
    states what the apply and status phases of a controller provide and proves the guarantees once;
    \<open>strict_reconciler\<close> adds that failed applies are reported, \<open>deployment_reconciler\<close> that the status is that of the
    Deployments, \<open>manifest_reconciler\<close> that everything is an owned apply, and \<open>service_reconciler\<close> joins the first two. \<open>Phases\<close>
    composes apply phases from steps, so that the laws of a controller follow from those of its steps.

  \<^item> \<open>Component_Reconcilers\<close>: RBAC, CLI, application API, cert-manager, enterprise contract and
    namespace lister, each an interpretation of \<open>manifest_reconciler\<close>.

  \<^item> \<open>Scrape_Token\<close>: minting and refreshing of Prometheus scrape tokens, the metrics certificate check and
    the ServiceMonitor resync (\<open>pkg/kubernetes\<close>, \<open>internal/common\<close>); the locale \<open>scrape_callbacks\<close> is the contract of
    the callbacks a controller passes in. A token is checked again strictly before it expires.

  \<^item> \<open>Operands\<close>, \<open>Operand_Metrics\<close>: the build, integration, release and image controllers, and that their
    ServiceMonitor is applied last, after token and certificate.

  \<^item> \<open>Operator_Metrics\<close>: the operator's own scrape wiring (\<open>internal/operatormetrics\<close>), a second interpretation of
    \<open>scrape_callbacks\<close>, and the rotation broadcaster: the loop waits at most its interval and deletes nothing.

  \<^item> \<open>Side_Services\<close>: segment bridge, internal registry (with Base64 and its decoding) and default tenant:
    the two registry Secrets are written together, the tenant's copy follows the client Secret.

  \<^item> \<open>Ui_Endpoint\<close>, \<open>User_Interface\<close>: endpoint, Ingress, ConsoleLink, dex and oauth2-proxy configuration, and the UI
    controller: endpoint and Ingress agree, dex and the proxy agree exactly when they have the same base URL, and a
    successful reconcile reports the endpoint it used.

  \<^item> \<open>Info_Controller\<close>: the ConfigMaps of public information, banner and cluster configuration, the OpenShift
    version lookup, and the version poller as a step relation with an invariant.

  \<^item> \<open>Controllers\<close>: all component controllers together (\<open>controller_run\<close>): what they delete, when they delete nothing, and what
    they report, each the fact of \<open>reconcile_laws\<close> or an extension at the interpretations.

  \<^item> \<open>Konflux_Controller\<close>: the top-level controller, an interpretation of \<open>strict_reconciler\<close>: aggregated readiness,
    mirrored conditions, deletion of disabled components only, the health gauge.

  \<^item> \<open>Overrides\<close>: the override tool. It writes only in its own directories, accepts exactly well-formed
    overrides, touches only matching resources and images, and its parsers invert its printers.

  \<^bold>\<open>Termination.\<close> All functions are total and no fuel is used. Loops over manifests and lists are structural; the cleanup
  goroutines run to their end by a lexicographic measure (\<open>work_left\<close>), SHA-256 by the number of words left.
  Loops that run until the process is stopped (the version poller) are step relations.

  \<^bold>\<open>Not modelled.\<close> \<open>SetupWithManager\<close> of the controllers and \<open>cmd/main.go\<close> only register handlers and parse flags; the
  map functions and predicates they register are modelled. The goroutines of the metrics rotator and of the
  rotation broadcaster are represented by the function each iteration runs and the state of the one-place channels. Deep copies are generated code, and copies of immutable values are the
  values. Parsing of the embedded manifests is done by a library. Log output has no model.
\<close>

end
